(* ===== verification/Prelude.thy ===== *)
theory Prelude
  imports Main "HOL-Library.Word"
begin

text \<open>
  The prelude of the development: names for the machine types of the C sources, the
  error numbers of \<^verbatim>\<open>errno.h\<close> the sources return, generic lemmas on lists and words,
  and two interfaces that several components share.

  \<^item> \<open>machine\<close>: a state machine with an initial set, a step function and an invariant
    that every step keeps. The components with an event loop interpret it on their own
    step function and obtain the invariant for every run.
  \<^item> \<open>slot_table\<close>: a fixed array of slots with a test for a free slot and the linear
    search for the first free one, the idiom of \<^verbatim>\<open>ws_setup_cb\<close> (t1s_device) and of
    \<^verbatim>\<open>bridge_add_iface_cb\<close> (bridge).
\<close>

section \<open>Machine types\<close>

type_synonym u8 = "8 word"
type_synonym u16 = "16 word"
type_synonym u32 = "32 word"
type_synonym u64 = "64 word"

text \<open>A pointer to a network interface, \<open>None\<close> for \<^verbatim>\<open>NULL\<close>.\<close>

type_synonym net_if = "nat option"

text \<open>Lemma collections: the definitions of a component's operations are unfolded through
  \<open>op_defs\<close>, facts about what an operation leaves alone are in \<open>frame_simps\<close>.\<close>

named_theorems op_defs
named_theorems frame_simps

section \<open>Error numbers\<close>

text \<open>The values of \<^verbatim>\<open>errno.h\<close>; the code only relies on their being distinct and positive.\<close>

abbreviation ENOENT :: int where "ENOENT \<equiv> 2"
abbreviation ENOEXEC :: int where "ENOEXEC \<equiv> 8"
abbreviation EAGAIN :: int where "EAGAIN \<equiv> 11"
abbreviation ENOMEM :: int where "ENOMEM \<equiv> 12"
abbreviation EBUSY :: int where "EBUSY \<equiv> 16"
abbreviation ENODEV :: int where "ENODEV \<equiv> 19"
abbreviation EINVAL :: int where "EINVAL \<equiv> 22"
abbreviation ENOSPC :: int where "ENOSPC \<equiv> 28"
abbreviation EALREADY :: int where "EALREADY \<equiv> 120"

section \<open>Lists and words\<close>

lemma fold_invariant_list:
  "P s \<Longrightarrow> (\<And>x s. x \<in> set xs \<Longrightarrow> P s \<Longrightarrow> P (f x s)) \<Longrightarrow> P (fold f xs s)"
  by (induction xs arbitrary: s) auto

lemma fold_measure:
  "(\<And>x s. m (f x s) = m s) \<Longrightarrow> m (fold f xs s) = m s"
  by (induction xs arbitrary: s) auto

lemma unat_inc_less: "unat (x :: 'a::len word) + 1 < 2 ^ LENGTH('a) \<Longrightarrow> unat (x + 1) = unat x + 1"
  by (simp add: unat_word_ariths)

lemma unat_u8_le: "unat (x :: u8) \<le> 255"
proof -
  have "unat x < 2 ^ LENGTH(8)" by (rule unsigned_less)
  then show ?thesis by simp
qed

lemma unat_u16_less: "unat (x :: u16) < 65536"
proof -
  have "unat x < 2 ^ LENGTH(16)" by (rule unsigned_less)
  then show ?thesis by simp
qed

lemma unat_u32_less: "unat (x :: u32) < 4294967296"
proof -
  have "unat x < 2 ^ LENGTH(32)" by (rule unsigned_less)
  then show ?thesis by simp
qed

lemma even_unat_u8: "even (unat (x :: u8)) \<longleftrightarrow> even x"
  by transfer (auto simp: even_nat_iff)

lemma even_of_nat_u8: "even (of_nat n :: u8) \<longleftrightarrow> even n"
  by transfer auto

section \<open>Runs of a machine\<close>

fun run :: "('e \<Rightarrow> 's \<Rightarrow> 's) \<Rightarrow> 'e list \<Rightarrow> 's \<Rightarrow> 's" where
  "run step [] s = s"
| "run step (e # es) s = run step es (step e s)"

lemma run_append [simp]: "run step (xs @ ys) s = run step ys (run step xs s)"
  by (induction xs arbitrary: s) auto

lemma run_frame: "(\<And>e s. m (step e s) = m s) \<Longrightarrow> m (run step es s) = m s"
  by (induction es arbitrary: s) auto

lemma run_inv_events:
  "P s \<Longrightarrow> (\<And>e s. e \<in> set es \<Longrightarrow> P s \<Longrightarrow> P (step e s)) \<Longrightarrow> P (run step es s)"
  by (induction es arbitrary: s) auto

locale machine =
  fixes step :: "'e \<Rightarrow> 's \<Rightarrow> 's"
    and inv :: "'s \<Rightarrow> bool"
  assumes step_inv: "inv s \<Longrightarrow> inv (step e s)"
begin

lemma run_inv: "inv s \<Longrightarrow> inv (run step es s)"
  by (induction es arbitrary: s) (auto intro: step_inv)

lemma prefix_inv: "inv s \<Longrightarrow> inv (run step (take n es) s)"
  by (rule run_inv)

end

section \<open>Tables of slots\<close>

text \<open>The index of the first free slot, or the length of the table when none is free: the
  value the \<^verbatim>\<open>for\<close> loops leave in their index variable.\<close>

fun first_free :: "('a \<Rightarrow> bool) \<Rightarrow> 'a list \<Rightarrow> nat" where
  "first_free free [] = 0"
| "first_free free (x # xs) = (if free x then 0 else Suc (first_free free xs))"

lemma first_free_le: "first_free free xs \<le> length xs"
  by (induction xs) auto

lemma first_free_full: "first_free free xs = length xs \<longleftrightarrow> (\<forall>x \<in> set xs. \<not> free x)"
  by (induction xs) auto

lemma first_free_free: "first_free free xs < length xs \<Longrightarrow> free (xs ! first_free free xs)"
  by (induction xs) auto

lemma first_free_least: "i < first_free free xs \<Longrightarrow> \<not> free (xs ! i)"
  by (induction xs arbitrary: i) (auto simp: nth_Cons split: if_splits nat.splits)

locale slot_table =
  fixes free :: "'a \<Rightarrow> bool"
    and taken :: "'a \<Rightarrow> bool"
    and insert_slot :: "'a \<Rightarrow> 'a list \<Rightarrow> 'a list option"
  assumes free_taken: "free x \<longleftrightarrow> \<not> taken x"
    and insert_full: "(\<forall>x \<in> set xs. taken x) \<Longrightarrow> insert_slot v xs = None"
    and insert_room: "first_free free xs < length xs \<Longrightarrow>
      insert_slot v xs = Some (xs[first_free free xs := v])"
begin

lemma insert_fails_iff: "insert_slot v xs = None \<longleftrightarrow> (\<forall>x \<in> set xs. taken x)"
proof (cases "first_free free xs = length xs")
  case True
  then have "\<forall>x \<in> set xs. taken x" by (simp add: first_free_full free_taken)
  then show ?thesis by (simp add: insert_full)
next
  case False
  then have "first_free free xs < length xs" using first_free_le [of free xs] by simp
  moreover from False have "\<not> (\<forall>x \<in> set xs. taken x)"
    by (simp add: first_free_full free_taken)
  ultimately show ?thesis by (simp add: insert_room)
qed

lemma insert_length: "insert_slot v xs = Some ys \<Longrightarrow> length ys = length xs"
  using insert_fails_iff [of v xs] insert_room [of xs v] first_free_le [of free xs]
    first_free_full [of free xs]
  by (cases "first_free free xs = length xs") (auto simp: free_taken)

lemma insert_shape:
  assumes "insert_slot v xs = Some ys"
  shows "\<exists>i < length xs. free (xs ! i) \<and> (\<forall>j < i. taken (xs ! j)) \<and> ys = xs[i := v]"
proof -
  have "first_free free xs \<noteq> length xs"
    using assms insert_fails_iff [of v xs] by (auto simp: first_free_full free_taken)
  then have lt: "first_free free xs < length xs"
    using first_free_le [of free xs] by simp
  have "ys = xs[first_free free xs := v]"
    using assms insert_room [OF lt, of v] by simp
  moreover have "\<forall>j < first_free free xs. taken (xs ! j)"
    using first_free_least [of _ free xs] by (auto simp: free_taken)
  ultimately show ?thesis
    using lt first_free_free [OF lt] by blast
qed

lemma insert_taken_grows:
  assumes "insert_slot v xs = Some ys" "taken v"
  shows "length (filter taken ys) = Suc (length (filter taken xs))"
proof -
  obtain i where i: "i < length xs" "free (xs ! i)" "ys = xs[i := v]"
    using insert_shape [OF assms(1)] by blast
  have split: "xs = take i xs @ xs ! i # drop (Suc i) xs"
    using i(1) by (rule id_take_nth_drop)
  have ys: "ys = take i xs @ v # drop (Suc i) xs"
    using i by (simp add: upd_conv_take_nth_drop)
  have "\<not> taken (xs ! i)" using i(2) by (simp add: free_taken)
  then have "filter taken xs = filter taken (take i xs) @ filter taken (drop (Suc i) xs)"
    by (subst split) simp
  with ys assms(2) show ?thesis by simp
qed

end

end
