(* ===== verification/CLib.thy ===== *)
theory CLib
  imports Prelude
begin

text \<open>
  What the sources use of the C library: decimal output (\<^verbatim>\<open>%u\<close>, \<^verbatim>\<open>%d\<close>) and
  \<^verbatim>\<open>strtoul\<close> with base 10. Strings are character lists without the terminating NUL, so
  \<^verbatim>\<open>*end != '\0'\<close> reads: the rest of the string is not empty. \<^verbatim>\<open>unsigned long\<close> has 32
  bits on the boards of the repository, so values above \<open>2 ^ 32 - 1\<close> report ERANGE.
\<close>

section \<open>Decimal output\<close>

definition digit_char :: "nat \<Rightarrow> char" where
  "digit_char d = char_of (48 + d)"

fun show_nat :: "nat \<Rightarrow> string" where
  "show_nat n = (if n < 10 then [digit_char n] else show_nat (n div 10) @ [digit_char (n mod 10)])"

declare show_nat.simps [simp del]

definition show_int :: "int \<Rightarrow> string" where
  "show_int i = (if i < 0 then CHR ''-'' # show_nat (nat (- i)) else show_nat (nat i))"

text \<open>What \<^verbatim>\<open>snprintk\<close> documents: the result is the length of the whole text, the buffer of \<open>n\<close>
  bytes takes its first \<open>n - 1\<close> characters and the terminating NUL.\<close>

definition snprintk_contract :: "(nat \<Rightarrow> string \<Rightarrow> int \<times> string) \<Rightarrow> bool" where
  "snprintk_contract f \<longleftrightarrow> (\<forall>n s. 0 < n \<longrightarrow> f n s = (int (length s), take (n - 1) s))"

section \<open>Decimal input\<close>

definition is_digit :: "char \<Rightarrow> bool" where
  "is_digit c \<longleftrightarrow> 48 \<le> (of_char c :: nat) \<and> (of_char c :: nat) \<le> 57"

definition digit_val :: "char \<Rightarrow> nat" where
  "digit_val c = of_char c - 48"

text \<open>\<^verbatim>\<open>isspace\<close> of the C locale.\<close>

definition is_space :: "char \<Rightarrow> bool" where
  "is_space c \<longleftrightarrow> of_char c = (32 :: nat) \<or> (9 \<le> (of_char c :: nat) \<and> (of_char c :: nat) \<le> 13)"

definition digits_val :: "string \<Rightarrow> nat" where
  "digits_val ds = fold (\<lambda>c v. v * 10 + digit_val c) ds 0"

record strtoul_result =
  st_value :: u32
  st_end :: string
  st_erange :: bool

abbreviation ULONG_MAX :: nat where "ULONG_MAX \<equiv> 4294967295"

text \<open>\<open>strtoul10 s\<close> skips white space, takes one optional sign and then the digits. Without
  a digit nothing is converted and the end is the start of \<open>s\<close>. A value out of range is
  ULONG_MAX with ERANGE; a minus sign negates in the result type.\<close>

definition strtoul10 :: "string \<Rightarrow> strtoul_result" where
  "strtoul10 s =
     (let t = dropWhile is_space s;
          neg = (t \<noteq> [] \<and> hd t = CHR ''-'');
          u = (if t \<noteq> [] \<and> (hd t = CHR ''-'' \<or> hd t = CHR ''+'') then tl t else t);
          ds = takeWhile is_digit u;
          rest = dropWhile is_digit u;
          v = digits_val ds
      in if ds = [] then \<lparr>st_value = 0, st_end = s, st_erange = False\<rparr>
         else if ULONG_MAX < v then \<lparr>st_value = of_nat ULONG_MAX, st_end = rest, st_erange = True\<rparr>
         else \<lparr>st_value = (if neg then - of_nat v else of_nat v), st_end = rest, st_erange = False\<rparr>)"

section \<open>Facts about decimal text\<close>

lemma digit_char_props:
  assumes "d < 10"
  shows "is_digit (digit_char d)" and "digit_val (digit_char d) = d"
    and "\<not> is_space (digit_char d)" and "digit_char d \<noteq> CHR ''-''" and "digit_char d \<noteq> CHR ''+''"
proof -
  have of: "of_char (digit_char d) = (48 + d :: nat)"
    using assms by (simp add: digit_char_def)
  then show "is_digit (digit_char d)" "digit_val (digit_char d) = d" "\<not> is_space (digit_char d)"
    using assms by (simp_all add: is_digit_def digit_val_def is_space_def)
  show "digit_char d \<noteq> CHR ''-''" "digit_char d \<noteq> CHR ''+''"
    using of by (auto simp: of_char_def)
qed

lemma show_nat_nonempty [simp]: "show_nat n \<noteq> []"
  by (subst show_nat.simps) simp

lemma show_nat_digits: "c \<in> set (show_nat n) \<Longrightarrow> \<exists>d < 10. c = digit_char d"
proof (induction n rule: show_nat.induct)
  case (1 n)
  show ?case
  proof (cases "n < 10")
    case True
    with "1.prems" show ?thesis by (subst (asm) show_nat.simps) auto
  next
    case False
    then have "c \<in> set (show_nat (n div 10)) \<or> c = digit_char (n mod 10)"
      using "1.prems" by (subst (asm) show_nat.simps) auto
    with "1.IH" [OF False] show ?thesis by (auto intro: exI [of _ "n mod 10"])
  qed
qed

lemma show_nat_is_digit: "\<forall>c \<in> set (show_nat n). is_digit c"
  using show_nat_digits digit_char_props(1) by blast

lemma digits_val_snoc: "digits_val (ds @ [c]) = digits_val ds * 10 + digit_val c"
  by (simp add: digits_val_def)

lemma digits_val_show_nat [simp]: "digits_val (show_nat n) = n"
proof (induction n rule: show_nat.induct)
  case (1 n)
  show ?case
  proof (cases "n < 10")
    case True
    then show ?thesis
      by (subst show_nat.simps) (simp add: digits_val_def digit_char_props(2))
  next
    case False
    then show ?thesis
      using "1.IH" [OF False]
      by (subst show_nat.simps) (simp add: digits_val_snoc digit_char_props(2))
  qed
qed

lemma show_nat_length_le: "n < 10 ^ k \<Longrightarrow> 0 < k \<Longrightarrow> length (show_nat n) \<le> k"
proof (induction n arbitrary: k rule: show_nat.induct)
  case (1 n)
  show ?case
  proof (cases "n < 10")
    case True
    with "1.prems" show ?thesis by (subst show_nat.simps) simp
  next
    case False
    obtain j where j: "k = Suc j" using "1.prems"(2) by (cases k) auto
    with "1.prems"(1) have "n div 10 < 10 ^ j" by auto
    moreover have "0 < j" using False "1.prems"(1) j by (cases j) auto
    ultimately have "length (show_nat (n div 10)) \<le> j" using "1.IH" [OF False] by blast
    with False j show ?thesis by (subst show_nat.simps) simp
  qed
qed

lemma show_nat_u8: "length (show_nat (unat (x :: u8))) \<le> 3"
  by (rule show_nat_length_le) (use unat_u8_le [of x] in simp_all)

lemma show_nat_u32: "length (show_nat (unat (x :: u32))) \<le> 10"
  by (rule show_nat_length_le) (use unat_u32_less [of x] in simp_all)

lemma show_int_u64: "length (show_int (sint (x :: u64))) \<le> 20"
proof -
  have "sint x \<in> {- (2 ^ 63)..<2 ^ 63}"
    using sint_greater_eq [of x] sint_less [of x] by simp
  then have "nat \<bar>sint x\<bar> < 10 ^ 19" by (auto simp: abs_if)
  then have "length (show_nat (nat \<bar>sint x\<bar>)) \<le> 19" by (rule show_nat_length_le) simp
  then show ?thesis by (simp add: show_int_def abs_if split: if_splits)
qed

text \<open>Reading back what \<^verbatim>\<open>%u\<close> prints.\<close>

lemma strtoul10_show_nat:
  assumes "n \<le> ULONG_MAX"
  shows "strtoul10 (show_nat n) = \<lparr>st_value = of_nat n, st_end = [], st_erange = False\<rparr>"
proof -
  obtain d cs where c: "show_nat n = digit_char d # cs" "d < 10"
    using show_nat_digits [of "hd (show_nat n)" n] by (cases "show_nat n") auto
  have digits: "takeWhile is_digit (show_nat n) = show_nat n" "dropWhile is_digit (show_nat n) = []"
    using show_nat_is_digit [of n] takeWhile_eq_all_conv [of is_digit] by simp_all
  have space: "dropWhile is_space (show_nat n) = show_nat n"
    using c digit_char_props(3) by simp
  have sign: "hd (show_nat n) \<noteq> CHR ''-''" "hd (show_nat n) \<noteq> CHR ''+''"
    using c digit_char_props(4,5) by simp_all
  show ?thesis
    using assms by (simp add: strtoul10_def Let_def digits space sign)
qed

end
