(* ===== verification/CanTypes.thy ===== *)
theory CanTypes
  imports CLib
begin

text \<open>
  The data of the CAN driver interface that both CAN applications use: frames, controller
  states and error counters. A frame's flag bits are kept as a set of named flags, so the
  model does not depend on the bit positions the driver header assigns. A controller state
  outside the named ones is \<open>CAN_STATE_OTHER\<close>, the \<^verbatim>\<open>default\<close> of the switch statements.
\<close>

datatype can_flag = CAN_FRAME_IDE | CAN_FRAME_RTR

record can_frame =
  can_id :: u32
  can_dlc :: u8
  can_flags :: "can_flag set"
  can_data :: "u8 list"

datatype can_state =
    CAN_STATE_ERROR_ACTIVE
  | CAN_STATE_ERROR_WARNING
  | CAN_STATE_ERROR_PASSIVE
  | CAN_STATE_BUS_OFF
  | CAN_STATE_STOPPED
  | CAN_STATE_OTHER int

record can_bus_err_cnt =
  tx_err_cnt :: u8
  rx_err_cnt :: u8

text \<open>A semaphore is a kernel object: a type \<open>'s\<close> with the calls below. What the kernel
  documents about them is \<open>k_sem_contract\<close>: a count that \<^verbatim>\<open>k_sem_take\<close> without waiting
  lowers or refuses with a non-zero result, \<^verbatim>\<open>k_sem_give\<close> raises up to the limit and
  \<^verbatim>\<open>k_sem_reset\<close> clears.\<close>

record 's sem_api =
  k_sem_take :: "'s \<Rightarrow> int \<times> 's"
  k_sem_give :: "'s \<Rightarrow> 's"
  k_sem_reset :: "'s \<Rightarrow> 's"

definition k_sem_contract :: "('s, 'x) sem_api_scheme \<Rightarrow> ('s \<Rightarrow> nat) \<Rightarrow> nat \<Rightarrow> bool" where
  "k_sem_contract api count limit \<longleftrightarrow>
     (\<forall>s. 0 < count s \<longrightarrow> fst (k_sem_take api s) = 0 \<and> count (snd (k_sem_take api s)) = count s - 1) \<and>
     (\<forall>s. count s = 0 \<longrightarrow> fst (k_sem_take api s) \<noteq> 0 \<and> count (snd (k_sem_take api s)) = 0) \<and>
     (\<forall>s. count (k_sem_give api s) = min (Suc (count s)) limit) \<and>
     (\<forall>s. count (k_sem_reset api s) = 0)"

lemma k_sem_contractD:
  assumes "k_sem_contract api count limit"
  shows "0 < count s \<Longrightarrow> fst (k_sem_take api s) = 0"
    and "0 < count s \<Longrightarrow> count (snd (k_sem_take api s)) = count s - 1"
    and "count s = 0 \<Longrightarrow> fst (k_sem_take api s) \<noteq> 0"
    and "count s = 0 \<Longrightarrow> count (snd (k_sem_take api s)) = 0"
    and "count (k_sem_give api s) = min (Suc (count s)) limit"
    and "count (k_sem_reset api s) = 0"
  using assms by (simp_all add: k_sem_contract_def)

lemma k_sem_take_cases:
  assumes "k_sem_contract api count limit"
  shows "fst (k_sem_take api s) = 0 \<longleftrightarrow> 0 < count s"
    and "count (snd (k_sem_take api s)) = count s - 1"
  using k_sem_contractD [OF assms] by (cases "count s"; auto)+

text \<open>A counting semaphore on \<open>nat\<close> meets the contract; the witnesses of the properties that
  assume it use this one.\<close>

definition nat_sem :: "nat \<Rightarrow> nat sem_api" where
  "nat_sem limit = \<lparr>k_sem_take = (\<lambda>n. if 0 < n then (0, n - 1) else (- EBUSY, 0)),
     k_sem_give = (\<lambda>n. min (Suc n) limit), k_sem_reset = (\<lambda>n. 0)\<rparr>"

lemma nat_sem_contract: "k_sem_contract (nat_sem limit) (\<lambda>n. n) limit"
  by (simp add: k_sem_contract_def nat_sem_def)

end
