(* ===== verification/CanGen.thy ===== *)
theory CanGen
  imports CanTypes
begin

text \<open>
  The CAN traffic generator, \<^verbatim>\<open>app/demos/frdm_can_traffic_generator/src/main.c\<close>.

  The file-scope variables are the record \<open>gen\<close>. The CAN driver, the kernel clock and
  sleep, the LED and the semaphore are not part of the sources: they are the parameters of
  the record \<open>can_api\<close>, functions on a world of type \<open>'w\<close> and a semaphore of type \<open>'s\<close>.
  A driver call that returns an error code is a function to the code and the next world.

  \<^verbatim>\<open>tx_callback\<close> runs in interrupt context. \<open>tx_done\<close> yields the results of the
  transmissions that completed since it was last asked, and \<open>tx_irqs\<close> runs the callback on
  each of them; the model takes interrupts inside every driver call and every sleep
  (\<open>driver_call\<close>, \<open>sleep_ms\<close>), which is every place where one operation of the code ends and
  the next one starts. What the code prints is the list \<open>console\<close>, newest first, one
  constructor for each print statement with the values it prints.
\<close>

section \<open>State and parameters\<close>

abbreviation DEFAULT_PERIOD_MS :: u32 where "DEFAULT_PERIOD_MS \<equiv> 1000"
abbreviation MIN_PERIOD_MS :: u32 where "MIN_PERIOD_MS \<equiv> 20"
abbreviation MAX_PERIOD_MS :: u32 where "MAX_PERIOD_MS \<equiv> 5000"
abbreviation CAN_BITRATE :: u32 where "CAN_BITRATE \<equiv> 500000"
abbreviation HEARTBEAT_ID :: u32 where "HEARTBEAT_ID \<equiv> 0x156"
abbreviation STATUS_ID :: u32 where "STATUS_ID \<equiv> 0x321"
abbreviation SENSOR_EXT_ID :: u32 where "SENSOR_EXT_ID \<equiv> 0x18FF1560"
abbreviation TX_QUEUE_DEPTH :: nat where "TX_QUEUE_DEPTH \<equiv> 3"
abbreviation RECOVERY_FAILURE_LIMIT :: u32 where "RECOVERY_FAILURE_LIMIT \<equiv> 4"
abbreviation AUTO_RECOVERY_BACKOFF_MS :: int where "AUTO_RECOVERY_BACKOFF_MS \<equiv> 5000"

datatype gen_msg =
    Get_state_failed int
  | Status_device string
  | Status_bitrate u32
  | Status_generator bool u32
  | Status_counters u32 u32 u32 u32 u32
  | Status_recoveries u32 u32
  | Status_state string u8 u8
  | Period_range u32 u32
  | Running_at u32
  | Stopped
  | Rate_usage
  | Period_set u32
  | Count_range
  | Burst_failed u32 int
  | Burst_complete u32
  | Restart_failed int
  | Restarted
  | Tx_stalled u32 int
  | Auto_restart_failed int
  | Auto_restart_complete
  | Not_ready string
  | Bitrate_failed u32 int
  | Start_failed int
  | Led_failed int
  | Ready string u32
  | Frames_banner u32 u32 u32 u32
  | Shell_banner

record ('s, 'w) can_api = "'s sem_api" +
  can_send :: "can_frame \<Rightarrow> 'w \<Rightarrow> int \<times> 'w"
  can_stop :: "'w \<Rightarrow> int \<times> 'w"
  can_start :: "'w \<Rightarrow> int \<times> 'w"
  can_set_bitrate :: "u32 \<Rightarrow> 'w \<Rightarrow> int \<times> 'w"
  can_get_state :: "'w \<Rightarrow> int \<times> can_state \<times> can_bus_err_cnt"
  can_name :: string
  can_is_ready :: bool
  tx_done :: "'w \<Rightarrow> int list \<times> 'w"
  led_port :: bool
  led_is_ready :: bool
  gpio_configure :: "'w \<Rightarrow> int \<times> 'w"
  gpio_toggle :: "'w \<Rightarrow> 'w"
  uptime_get :: "'w \<Rightarrow> int"
  uptime_get_32 :: "'w \<Rightarrow> u32"
  k_sleep_ms :: "nat \<Rightarrow> 'w \<Rightarrow> 'w"
  put_le16 :: "u16 \<Rightarrow> u8 list"
  put_le32 :: "u32 \<Rightarrow> u8 list"

record ('s, 'w) gen =
  generator_enabled :: bool
  period_ms :: u32
  tx_sequence :: u32
  tx_enqueued :: u32
  tx_ok :: u32
  tx_err :: u32
  tx_busy :: u32
  tx_fail_streak :: u32
  tx_recoveries :: u32
  next_auto_recovery_ms :: int
  tx_queue_sem :: 's
  world :: 'w
  console :: "gen_msg list"

definition gen_init :: "'s \<Rightarrow> 'w \<Rightarrow> ('s, 'w) gen" where
  "gen_init s w = \<lparr>generator_enabled = True, period_ms = DEFAULT_PERIOD_MS, tx_sequence = 0,
     tx_enqueued = 0, tx_ok = 0, tx_err = 0, tx_busy = 0, tx_fail_streak = 0, tx_recoveries = 0,
     next_auto_recovery_ms = 0, tx_queue_sem = s, world = w, console = []\<rparr>"

definition print :: "gen_msg \<Rightarrow> ('s, 'w) gen \<Rightarrow> ('s, 'w) gen" where
  "print m g = g\<lparr>console := m # console g\<rparr>"

section \<open>Names and parsing\<close>

definition can_state_name :: "can_state \<Rightarrow> string" where
  "can_state_name state = (case state of
     CAN_STATE_ERROR_ACTIVE \<Rightarrow> ''error-active''
   | CAN_STATE_ERROR_WARNING \<Rightarrow> ''error-warning''
   | CAN_STATE_ERROR_PASSIVE \<Rightarrow> ''error-passive''
   | CAN_STATE_BUS_OFF \<Rightarrow> ''bus-off''
   | CAN_STATE_STOPPED \<Rightarrow> ''stopped''
   | CAN_STATE_OTHER _ \<Rightarrow> ''unknown'')"

definition parse_period_ms :: "string \<Rightarrow> int + u32" where
  "parse_period_ms text =
     (let r = strtoul10 text
      in if st_erange r \<or> st_end r \<noteq> [] \<or> st_value r < MIN_PERIOD_MS \<or> MAX_PERIOD_MS < st_value r
         then Inl (- EINVAL)
         else Inr (st_value r))"

section \<open>Interrupts\<close>

definition tx_callback :: "('s, 'w) can_api \<Rightarrow> int \<Rightarrow> ('s, 'w) gen \<Rightarrow> ('s, 'w) gen" where
  "tx_callback api error g =
     (let g' = (if error = 0
                then g\<lparr>tx_ok := tx_ok g + 1, tx_fail_streak := 0,
                       world := (if led_port api then gpio_toggle api (world g) else world g)\<rparr>
                else g\<lparr>tx_err := tx_err g + 1, tx_fail_streak := tx_fail_streak g + 1\<rparr>)
      in g'\<lparr>tx_queue_sem := k_sem_give api (tx_queue_sem g')\<rparr>)"

definition tx_irqs :: "('s, 'w) can_api \<Rightarrow> ('s, 'w) gen \<Rightarrow> ('s, 'w) gen" where
  "tx_irqs api g = (let (errs, w) = tx_done api (world g)
                    in fold (tx_callback api) errs (g\<lparr>world := w\<rparr>))"

definition driver_call ::
  "('s, 'w) can_api \<Rightarrow> ('w \<Rightarrow> int \<times> 'w) \<Rightarrow> ('s, 'w) gen \<Rightarrow> int \<times> ('s, 'w) gen" where
  "driver_call api call g = (let (ret, w) = call (world g) in (ret, tx_irqs api (g\<lparr>world := w\<rparr>)))"

definition sleep_ms :: "('s, 'w) can_api \<Rightarrow> nat \<Rightarrow> ('s, 'w) gen \<Rightarrow> ('s, 'w) gen" where
  "sleep_ms api ms g = tx_irqs api (g\<lparr>world := k_sleep_ms api ms (world g)\<rparr>)"

section \<open>Sending\<close>

definition send_frame ::
  "('s, 'w) can_api \<Rightarrow> can_frame \<Rightarrow> ('s, 'w) gen \<Rightarrow> int \<times> ('s, 'w) gen" where
  "send_frame api frame g =
     (let (ret, s) = k_sem_take api (tx_queue_sem g);
          g = g\<lparr>tx_queue_sem := s\<rparr>
      in if ret \<noteq> 0
         then (ret, g\<lparr>tx_busy := tx_busy g + 1, tx_fail_streak := tx_fail_streak g + 1\<rparr>)
         else let (ret, g) = driver_call api (can_send api frame) g
              in if ret \<noteq> 0
                 then (ret, g\<lparr>tx_err := tx_err g + 1, tx_fail_streak := tx_fail_streak g + 1,
                             tx_queue_sem := k_sem_give api (tx_queue_sem g)\<rparr>)
                 else (0, g\<lparr>tx_enqueued := tx_enqueued g + 1\<rparr>))"

text \<open>The three frames of a cycle. Bytes the code does not set are zero (the rest of an
  initialised struct).\<close>

definition heartbeat_frame :: "u32 \<Rightarrow> can_frame" where
  "heartbeat_frame seq = \<lparr>can_id = HEARTBEAT_ID, can_dlc = 2, can_flags = {},
     can_data = [ucast (and seq 0xff), if and seq 1 \<noteq> 0 then 0xa5 else 0x5a, 0, 0, 0, 0, 0, 0]\<rparr>"

definition status_frame :: "('s, 'w) can_api \<Rightarrow> u32 \<Rightarrow> u32 \<Rightarrow> can_frame" where
  "status_frame api seq uptime_ms = \<lparr>can_id = STATUS_ID, can_dlc = 8, can_flags = {},
     can_data = [0xf0, 0x0d] @ put_le16 api (ucast seq) @ put_le32 api uptime_ms\<rparr>"

definition sensor_frame :: "('s, 'w) can_api \<Rightarrow> u32 \<Rightarrow> can_frame" where
  "sensor_frame api seq = \<lparr>can_id = SENSOR_EXT_ID, can_dlc = 8, can_flags = {CAN_FRAME_IDE},
     can_data = put_le16 api (ucast seq) @
       put_le16 api (ucast (2200 + (seq mod 80) * 5)) @
       put_le16 api (ucast (3300 + seq mod 25)) @
       [ucast (and seq 0xff), 0xc3]\<rparr>"

definition send_demo_frames :: "('s, 'w) can_api \<Rightarrow> ('s, 'w) gen \<Rightarrow> int \<times> ('s, 'w) gen" where
  "send_demo_frames api g =
     (let seq = tx_sequence g;
          g = g\<lparr>tx_sequence := tx_sequence g + 1\<rparr>;
          uptime_ms = uptime_get_32 api (world g);
          (ret, g) = send_frame api (heartbeat_frame seq) g
      in if ret \<noteq> 0 then (ret, g)
         else let (ret, g) = send_frame api (status_frame api seq uptime_ms) g
              in if ret \<noteq> 0 then (ret, g)
                 else send_frame api (sensor_frame api seq) g)"

section \<open>Restart and recovery\<close>

definition reset_tx_semaphore :: "('s, 'w) can_api \<Rightarrow> ('s, 'w) gen \<Rightarrow> ('s, 'w) gen" where
  "reset_tx_semaphore api g =
     g\<lparr>tx_queue_sem := (k_sem_give api ^^ TX_QUEUE_DEPTH) (k_sem_reset api (tx_queue_sem g))\<rparr>"

definition restart_can_controller :: "('s, 'w) can_api \<Rightarrow> ('s, 'w) gen \<Rightarrow> int \<times> ('s, 'w) gen" where
  "restart_can_controller api g =
     (let (ret, g) = driver_call api (can_stop api) g
      in if ret \<noteq> 0 \<and> ret \<noteq> - EALREADY then (ret, g)
         else let g = reset_tx_semaphore api g;
                  (ret, g) = driver_call api (can_start api) g
              in if ret \<noteq> 0 then (ret, g)
                 else (0, g\<lparr>tx_fail_streak := 0, tx_recoveries := tx_recoveries g + 1\<rparr>))"

definition maybe_auto_recover :: "('s, 'w) can_api \<Rightarrow> int \<Rightarrow> ('s, 'w) gen \<Rightarrow> ('s, 'w) gen" where
  "maybe_auto_recover api send_ret g =
     (let now = uptime_get api (world g)
      in if tx_fail_streak g < RECOVERY_FAILURE_LIMIT \<or> now < next_auto_recovery_ms g then g
         else let g = print (Tx_stalled (tx_fail_streak g) send_ret) g;
                  (ret, g) = restart_can_controller api g;
                  g = print (if ret \<noteq> 0 then Auto_restart_failed ret else Auto_restart_complete) g
              in g\<lparr>next_auto_recovery_ms := uptime_get api (world g) + AUTO_RECOVERY_BACKOFF_MS\<rparr>)"

section \<open>Shell commands\<close>

text \<open>A command gets its argument vector as a list of strings, the command's name first, so
  \<^verbatim>\<open>argc\<close> is the length of the list.\<close>

definition print_status :: "('s, 'w) can_api \<Rightarrow> ('s, 'w) gen \<Rightarrow> ('s, 'w) gen" where
  "print_status api g =
     (let (ret, state, err_cnt) = can_get_state api (world g)
      in if ret \<noteq> 0 then print (Get_state_failed ret) g
         else print (Status_state (can_state_name state) (rx_err_cnt err_cnt) (tx_err_cnt err_cnt))
              (print (Status_recoveries (tx_recoveries g) (tx_fail_streak g))
              (print (Status_counters (tx_enqueued g) (tx_ok g) (tx_err g) (tx_busy g) (tx_sequence g))
              (print (Status_generator (generator_enabled g) (period_ms g))
              (print (Status_bitrate CAN_BITRATE)
              (print (Status_device (can_name api)) g))))))"

definition cmd_can_gen_start :: "string list \<Rightarrow> ('s, 'w) gen \<Rightarrow> int \<times> ('s, 'w) gen" where
  "cmd_can_gen_start argv g =
     (let finish = (\<lambda>g. let g = g\<lparr>generator_enabled := True\<rparr> in (0, print (Running_at (period_ms g)) g))
      in if 1 < length argv
         then (case parse_period_ms (argv ! 1) of
                 Inl ret \<Rightarrow> (ret, print (Period_range MIN_PERIOD_MS MAX_PERIOD_MS) g)
               | Inr value \<Rightarrow> finish (g\<lparr>period_ms := value\<rparr>))
         else finish g)"

definition cmd_can_gen_stop :: "string list \<Rightarrow> ('s, 'w) gen \<Rightarrow> int \<times> ('s, 'w) gen" where
  "cmd_can_gen_stop argv g = (0, print Stopped (g\<lparr>generator_enabled := False\<rparr>))"

definition cmd_can_gen_rate :: "string list \<Rightarrow> ('s, 'w) gen \<Rightarrow> int \<times> ('s, 'w) gen" where
  "cmd_can_gen_rate argv g =
     (if length argv \<noteq> 2 then (- EINVAL, print Rate_usage g)
      else case parse_period_ms (argv ! 1) of
             Inl ret \<Rightarrow> (ret, print (Period_range MIN_PERIOD_MS MAX_PERIOD_MS) g)
           | Inr value \<Rightarrow> (0, print (Period_set value) (g\<lparr>period_ms := value\<rparr>)))"

definition parse_burst_count :: "string \<Rightarrow> u32 option" where
  "parse_burst_count text =
     (let r = strtoul10 text
      in if st_erange r \<or> st_end r \<noteq> [] \<or> st_value r = 0 \<or> 1000 < st_value r then None
         else Some (st_value r))"

text \<open>The burst loop: \<open>n\<close> frame sets are left to send and \<open>i\<close> is the loop counter.\<close>

fun burst_loop :: "('s, 'w) can_api \<Rightarrow> nat \<Rightarrow> u32 \<Rightarrow> ('s, 'w) gen \<Rightarrow> int \<times> ('s, 'w) gen" where
  "burst_loop api 0 i g = (0, g)"
| "burst_loop api (Suc n) i g =
     (let (ret, g) = send_demo_frames api g
      in if ret \<noteq> 0 then (ret, print (Burst_failed i ret) g)
         else burst_loop api n (i + 1) (sleep_ms api 10 g))"

definition cmd_can_gen_burst ::
  "('s, 'w) can_api \<Rightarrow> string list \<Rightarrow> ('s, 'w) gen \<Rightarrow> int \<times> ('s, 'w) gen" where
  "cmd_can_gen_burst api argv g =
     (let count = (if 1 < length argv then parse_burst_count (argv ! 1) else Some 10)
      in case count of
           None \<Rightarrow> (- EINVAL, print Count_range g)
         | Some count \<Rightarrow>
             (let (ret, g) = burst_loop api (unat count) 0 g
              in (ret, print (Burst_complete count) g)))"

definition cmd_can_gen_restart ::
  "('s, 'w) can_api \<Rightarrow> string list \<Rightarrow> ('s, 'w) gen \<Rightarrow> int \<times> ('s, 'w) gen" where
  "cmd_can_gen_restart api argv g =
     (let was_enabled = generator_enabled g;
          (ret, g) = restart_can_controller api (g\<lparr>generator_enabled := False\<rparr>)
      in if ret \<noteq> 0
         then (ret, (print (Restart_failed ret) g)\<lparr>generator_enabled := was_enabled\<rparr>)
         else (0, print Restarted (g\<lparr>generator_enabled := was_enabled\<rparr>)))"

definition cmd_can_gen_status ::
  "('s, 'w) can_api \<Rightarrow> string list \<Rightarrow> ('s, 'w) gen \<Rightarrow> int \<times> ('s, 'w) gen" where
  "cmd_can_gen_status api argv g = (0, print_status api g)"

section \<open>Main\<close>

text \<open>\<open>main_setup\<close> is \<^verbatim>\<open>main\<close> up to its loop; \<open>False\<close> stands for its early returns. \<open>main_iteration\<close> is one pass of the endless loop.\<close>

definition main_setup :: "('s, 'w) can_api \<Rightarrow> ('s, 'w) gen \<Rightarrow> bool \<times> ('s, 'w) gen" where
  "main_setup api g =
     (if \<not> can_is_ready api then (False, print (Not_ready (can_name api)) g)
      else let (ret, g) = driver_call api (can_set_bitrate api CAN_BITRATE) g
           in if ret \<noteq> 0 then (False, print (Bitrate_failed CAN_BITRATE ret) g)
              else let (ret, g) = driver_call api (can_start api) g
                   in if ret \<noteq> 0 then (False, print (Start_failed ret) g)
                      else let g = (if led_port api \<and> led_is_ready api
                                    then let (ret, g) = driver_call api (gpio_configure api) g
                                         in if ret \<noteq> 0 then print (Led_failed ret) g else g
                                    else g)
                           in (True, print Shell_banner
                                (print (Frames_banner HEARTBEAT_ID STATUS_ID SENSOR_EXT_ID (period_ms g))
                                (print (Ready (can_name api) CAN_BITRATE) g))))"

definition main_iteration :: "('s, 'w) can_api \<Rightarrow> ('s, 'w) gen \<Rightarrow> ('s, 'w) gen" where
  "main_iteration api g =
     (if generator_enabled g
      then let (ret, g) = send_demo_frames api g;
               g = (if ret \<noteq> 0 then maybe_auto_recover api ret g else g)
           in sleep_ms api (unat (period_ms g)) g
      else sleep_ms api 100 g)"

text \<open>The whole application: the main loop and the shell thread take turns in any order.\<close>

datatype gen_event =
    Main_iteration
  | Cmd_start "string list"
  | Cmd_stop "string list"
  | Cmd_rate "string list"
  | Cmd_burst "string list"
  | Cmd_restart "string list"
  | Cmd_status "string list"

fun gen_step :: "('s, 'w) can_api \<Rightarrow> gen_event \<Rightarrow> ('s, 'w) gen \<Rightarrow> ('s, 'w) gen" where
  "gen_step api Main_iteration g = main_iteration api g"
| "gen_step api (Cmd_start argv) g = snd (cmd_can_gen_start argv g)"
| "gen_step api (Cmd_stop argv) g = snd (cmd_can_gen_stop argv g)"
| "gen_step api (Cmd_rate argv) g = snd (cmd_can_gen_rate argv g)"
| "gen_step api (Cmd_burst argv) g = snd (cmd_can_gen_burst api argv g)"
| "gen_step api (Cmd_restart argv) g = snd (cmd_can_gen_restart api argv g)"
| "gen_step api (Cmd_status argv) g = snd (cmd_can_gen_status api argv g)"

section \<open>Basic facts\<close>

lemmas gen_ops [op_defs] =
  send_frame_def send_demo_frames_def reset_tx_semaphore_def restart_can_controller_def
  maybe_auto_recover_def print_status_def cmd_can_gen_start_def cmd_can_gen_stop_def
  cmd_can_gen_rate_def cmd_can_gen_burst_def cmd_can_gen_restart_def cmd_can_gen_status_def
  main_iteration_def main_setup_def

lemma print_frame [frame_simps, simp]:
  "generator_enabled (print m g) = generator_enabled g" "period_ms (print m g) = period_ms g"
  "tx_sequence (print m g) = tx_sequence g" "tx_queue_sem (print m g) = tx_queue_sem g"
  "world (print m g) = world g" "next_auto_recovery_ms (print m g) = next_auto_recovery_ms g"
  "tx_fail_streak (print m g) = tx_fail_streak g" "tx_recoveries (print m g) = tx_recoveries g"
  "tx_enqueued (print m g) = tx_enqueued g" "tx_ok (print m g) = tx_ok g"
  "tx_err (print m g) = tx_err g" "tx_busy (print m g) = tx_busy g"
  by (simp_all add: print_def)

text \<open>A field that no interrupt writes: \<open>irq_frame f\<close> says that the callback leaves it alone
  and that it does not depend on the world. Every such field survives driver calls.\<close>

definition irq_frame :: "(('s, 'w) gen \<Rightarrow> 'a) \<Rightarrow> bool" where
  "irq_frame f \<longleftrightarrow> (\<forall>api e g. f (tx_callback api e g) = f g) \<and> (\<forall>w g. f (g\<lparr>world := w\<rparr>) = f g)"

lemma irq_frame_fields [frame_simps, simp]:
  "irq_frame generator_enabled" "irq_frame period_ms" "irq_frame tx_sequence"
  "irq_frame next_auto_recovery_ms" "irq_frame tx_recoveries" "irq_frame tx_enqueued"
  "irq_frame tx_busy" "irq_frame console"
  by (simp_all add: irq_frame_def tx_callback_def Let_def)

lemma irq_frame_irqs:
  assumes "irq_frame f"
  shows "f (tx_irqs api g) = f g"
proof -
  have step: "f (tx_callback api e h) = f h" for e h
    using assms by (simp add: irq_frame_def)
  have "f (fold (tx_callback api) errs h) = f h" for errs h
    by (rule fold_measure) (rule step)
  then show ?thesis
    using assms by (simp add: tx_irqs_def irq_frame_def split: prod.split)
qed

lemma irq_frame_call:
  "irq_frame f \<Longrightarrow> f (snd (driver_call api call g)) = f g"
  "irq_frame f \<Longrightarrow> f (sleep_ms api ms g) = f g"
  by (simp_all add: driver_call_def sleep_ms_def irq_frame_irqs split: prod.split)
     (simp_all add: irq_frame_def)

lemmas irq_frames [frame_simps, simp] =
  irq_frame_irqs [OF irq_frame_fields(1)] irq_frame_irqs [OF irq_frame_fields(2)]
  irq_frame_irqs [OF irq_frame_fields(3)] irq_frame_irqs [OF irq_frame_fields(4)]
  irq_frame_call [OF irq_frame_fields(1)] irq_frame_call [OF irq_frame_fields(2)]
  irq_frame_call [OF irq_frame_fields(3)] irq_frame_call [OF irq_frame_fields(4)]
  irq_frame_call [OF irq_frame_fields(5)] irq_frame_call [OF irq_frame_fields(6)]
  irq_frame_call [OF irq_frame_fields(7)] irq_frame_call [OF irq_frame_fields(8)]

text \<open>What sending and restarting leave alone.\<close>

lemma send_frame_frame [frame_simps, simp]:
  "generator_enabled (snd (send_frame api f g)) = generator_enabled g"
  "period_ms (snd (send_frame api f g)) = period_ms g"
  "tx_sequence (snd (send_frame api f g)) = tx_sequence g"
  "next_auto_recovery_ms (snd (send_frame api f g)) = next_auto_recovery_ms g"
  "tx_recoveries (snd (send_frame api f g)) = tx_recoveries g"
  by (simp_all add: send_frame_def case_prod_beta Let_def)

lemma send_demo_frames_frame [frame_simps, simp]:
  "generator_enabled (snd (send_demo_frames api g)) = generator_enabled g"
  "period_ms (snd (send_demo_frames api g)) = period_ms g"
  "tx_sequence (snd (send_demo_frames api g)) = tx_sequence g + 1"
  "next_auto_recovery_ms (snd (send_demo_frames api g)) = next_auto_recovery_ms g"
  "tx_recoveries (snd (send_demo_frames api g)) = tx_recoveries g"
  by (simp_all add: send_demo_frames_def case_prod_beta Let_def)

lemma restart_frame [frame_simps, simp]:
  "generator_enabled (snd (restart_can_controller api g)) = generator_enabled g"
  "period_ms (snd (restart_can_controller api g)) = period_ms g"
  "tx_sequence (snd (restart_can_controller api g)) = tx_sequence g"
  "next_auto_recovery_ms (snd (restart_can_controller api g)) = next_auto_recovery_ms g"
  by (simp_all add: restart_can_controller_def reset_tx_semaphore_def case_prod_beta Let_def)

lemma maybe_auto_recover_frame [frame_simps, simp]:
  "generator_enabled (maybe_auto_recover api r g) = generator_enabled g"
  "period_ms (maybe_auto_recover api r g) = period_ms g"
  "tx_sequence (maybe_auto_recover api r g) = tx_sequence g"
  by (simp_all add: maybe_auto_recover_def case_prod_beta Let_def)

lemma burst_loop_frame [frame_simps, simp]:
  "generator_enabled (snd (burst_loop api n i g)) = generator_enabled g"
  "period_ms (snd (burst_loop api n i g)) = period_ms g"
  "next_auto_recovery_ms (snd (burst_loop api n i g)) = next_auto_recovery_ms g"
  by (induction n arbitrary: i g) (simp_all add: case_prod_beta Let_def)

end
