(* ===== verification/CanGenProps.thy ===== *)
theory CanGenProps
  imports CanGen
begin

text \<open>
  The properties of the CAN traffic generator. Two interfaces carry the proofs: \<open>can_bus\<close>
  states what the driver and the semaphore promise about frames in flight, \<open>can_clock\<close> that
  the kernel clock does not go back. Each is used to prove an invariant of every operation
  once, and lifted to runs of the whole application; both are interpreted on \<open>bus_api\<close>, the
  controller that the witnesses run against.
\<close>

section \<open>Transmit credits\<close>

text \<open>What the driver documents about the frames it has accepted and not yet reported, whose
  number is \<open>inflight\<close>: an accepted frame adds one, each completion the driver reports takes
  one away, and stopping the controller aborts every pending frame through its callback. The
  remaining calls do not touch pending frames.\<close>

definition can_driver_contract :: "('s, 'w) can_api \<Rightarrow> ('w \<Rightarrow> nat) \<Rightarrow> bool" where
  "can_driver_contract api inflight \<longleftrightarrow>
     (\<forall>f w. inflight (snd (can_send api f w)) =
        (if fst (can_send api f w) = 0 then Suc (inflight w) else inflight w)) \<and>
     (\<forall>w. inflight (snd (tx_done api w)) + length (fst (tx_done api w)) = inflight w) \<and>
     (\<forall>w. inflight (snd (can_stop api w)) = inflight w) \<and>
     (\<forall>w. fst (can_stop api w) = 0 \<or> fst (can_stop api w) = - EALREADY \<longrightarrow>
        length (fst (tx_done api (snd (can_stop api w)))) = inflight w) \<and>
     (\<forall>w. inflight (snd (can_start api w)) = inflight w) \<and>
     (\<forall>w. inflight (gpio_toggle api w) = inflight w) \<and>
     (\<forall>ms w. inflight (k_sleep_ms api ms w) = inflight w)"

text \<open>Every credit is either in the semaphore or held by a frame in flight.\<close>

definition credits :: "('s \<Rightarrow> nat) \<Rightarrow> ('w \<Rightarrow> nat) \<Rightarrow> ('s, 'w) gen \<Rightarrow> nat" where
  "credits count inflight g = count (tx_queue_sem g) + inflight (world g)"

locale can_bus =
  fixes api :: "('s, 'w) can_api" and count :: "'s \<Rightarrow> nat" and inflight :: "'w \<Rightarrow> nat"
  assumes sem: "k_sem_contract api count TX_QUEUE_DEPTH"
    and driver: "can_driver_contract api inflight"
begin

lemmas sem_facts = k_sem_contractD [OF sem]

lemma driver_facts:
  "inflight (snd (can_send api f w)) =
     (if fst (can_send api f w) = 0 then Suc (inflight w) else inflight w)"
  "inflight (snd (tx_done api w)) + length (fst (tx_done api w)) = inflight w"
  "inflight (snd (can_stop api w)) = inflight w"
  "fst (can_stop api w) = 0 \<or> fst (can_stop api w) = - EALREADY \<Longrightarrow>
     length (fst (tx_done api (snd (can_stop api w)))) = inflight w"
  "inflight (snd (can_start api w)) = inflight w"
  "inflight (gpio_toggle api w) = inflight w"
  "inflight (k_sleep_ms api ms w) = inflight w"
  using driver unfolding can_driver_contract_def by blast+

lemma callback_count:
  "count (tx_queue_sem (tx_callback api e g)) = min (Suc (count (tx_queue_sem g))) TX_QUEUE_DEPTH"
  "inflight (world (tx_callback api e g)) = inflight (world g)"
  by (simp_all add: tx_callback_def Let_def sem_facts driver_facts)

lemma callbacks_count:
  "count (tx_queue_sem g) + length errs \<le> TX_QUEUE_DEPTH \<Longrightarrow>
   count (tx_queue_sem (fold (tx_callback api) errs g)) = count (tx_queue_sem g) + length errs \<and>
   inflight (world (fold (tx_callback api) errs g)) = inflight (world g)"
  by (induction errs arbitrary: g) (auto simp: callback_count)

lemma irqs_keep_credits:
  assumes "credits count inflight g \<le> TX_QUEUE_DEPTH"
  shows "credits count inflight (tx_irqs api g) = credits count inflight g"
    and "inflight (world (tx_irqs api g)) = inflight (world g) - length (fst (tx_done api (world g)))"
proof -
  let ?errs = "fst (tx_done api (world g))" and ?w = "snd (tx_done api (world g))"
  have w: "inflight ?w + length ?errs = inflight (world g)" by (rule driver_facts)
  then have "count (tx_queue_sem g) + length ?errs \<le> TX_QUEUE_DEPTH"
    using assms by (simp add: credits_def)
  from callbacks_count [of "g\<lparr>world := ?w\<rparr>", simplified, OF this] w assms
  show "credits count inflight (tx_irqs api g) = credits count inflight g"
    and "inflight (world (tx_irqs api g)) = inflight (world g) - length ?errs"
    by (simp_all add: tx_irqs_def case_prod_beta credits_def)
qed

lemma irqs_credits:
  assumes "credits count inflight g = TX_QUEUE_DEPTH"
  shows "credits count inflight (tx_irqs api g) = TX_QUEUE_DEPTH"
    and "inflight (world (tx_irqs api g)) = inflight (world g) - length (fst (tx_done api (world g)))"
  using irqs_keep_credits [of g] assms by simp_all

lemma send_frame_credits:
  assumes "credits count inflight g = TX_QUEUE_DEPTH"
  shows "credits count inflight (snd (send_frame api f g)) = TX_QUEUE_DEPTH"
proof (cases "0 < count (tx_queue_sem g)")
  case False
  then show ?thesis
    using assms sem_facts by (simp add: send_frame_def case_prod_beta Let_def credits_def)
next
  case True
  let ?s = "snd (k_sem_take api (tx_queue_sem g))"
  let ?call = "can_send api f (world g)"
  let ?g = "g\<lparr>tx_queue_sem := ?s, world := snd ?call\<rparr>"
  have take: "fst (k_sem_take api (tx_queue_sem g)) = 0" "count ?s = count (tx_queue_sem g) - 1"
    using True sem_facts by auto
  show ?thesis
  proof (cases "fst ?call = 0")
    case acc: True
    then have "credits count inflight ?g = TX_QUEUE_DEPTH"
      using assms True take by (simp add: credits_def driver_facts)
    from irqs_credits(1) [OF this] show ?thesis
      using acc take by (simp add: send_frame_def driver_call_def case_prod_beta Let_def credits_def)
  next
    case rej: False
    let ?errs = "fst (tx_done api (snd ?call))" and ?w = "snd (tx_done api (snd ?call))"
    have w: "inflight ?w + length ?errs = inflight (world g)"
      using rej driver_facts(2) [of "snd ?call"] by (simp add: driver_facts)
    then have "count ?s + length ?errs \<le> TX_QUEUE_DEPTH"
      using assms take True by (simp add: credits_def)
    from callbacks_count [of "?g\<lparr>world := ?w\<rparr>" ?errs, simplified, OF this] w
    show ?thesis
      using rej take assms True
      by (simp add: send_frame_def driver_call_def case_prod_beta Let_def credits_def tx_irqs_def
          sem_facts)
  qed
qed

lemma send_demo_frames_credits:
  assumes "credits count inflight g = TX_QUEUE_DEPTH"
  shows "credits count inflight (snd (send_demo_frames api g)) = TX_QUEUE_DEPTH"
proof -
  have "credits count inflight (g\<lparr>tx_sequence := tx_sequence g + 1\<rparr>) = TX_QUEUE_DEPTH"
    using assms by (simp add: credits_def)
  then show ?thesis
    by (simp add: send_demo_frames_def case_prod_beta Let_def send_frame_credits)
qed

lemma reset_count: "count (tx_queue_sem (reset_tx_semaphore api g)) = TX_QUEUE_DEPTH"
  by (simp add: reset_tx_semaphore_def sem_facts numeral_3_eq_3)

lemma restart_credits:
  assumes "credits count inflight g = TX_QUEUE_DEPTH"
  shows "credits count inflight (snd (restart_can_controller api g)) = TX_QUEUE_DEPTH"
proof -
  let ?stop = "can_stop api (world g)"
  have g1: "credits count inflight (g\<lparr>world := snd ?stop\<rparr>) = TX_QUEUE_DEPTH"
    using assms by (simp add: credits_def driver_facts)
  let ?g1 = "tx_irqs api (g\<lparr>world := snd ?stop\<rparr>)"
  show ?thesis
  proof (cases "fst ?stop = 0 \<or> fst ?stop = - EALREADY")
    case False
    then show ?thesis
      using irqs_credits(1) [OF g1]
      by (simp add: restart_can_controller_def driver_call_def case_prod_beta Let_def)
  next
    case True
    have "inflight (world ?g1) = 0"
      using irqs_credits(2) [OF g1] driver_facts(3) driver_facts(4) [OF True] by simp
    then have "credits count inflight (reset_tx_semaphore api ?g1) = TX_QUEUE_DEPTH"
      using reset_count [of ?g1] by (simp add: credits_def reset_tx_semaphore_def)
    then have "credits count inflight ((reset_tx_semaphore api ?g1)\<lparr>world :=
        snd (can_start api (world (reset_tx_semaphore api ?g1)))\<rparr>) = TX_QUEUE_DEPTH"
      by (simp add: credits_def driver_facts)
    from irqs_credits(1) [OF this] True show ?thesis
      by (auto simp: restart_can_controller_def driver_call_def case_prod_beta Let_def credits_def)
  qed
qed

lemma sleep_credits:
  "credits count inflight g = TX_QUEUE_DEPTH \<Longrightarrow>
   credits count inflight (sleep_ms api ms g) = TX_QUEUE_DEPTH"
  unfolding sleep_ms_def by (rule irqs_credits(1)) (simp add: credits_def driver_facts)

lemma neutral_credits [simp]:
  "credits count inflight (print m g) = credits count inflight g"
  "credits count inflight (g\<lparr>generator_enabled := b\<rparr>) = credits count inflight g"
  "credits count inflight (g\<lparr>period_ms := p\<rparr>) = credits count inflight g"
  "credits count inflight (g\<lparr>next_auto_recovery_ms := t\<rparr>) = credits count inflight g"
  by (simp_all add: credits_def)

lemma burst_credits:
  "credits count inflight g = TX_QUEUE_DEPTH \<Longrightarrow>
   credits count inflight (snd (burst_loop api n i g)) = TX_QUEUE_DEPTH"
proof (induction n arbitrary: i g)
  case (Suc n)
  then show ?case
    using send_demo_frames_credits [of g] sleep_credits
    by (simp add: case_prod_beta Let_def)
qed simp

lemma step_credits:
  assumes "credits count inflight g = TX_QUEUE_DEPTH"
  shows "credits count inflight (gen_step api e g) = TX_QUEUE_DEPTH"
  using assms
  by (cases e)
     (simp_all add: main_iteration_def maybe_auto_recover_def cmd_can_gen_start_def
        cmd_can_gen_stop_def cmd_can_gen_rate_def cmd_can_gen_burst_def cmd_can_gen_restart_def
        cmd_can_gen_status_def print_status_def case_prod_beta Let_def sleep_credits
        send_demo_frames_credits restart_credits burst_credits split: sum.split option.split)

sublocale machine "gen_step api" "\<lambda>g. credits count inflight g = TX_QUEUE_DEPTH"
  by unfold_locales (rule step_credits)

lemma run_credits:
  "credits count inflight g = TX_QUEUE_DEPTH \<Longrightarrow>
   credits count inflight (run (gen_step api) es g) = TX_QUEUE_DEPTH"
  by (rule run_inv)

end


text \<open>A bus for which the contracts hold: a controller that keeps accepted frames in
  mailboxes, reports them as sent while some node acknowledges (\<open>acking\<close>), and aborts them
  when it is stopped. It instantiates the parameters in the witnesses.\<close>

record bus =
  mailboxes :: nat
  running :: bool
  acking :: bool
  clock :: int
  toggles :: nat

definition bus_api :: "(nat, bus) can_api" where
  "bus_api = \<lparr>
     k_sem_take = k_sem_take (nat_sem TX_QUEUE_DEPTH),
     k_sem_give = k_sem_give (nat_sem TX_QUEUE_DEPTH),
     k_sem_reset = k_sem_reset (nat_sem TX_QUEUE_DEPTH),
     can_send = (\<lambda>f w. if running w then (0, w\<lparr>mailboxes := Suc (mailboxes w)\<rparr>) else (- 115, w)),
     can_stop = (\<lambda>w. if running w then (0, w\<lparr>running := False\<rparr>) else (- EALREADY, w)),
     can_start = (\<lambda>w. if running w then (- EALREADY, w) else (0, w\<lparr>running := True\<rparr>)),
     can_set_bitrate = (\<lambda>b w. (0, w)),
     can_get_state = (\<lambda>w. (0, if running w then CAN_STATE_ERROR_ACTIVE else CAN_STATE_STOPPED,
                           \<lparr>tx_err_cnt = 0, rx_err_cnt = 0\<rparr>)),
     can_name = ''flexcan'',
     can_is_ready = True,
     tx_done = (\<lambda>w. if \<not> running w then (replicate (mailboxes w) (- 115), w\<lparr>mailboxes := 0\<rparr>)
                     else if acking w then (replicate (mailboxes w) 0, w\<lparr>mailboxes := 0\<rparr>)
                     else ([], w)),
     led_port = True,
     led_is_ready = True,
     gpio_configure = (\<lambda>w. (0, w)),
     gpio_toggle = (\<lambda>w. w\<lparr>toggles := Suc (toggles w)\<rparr>),
     uptime_get = clock,
     uptime_get_32 = (\<lambda>w. of_int (clock w)),
     k_sleep_ms = (\<lambda>ms w. w\<lparr>clock := clock w + int ms\<rparr>),
     put_le16 = (\<lambda>v. [ucast v, ucast (drop_bit 8 v)]),
     put_le32 = (\<lambda>v. [ucast v, ucast (drop_bit 8 v), ucast (drop_bit 16 v), ucast (drop_bit 24 v)])\<rparr>"

lemma bus_api_simps [simp]:
  "can_send bus_api f w = (if running w then (0, w\<lparr>mailboxes := Suc (mailboxes w)\<rparr>) else (- 115, w))"
  "can_stop bus_api w = (if running w then (0, w\<lparr>running := False\<rparr>) else (- EALREADY, w))"
  "can_start bus_api w = (if running w then (- EALREADY, w) else (0, w\<lparr>running := True\<rparr>))"
  "tx_done bus_api w = (if \<not> running w then (replicate (mailboxes w) (- 115), w\<lparr>mailboxes := 0\<rparr>)
     else if acking w then (replicate (mailboxes w) 0, w\<lparr>mailboxes := 0\<rparr>) else ([], w))"
  "gpio_toggle bus_api w = w\<lparr>toggles := Suc (toggles w)\<rparr>"
  "uptime_get bus_api w = clock w"
  "k_sleep_ms bus_api ms w = w\<lparr>clock := clock w + int ms\<rparr>"
  by (simp_all add: bus_api_def)

definition idle_bus :: "bool \<Rightarrow> bus" where
  "idle_bus ack = \<lparr>mailboxes = 0, running = True, acking = ack, clock = 0, toggles = 0\<rparr>"

interpretation bus: can_bus bus_api "\<lambda>n. n" mailboxes
proof
  show "k_sem_contract bus_api (\<lambda>n. n) TX_QUEUE_DEPTH"
    by (simp add: k_sem_contract_def bus_api_def nat_sem_def)
  show "can_driver_contract bus_api mailboxes"
    by (simp add: can_driver_contract_def bus_api_def)
qed

section \<open>Properties of the generator\<close>

text \<open>C1: transmit credits are conserved. Whatever the main loop and the shell commands do
  and whenever completions arrive, the semaphore count and the frames in flight together
  stay at TX_QUEUE_DEPTH (each command and each round of the loop as a whole; see \<open>CanGenThreads\<close>
  for preemption inside them); so the driver never holds more than three frames of the generator
  and no credit is lost, across failed sends and controller restarts too.\<close>

theorem tx_credits_conserved:
  assumes "can_bus api count inflight"
    and "count s = TX_QUEUE_DEPTH" and "inflight w = 0"
  shows "count (tx_queue_sem (run (gen_step api) es (gen_init s w)))
       + inflight (world (run (gen_step api) es (gen_init s w))) = TX_QUEUE_DEPTH"
  using can_bus.run_credits [OF assms(1), of "gen_init s w" es] assms(2,3)
  by (simp add: credits_def gen_init_def)

theorem tx_credits_conserved_witness:
  "tx_queue_sem (run (gen_step bus_api) [Main_iteration, Cmd_restart [''restart'']] (gen_init 3 (idle_bus False)))
   + mailboxes (world (run (gen_step bus_api) [Main_iteration, Cmd_restart [''restart'']]
       (gen_init 3 (idle_bus False)))) = TX_QUEUE_DEPTH"
  by (rule tx_credits_conserved [OF bus.can_bus_axioms]) (simp_all add: idle_bus_def)

definition period_ok :: "('s, 'w) gen \<Rightarrow> bool" where
  "period_ok g \<longleftrightarrow> MIN_PERIOD_MS \<le> period_ms g \<and> period_ms g \<le> MAX_PERIOD_MS"

lemma parse_period_range:
  "parse_period_ms t = Inr v \<Longrightarrow> MIN_PERIOD_MS \<le> v \<and> v \<le> MAX_PERIOD_MS"
  by (auto simp: parse_period_ms_def Let_def not_less split: if_splits)

lemma gen_step_period_ok: "period_ok g \<Longrightarrow> period_ok (gen_step api e g)"
  by (cases e)
     (auto simp: period_ok_def main_iteration_def cmd_can_gen_start_def cmd_can_gen_stop_def
        cmd_can_gen_rate_def cmd_can_gen_burst_def cmd_can_gen_restart_def cmd_can_gen_status_def
        print_status_def case_prod_beta Let_def dest: parse_period_range
        split: sum.split option.split)

interpretation period: machine "gen_step api" period_ok for api
  by unfold_locales (rule gen_step_period_ok)

text \<open>No event takes the period out of its range: after any run of the application the
  main loop sleeps between MIN_PERIOD_MS and MAX_PERIOD_MS, whatever text the shell
  commands were given.\<close>

theorem period_always_in_range:
  "MIN_PERIOD_MS \<le> period_ms (run (gen_step api) es (gen_init s w))
   \<and> period_ms (run (gen_step api) es (gen_init s w)) \<le> MAX_PERIOD_MS"
  using period.run_inv [of "gen_init s w" api es] by (simp add: period_ok_def gen_init_def)

text \<open>The decimal form of a number up to ULONG_MAX is accepted as a period exactly when
  the number is from 20 to 5000, and then the period is that number; every other one is
  refused with EINVAL.\<close>

theorem parse_period_decimal:
  assumes "n \<le> ULONG_MAX"
  shows "parse_period_ms (show_nat n) =
     (if 20 \<le> n \<and> n \<le> 5000 then Inr (of_nat n) else Inl (- EINVAL))"
proof -
  have "unat (of_nat n :: u32) = n"
    using assms by (simp add: unat_of_nat take_bit_nat_eq_self)
  then have "(of_nat n :: u32) < 20 \<longleftrightarrow> n < 20" "(5000 :: u32) < of_nat n \<longleftrightarrow> 5000 < n"
    by (simp_all add: word_less_nat_alt)
  then show ?thesis
    using assms by (auto simp: parse_period_ms_def strtoul10_show_nat Let_def)
qed

theorem parse_period_decimal_witness:
  "parse_period_ms (show_nat 100) = Inr 100 \<and> parse_period_ms (show_nat 19) = Inl (- EINVAL)"
  using parse_period_decimal [of 100] parse_period_decimal [of 19] by simp

lemma strtoul10_minus:
  assumes "n \<le> ULONG_MAX"
  shows "strtoul10 (CHR ''-'' # show_nat n) = \<lparr>st_value = - of_nat n, st_end = [], st_erange = False\<rparr>"
proof -
  have digits: "takeWhile is_digit (show_nat n) = show_nat n" "dropWhile is_digit (show_nat n) = []"
    using show_nat_is_digit [of n] takeWhile_eq_all_conv [of is_digit] by simp_all
  have "\<not> is_space (CHR ''-'')" by (simp add: is_space_def)
  then show ?thesis
    using assms by (simp add: strtoul10_def Let_def digits)
qed

text \<open>A negative argument is accepted when it wraps into the range: \<^verbatim>\<open>strtoul\<close> negates
  in \<^verbatim>\<open>unsigned long\<close>, so the text of \<open>- (2 ^ 32 - p)\<close> passes the check as the period \<open>p\<close>,
  for every period \<open>p\<close> in the range.\<close>

theorem parse_period_negative_wraps:
  assumes "20 \<le> p" "p \<le> 5000"
  shows "parse_period_ms (show_int (int p - 4294967296)) = Inr (of_nat p)"
proof -
  let ?n = "4294967296 - p"
  have shown: "show_int (int p - 4294967296) = CHR ''-'' # show_nat ?n"
    using assms by (simp add: show_int_def nat_diff_distrib)
  have "of_nat ?n = (of_nat 4294967296 - of_nat p :: u32)"
    using assms by (subst of_nat_diff) simp_all
  then have val: "- of_nat ?n = (of_nat p :: u32)" by simp
  have "unat (of_nat p :: u32) = p"
    using assms by (simp add: unat_of_nat take_bit_nat_eq_self)
  then have "\<not> (of_nat p :: u32) < 20" "\<not> (5000 :: u32) < of_nat p"
    using assms by (simp_all add: word_less_nat_alt)
  moreover have "?n \<le> ULONG_MAX" using assms by simp
  ultimately show ?thesis
    by (simp add: parse_period_ms_def shown strtoul10_minus val Let_def)
qed

theorem parse_period_negative_wraps_witness:
  "parse_period_ms (show_int (-4294966296)) = Inr 1000"
  using parse_period_negative_wraps [of 1000] by simp


section \<open>Time and recovery\<close>

text \<open>The kernel clock never goes back, whatever call is made.\<close>

definition clock_contract :: "('s, 'w) can_api \<Rightarrow> bool" where
  "clock_contract api \<longleftrightarrow>
     (\<forall>f w. uptime_get api w \<le> uptime_get api (snd (can_send api f w))) \<and>
     (\<forall>w. uptime_get api w \<le> uptime_get api (snd (tx_done api w))) \<and>
     (\<forall>w. uptime_get api w \<le> uptime_get api (snd (can_stop api w))) \<and>
     (\<forall>w. uptime_get api w \<le> uptime_get api (snd (can_start api w))) \<and>
     (\<forall>w. uptime_get api w \<le> uptime_get api (gpio_toggle api w)) \<and>
     (\<forall>ms w. uptime_get api w \<le> uptime_get api (k_sleep_ms api ms w))"

definition stalls :: "('s, 'w) gen \<Rightarrow> nat" where
  "stalls g = length (filter (\<lambda>m. case m of Tx_stalled _ _ \<Rightarrow> True | _ \<Rightarrow> False) (console g))"

lemma send_frame_console [frame_simps, simp]: "console (snd (send_frame api f g)) = console g"
  by (simp add: send_frame_def case_prod_beta Let_def)

lemma send_demo_frames_console [frame_simps, simp]: "console (snd (send_demo_frames api g)) = console g"
  by (simp add: send_demo_frames_def case_prod_beta Let_def)

lemma send_keeps_stalls [simp]:
  "stalls (snd (send_demo_frames api g)) = stalls g" "stalls (sleep_ms api ms g) = stalls g"
  by (simp_all add: stalls_def)

lemma stalls_print: "(\<And>a b. m \<noteq> Tx_stalled a b) \<Longrightarrow> stalls (print m g) = stalls g"
  by (cases m) (auto simp: stalls_def print_def)

locale can_clock =
  fixes api :: "('s, 'w) can_api"
  assumes clock: "clock_contract api"
begin

abbreviation now :: "('s, 'w) gen \<Rightarrow> int" where "now g \<equiv> uptime_get api (world g)"

lemma clock_facts:
  "uptime_get api w \<le> uptime_get api (snd (can_send api f w))"
  "uptime_get api w \<le> uptime_get api (snd (tx_done api w))"
  "uptime_get api w \<le> uptime_get api (snd (can_stop api w))"
  "uptime_get api w \<le> uptime_get api (snd (can_start api w))"
  "uptime_get api w \<le> uptime_get api (gpio_toggle api w)"
  "uptime_get api w \<le> uptime_get api (k_sleep_ms api ms w)"
  using clock unfolding clock_contract_def by blast+

lemma callbacks_later: "now g \<le> now (fold (tx_callback api) errs g)"
proof (induction errs arbitrary: g)
  case (Cons e errs)
  have "now g \<le> now (tx_callback api e g)"
    by (simp add: tx_callback_def Let_def clock_facts)
  also have "\<dots> \<le> now (fold (tx_callback api) (e # errs) g)" using Cons.IH by simp
  finally show ?case .
qed simp

lemma irqs_later: "now g \<le> now (tx_irqs api g)"
  using callbacks_later [of "g\<lparr>world := snd (tx_done api (world g))\<rparr>"] clock_facts(2) [of "world g"]
  by (simp add: tx_irqs_def case_prod_beta order_trans)

lemma sleep_later: "now g \<le> now (sleep_ms api ms g)"
  using irqs_later [of "g\<lparr>world := k_sleep_ms api ms (world g)\<rparr>"] clock_facts(6) [of "world g" ms]
  by (simp add: sleep_ms_def)

lemma call_later:
  assumes "\<And>w. uptime_get api w \<le> uptime_get api (snd (call w))"
  shows "now g \<le> now (snd (driver_call api call g))"
  using irqs_later [of "g\<lparr>world := snd (call (world g))\<rparr>"] assms [of "world g"]
  by (simp add: driver_call_def case_prod_beta)

lemma send_frame_later: "now g \<le> now (snd (send_frame api f g))"
  using call_later [of "can_send api f" "g\<lparr>tx_queue_sem := snd (k_sem_take api (tx_queue_sem g))\<rparr>"]
    clock_facts(1)
  by (simp add: send_frame_def case_prod_beta Let_def)

lemma send_demo_frames_later: "now g \<le> now (snd (send_demo_frames api g))"
proof -
  let ?a = "snd (send_frame api (heartbeat_frame (tx_sequence g)) (g\<lparr>tx_sequence := tx_sequence g + 1\<rparr>))"
  have a: "now g \<le> now ?a"
    using send_frame_later [of "g\<lparr>tx_sequence := tx_sequence g + 1\<rparr>"] by simp
  have b: "now g \<le> now (snd (send_frame api f ?a))" for f
    using a send_frame_later by (rule order_trans)
  have "now g \<le> now (snd (send_frame api f' (snd (send_frame api f ?a))))" for f f'
    using b send_frame_later by (rule order_trans)
  with a b show ?thesis by (simp add: send_demo_frames_def case_prod_beta Let_def)
qed

lemma restart_later: "now g \<le> now (snd (restart_can_controller api g))"
proof -
  let ?a = "snd (driver_call api (can_stop api) g)"
  have a: "now g \<le> now ?a" by (rule call_later) (rule clock_facts)
  have "now (reset_tx_semaphore api ?a) = now ?a" by (simp add: reset_tx_semaphore_def)
  then have "now ?a \<le> now (snd (driver_call api (can_start api) (reset_tx_semaphore api ?a)))"
    using call_later [of "can_start api" "reset_tx_semaphore api ?a"] clock_facts(4) by simp
  with a show ?thesis by (simp add: restart_can_controller_def case_prod_beta Let_def)
qed

lemma main_iteration_backoff:
  assumes "now (main_iteration api g) < next_auto_recovery_ms g"
  shows "stalls (main_iteration api g) = stalls g"
    and "next_auto_recovery_ms (main_iteration api g) = next_auto_recovery_ms g"
proof -
  let ?g = "snd (send_demo_frames api g)" and ?ret = "fst (send_demo_frames api g)"
  have "now ?g < next_auto_recovery_ms g \<or> \<not> generator_enabled g \<or> ?ret = 0
      \<or> tx_fail_streak ?g < RECOVERY_FAILURE_LIMIT"
  proof (rule ccontr)
    assume c: "\<not> ?thesis"
    let ?h = "maybe_auto_recover api ?ret ?g"
    from c have "next_auto_recovery_ms g \<le> now ?g" "generator_enabled g" "?ret \<noteq> 0" by auto
    moreover have "now ?g \<le> now ?h"
      using restart_later [of "print m ?g" for m]
      by (simp add: maybe_auto_recover_def case_prod_beta Let_def)
    ultimately show False
      using assms sleep_later [of ?h "unat (period_ms g)"]
      by (auto simp: main_iteration_def case_prod_beta Let_def)
  qed
  then show "stalls (main_iteration api g) = stalls g"
    and "next_auto_recovery_ms (main_iteration api g) = next_auto_recovery_ms g"
    by (auto simp: main_iteration_def maybe_auto_recover_def case_prod_beta Let_def)
qed

lemma burst_later: "now g \<le> now (snd (burst_loop api n i g))"
proof (induction n arbitrary: i g)
  case (Suc n)
  let ?g = "sleep_ms api 10 (snd (send_demo_frames api g))"
  have a: "now g \<le> now (snd (send_demo_frames api g))" by (rule send_demo_frames_later)
  also have "\<dots> \<le> now ?g" by (rule sleep_later)
  also have "\<dots> \<le> now (snd (burst_loop api n (i + 1) ?g))" by (rule Suc.IH)
  finally show ?case using a by (simp add: case_prod_beta Let_def)
qed simp

lemma burst_stalls: "stalls (snd (burst_loop api n i g)) = stalls g"
proof (induction n arbitrary: i g)
  case (Suc n)
  then show ?case by (simp add: stalls_print case_prod_beta Let_def)
qed simp

lemma main_iteration_later: "now g \<le> now (main_iteration api g)"
proof -
  let ?g = "snd (send_demo_frames api g)"
  have a: "now g \<le> now ?g" by (rule send_demo_frames_later)
  have "now ?g \<le> now (maybe_auto_recover api r ?g)" for r
    using restart_later [of "print m ?g" for m]
    by (simp add: maybe_auto_recover_def case_prod_beta Let_def)
  with a have "now g \<le> now (maybe_auto_recover api r ?g)" for r by (rule order_trans)
  with a show ?thesis
    using sleep_later order_trans by (fastforce simp: main_iteration_def case_prod_beta Let_def)
qed

text \<open>The commands of the shell neither look at the back-off time nor set it.\<close>

lemma command_keeps_backoff:
  assumes "e \<noteq> Main_iteration"
  shows "next_auto_recovery_ms (gen_step api e g) = next_auto_recovery_ms g"
    and "stalls (gen_step api e g) = stalls g"
    and "now g \<le> now (gen_step api e g)"
proof -
  have restart: "stalls (snd (restart_can_controller api g)) = stalls g" for g
    by (simp add: restart_can_controller_def reset_tx_semaphore_def stalls_def case_prod_beta Let_def)
  have fields: "stalls (h\<lparr>generator_enabled := b\<rparr>) = stalls h" "stalls (h\<lparr>period_ms := p\<rparr>) = stalls h"
    for h :: "('s, 'w) gen" and b p
    by (simp_all add: stalls_def)
  note facts = cmd_can_gen_start_def cmd_can_gen_stop_def cmd_can_gen_rate_def cmd_can_gen_burst_def
    cmd_can_gen_restart_def cmd_can_gen_status_def print_status_def case_prod_beta Let_def
  show "next_auto_recovery_ms (gen_step api e g) = next_auto_recovery_ms g"
    using assms by (cases e) (simp_all add: facts split: sum.split option.split)
  show "stalls (gen_step api e g) = stalls g"
    using assms
    by (cases e) (simp_all add: facts stalls_print restart fields burst_stalls split: sum.split option.split)
  show "now g \<le> now (gen_step api e g)"
    using assms restart_later [of "g\<lparr>generator_enabled := False\<rparr>"]
    by (cases e) (simp_all add: facts burst_later split: sum.split option.split)
qed

lemma step_later: "now g \<le> now (gen_step api e g)"
  using command_keeps_backoff(3) main_iteration_later by (cases "e = Main_iteration") auto

lemma run_later: "now g \<le> now (run (gen_step api) es g)"
proof (induction es arbitrary: g)
  case (Cons e es)
  show ?case using order_trans [OF step_later Cons.IH] by simp
qed simp

lemma step_backoff:
  assumes "now (gen_step api e g) < next_auto_recovery_ms g"
  shows "stalls (gen_step api e g) = stalls g"
    and "next_auto_recovery_ms (gen_step api e g) = next_auto_recovery_ms g"
  using assms main_iteration_backoff command_keeps_backoff by (cases "e = Main_iteration"; simp)+

lemma run_backoff:
  "now (run (gen_step api) es g) < next_auto_recovery_ms g \<Longrightarrow>
   stalls (run (gen_step api) es g) = stalls g"
proof (induction es arbitrary: g)
  case (Cons e es)
  let ?h = "gen_step api e g"
  have "now ?h < next_auto_recovery_ms g"
    using Cons.prems run_later [of ?h es] by simp
  from step_backoff [OF this] Cons show ?case by simp
qed simp

end

interpretation bus_clock: can_clock bus_api
  by unfold_locales (simp add: clock_contract_def bus_api_def)

text \<open>C33: automatic recovery backs off. Once \<^verbatim>\<open>maybe_auto_recover\<close> has restarted the
  controller (successfully or not), no run of the application prints another "CAN TX
  stalled" and restarts it again before AUTO_RECOVERY_BACKOFF_MS have passed since it
  finished.\<close>

theorem auto_recovery_backs_off:
  assumes "clock_contract api"
    and "RECOVERY_FAILURE_LIMIT \<le> tx_fail_streak g"
    and "next_auto_recovery_ms g \<le> uptime_get api (world g)"
    and "g' = maybe_auto_recover api r g"
    and "uptime_get api (world (run (gen_step api) es g')) < uptime_get api (world g') + 5000"
  shows "stalls g' = stalls g + 1 \<and> stalls (run (gen_step api) es g') = stalls g'"
proof -
  have clk: "can_clock api" using assms(1) by unfold_locales
  have next': "next_auto_recovery_ms g' = uptime_get api (world g') + 5000"
    using assms(2,3,4) by (simp add: maybe_auto_recover_def case_prod_beta Let_def not_less [symmetric])
  have "console (snd (restart_can_controller api h)) = console h" for h
    by (simp add: restart_can_controller_def reset_tx_semaphore_def case_prod_beta Let_def)
  then have "stalls g' = stalls g + 1"
    using assms(2,3,4)
    by (simp add: maybe_auto_recover_def case_prod_beta Let_def stalls_def print_def not_less [symmetric])
  with can_clock.run_backoff [OF clk] next' assms(5) show ?thesis by simp
qed

theorem auto_recovery_backs_off_witness:
  "let g = (gen_init 0 (idle_bus False))\<lparr>tx_fail_streak := 4\<rparr>;
       g' = maybe_auto_recover bus_api (- EBUSY) g
   in stalls g' = 1 \<and> stalls (run (gen_step bus_api) [Main_iteration, Main_iteration] g') = 1"
proof -
  let ?g = "(gen_init 0 (idle_bus False))\<lparr>tx_fail_streak := 4\<rparr>"
  let ?g' = "maybe_auto_recover bus_api (- EBUSY) ?g"
  have "clock_contract bus_api" by (rule bus_clock.clock)
  moreover have "next_auto_recovery_ms ?g \<le> uptime_get bus_api (world ?g)"
    by (simp add: gen_init_def bus_api_def idle_bus_def)
  moreover have "uptime_get bus_api (world (run (gen_step bus_api) [Main_iteration, Main_iteration] ?g'))
      < uptime_get bus_api (world ?g') + 5000"
    by code_simp
  ultimately show ?thesis
    using auto_recovery_backs_off [of bus_api ?g ?g' "- EBUSY" "[Main_iteration, Main_iteration]"]
    by (simp add: stalls_def gen_init_def)
qed


section \<open>Frames and bursts\<close>

text \<open>What the byte-order helpers document: least significant byte first.\<close>

definition byteorder_contract :: "('s, 'w) can_api \<Rightarrow> bool" where
  "byteorder_contract api \<longleftrightarrow>
     (\<forall>v. put_le16 api v = [ucast v, ucast (drop_bit 8 v)]) \<and>
     (\<forall>v. put_le32 api v = [ucast v, ucast (drop_bit 8 v), ucast (drop_bit 16 v), ucast (drop_bit 24 v)])"

text \<open>A receiver's reading of little-endian fields at offset \<open>i\<close>.\<close>

definition get_le16 :: "u8 list \<Rightarrow> nat \<Rightarrow> u16" where
  "get_le16 bs i = or (ucast (bs ! i)) (push_bit 8 (ucast (bs ! Suc i)))"

definition get_le32 :: "u8 list \<Rightarrow> nat \<Rightarrow> u32" where
  "get_le32 bs i = or (ucast (get_le16 bs i)) (push_bit 16 (ucast (get_le16 bs (i + 2))))"

lemma le16_join: "or (ucast (ucast v :: u8)) (push_bit 8 (ucast (ucast (drop_bit 8 v) :: u8))) = (v :: u16)"
  by (rule bit_word_eqI) (auto simp: bit_simps)

lemma le32_join:
  "or (ucast (or (ucast (ucast v :: u8)) (push_bit 8 (ucast (ucast (drop_bit 8 v) :: u8))) :: u16))
      (push_bit 16 (ucast (or (ucast (ucast (drop_bit 16 v) :: u8))
        (push_bit 8 (ucast (ucast (drop_bit 24 v) :: u8))) :: u16))) = (v :: u32)"
  by (rule bit_word_eqI, case_tac "n < 16") (auto simp: bit_simps)

lemma sensor_values:
  "unat (ucast (2200 + (seq mod 80) * 5 :: u32) :: u16) = 2200 + 5 * (unat seq mod 80)"
  "unat (ucast (3300 + seq mod 25 :: u32) :: u16) = 3300 + unat seq mod 25"
proof -
  have "unat seq mod 80 < 80" by simp
  then have "2200 + (unat seq mod 80) * 5 < 65536" by simp
  then show "unat (ucast (2200 + (seq mod 80) * 5 :: u32) :: u16) = 2200 + 5 * (unat seq mod 80)"
    by (simp add: unsigned_ucast_eq take_bit_eq_mod unat_word_ariths)
  have "unat seq mod 25 < 25" by simp
  then have "3300 + unat seq mod 25 < 65536" by simp
  then show "unat (ucast (3300 + seq mod 25 :: u32) :: u16) = 3300 + unat seq mod 25"
    by (simp add: unsigned_ucast_eq take_bit_eq_mod unat_word_ariths)
qed

text \<open>The frames carry what they are meant to carry. The status and the sensor frame have
  as many data bytes as their length code says; a receiver that reads the little-endian
  fields of the status frame gets the low half of the sequence number and the whole uptime
  back, and those of the sensor frame the sequence number and two values computed from it,
  without any loss in the conversion to 16 bits.\<close>

theorem frames_round_trip:
  assumes "byteorder_contract api"
  shows "length (can_data (status_frame api seq up)) = unat (can_dlc (status_frame api seq up)) \<and>
     get_le16 (can_data (status_frame api seq up)) 2 = ucast seq \<and>
     get_le32 (can_data (status_frame api seq up)) 4 = up \<and>
     length (can_data (sensor_frame api seq)) = unat (can_dlc (sensor_frame api seq)) \<and>
     get_le16 (can_data (sensor_frame api seq)) 0 = ucast seq \<and>
     unat (get_le16 (can_data (sensor_frame api seq)) 2) = 2200 + 5 * (unat seq mod 80) \<and>
     unat (get_le16 (can_data (sensor_frame api seq)) 4) = 3300 + unat seq mod 25"
proof -
  have p16: "put_le16 api v = [ucast v, ucast (drop_bit 8 v)]" for v
    using assms by (simp add: byteorder_contract_def)
  have p32: "put_le32 api v = [ucast v, ucast (drop_bit 8 v), ucast (drop_bit 16 v), ucast (drop_bit 24 v)]" for v
    using assms by (simp add: byteorder_contract_def)
  have status: "get_le16 (can_data (status_frame api seq up)) 2 = ucast seq"
    "get_le32 (can_data (status_frame api seq up)) 4 = up"
    using le16_join [of "ucast seq"] le32_join [of up]
    by (simp_all add: status_frame_def get_le16_def get_le32_def p16 p32 eval_nat_numeral)
  have sensor: "get_le16 (can_data (sensor_frame api seq)) 0 = ucast seq"
    "get_le16 (can_data (sensor_frame api seq)) 2 = ucast (2200 + (seq mod 80) * 5)"
    "get_le16 (can_data (sensor_frame api seq)) 4 = ucast (3300 + seq mod 25)"
    using le16_join by (simp_all add: sensor_frame_def get_le16_def p16 eval_nat_numeral)
  show ?thesis
    by (simp add: status sensor sensor_values) (simp add: status_frame_def sensor_frame_def p16 p32)
qed

theorem frames_round_trip_witness:
  "get_le16 (can_data (status_frame bus_api 70000 5)) 2 = 4464 \<and>
   get_le32 (can_data (status_frame bus_api 70000 123456)) 4 = 123456 \<and>
   unat (get_le16 (can_data (sensor_frame bus_api 79)) 2) = 2595"
proof -
  have "byteorder_contract bus_api" by (simp add: byteorder_contract_def bus_api_def)
  from frames_round_trip [OF this, of 70000 5] frames_round_trip [OF this, of 70000 123456]
    frames_round_trip [OF this, of 79 0]
  show ?thesis by simp
qed

text \<open>A burst accounts for every frame set. If it returns 0, exactly the requested number
  of sets went out; if it fails, it stopped at the first failing set \<open>k\<close> and says so, and
  the sequence number has advanced by one for each set tried, the failing one included.\<close>

theorem burst_accounts:
  assumes "burst_loop api n i g = (ret, g')"
  shows "if ret = 0 then tx_sequence g' = tx_sequence g + of_nat n
         else \<exists>k < n. tx_sequence g' = tx_sequence g + of_nat (Suc k) \<and>
                      hd (console g') = Burst_failed (i + of_nat k) ret"
  using assms
proof (induction n arbitrary: i g)
  case (Suc n)
  let ?r = "send_demo_frames api g"
  show ?case
  proof (cases "fst ?r = 0")
    case False
    with Suc.prems show ?thesis
      by (auto simp: case_prod_beta Let_def print_def intro!: exI [of _ 0])
  next
    case True
    let ?h = "sleep_ms api 10 (snd ?r)"
    from True Suc.prems have "burst_loop api n (i + 1) ?h = (ret, g')"
      by (simp add: case_prod_beta Let_def)
    from Suc.IH [OF this] show ?thesis
    proof (cases "ret = 0")
      case False
      with Suc.IH [OF \<open>burst_loop api n (i + 1) ?h = (ret, g')\<close>] obtain k where
        "k < n" "tx_sequence g' = tx_sequence ?h + of_nat (Suc k)"
        "hd (console g') = Burst_failed (i + 1 + of_nat k) ret" by auto
      with False show ?thesis
        by (auto intro!: exI [of _ "Suc k"] simp: add.assoc)
    qed (simp add: add.commute add.left_commute)
  qed
qed simp

theorem burst_accounts_witness:
  "tx_sequence (snd (burst_loop bus_api 2 0 (gen_init 3 (idle_bus True)))) = 2 \<and>
   hd (console (snd (burst_loop bus_api 2 0 (gen_init 3 (idle_bus False))))) = Burst_failed 1 (- EBUSY)"
proof -
  have 1: "burst_loop bus_api 2 0 (gen_init 3 (idle_bus True))
      = (0, snd (burst_loop bus_api 2 0 (gen_init 3 (idle_bus True))))"
    by code_simp
  have 2: "burst_loop bus_api 2 0 (gen_init 3 (idle_bus False))
      = (- EBUSY, snd (burst_loop bus_api 2 0 (gen_init 3 (idle_bus False))))"
    by code_simp
  have 3: "tx_sequence (snd (burst_loop bus_api 2 0 (gen_init 3 (idle_bus False)))) = 2" by code_simp
  obtain k where "k < (2::nat)" "(2::u32) = 0 + of_nat (Suc k)"
    "hd (console (snd (burst_loop bus_api 2 0 (gen_init 3 (idle_bus False))))) = Burst_failed (0 + of_nat k) (- EBUSY)"
    using burst_accounts [OF 2] 3 by (auto simp: gen_init_def)
  then have "hd (console (snd (burst_loop bus_api 2 0 (gen_init 3 (idle_bus False))))) = Burst_failed 1 (- EBUSY)"
    by (auto simp: less_2_cases_iff)
  with burst_accounts [OF 1] show ?thesis by (simp add: gen_init_def)
qed

section \<open>Restart and the unacknowledged bus\<close>

context can_bus
begin

lemma restart_full:
  assumes "credits count inflight g = TX_QUEUE_DEPTH"
    and "fst (can_stop api (world g)) = 0 \<or> fst (can_stop api (world g)) = - EALREADY"
  shows "inflight (world (snd (restart_can_controller api g))) = 0"
    and "count (tx_queue_sem (snd (restart_can_controller api g))) = TX_QUEUE_DEPTH"
proof -
  let ?stop = "can_stop api (world g)"
  let ?g1 = "tx_irqs api (g\<lparr>world := snd ?stop\<rparr>)"
  let ?g2 = "reset_tx_semaphore api ?g1"
  let ?g3 = "?g2\<lparr>world := snd (can_start api (world ?g2))\<rparr>"
  have g1: "credits count inflight (g\<lparr>world := snd ?stop\<rparr>) = TX_QUEUE_DEPTH"
    using assms(1) by (simp add: credits_def driver_facts)
  have "inflight (world ?g1) = 0"
    using irqs_credits(2) [OF g1] driver_facts(3) driver_facts(4) [OF assms(2)] by simp
  then have 3: "inflight (world ?g3) = 0" "credits count inflight ?g3 = TX_QUEUE_DEPTH"
    using reset_count [of ?g1] by (simp_all add: credits_def driver_facts reset_tx_semaphore_def)
  then have "inflight (world (tx_irqs api ?g3)) = 0"
    using irqs_credits(2) [OF 3(2)] by simp
  then show "inflight (world (snd (restart_can_controller api g))) = 0"
    using assms(2)
    by (auto simp: restart_can_controller_def driver_call_def case_prod_beta Let_def)
  with restart_credits [OF assms(1)]
  show "count (tx_queue_sem (snd (restart_can_controller api g))) = TX_QUEUE_DEPTH"
    by (simp add: credits_def)
qed

text \<open>A world in which nothing completes: no interrupts.\<close>

lemma no_flight_no_irqs:
  assumes "inflight (world g) = 0"
  shows "tx_irqs api g = g\<lparr>world := snd (tx_done api (world g))\<rparr>"
  using assms driver_facts(2) [of "world g"] by (simp add: tx_irqs_def case_prod_beta)

end

text \<open>The three outcomes of a controller restart. If stopping fails for another reason
  than the controller being stopped already, the error is returned and no recovery is
  counted; otherwise all credits are back, and the failure streak is cleared and one
  recovery counted exactly if starting succeeds. The shell command leaves the generator
  enabled exactly if it was before, in all of them.\<close>

theorem restart_outcomes:
  assumes "can_bus api count inflight"
    and "count (tx_queue_sem g) + inflight (world g) = TX_QUEUE_DEPTH"
    and "restart_can_controller api g = (ret, g')"
  shows "(if fst (can_stop api (world g)) \<notin> {0, - EALREADY}
          then ret = fst (can_stop api (world g)) \<and> tx_recoveries g' = tx_recoveries g
          else count (tx_queue_sem g') = TX_QUEUE_DEPTH \<and>
               (if ret = 0 then tx_fail_streak g' = 0 \<and> tx_recoveries g' = tx_recoveries g + 1
                else tx_recoveries g' = tx_recoveries g)) \<and>
         generator_enabled (snd (cmd_can_gen_restart api argv g)) = generator_enabled g"
proof -
  have g': "g' = snd (restart_can_controller api g)" "ret = fst (restart_can_controller api g)"
    using assms(3) by simp_all
  have frame: "tx_recoveries (reset_tx_semaphore api h) = tx_recoveries h" for h :: "('a, 'b) gen"
    by (simp add: reset_tx_semaphore_def)
  have "generator_enabled (snd (cmd_can_gen_restart api argv g)) = generator_enabled g"
    by (simp add: cmd_can_gen_restart_def case_prod_beta Let_def)
  moreover have "fst (can_stop api (world g)) \<notin> {0, - EALREADY} \<Longrightarrow>
      ret = fst (can_stop api (world g)) \<and> tx_recoveries g' = tx_recoveries g"
    unfolding g' by (simp add: restart_can_controller_def case_prod_beta Let_def)
       (simp add: driver_call_def case_prod_beta)
  moreover have "if ret = 0 then tx_fail_streak g' = 0 \<and> tx_recoveries g' = tx_recoveries g + 1
      else tx_recoveries g' = tx_recoveries g"
    unfolding g' by (simp add: restart_can_controller_def case_prod_beta Let_def frame)
  ultimately show ?thesis
    using can_bus.restart_full(2) [OF assms(1), of g] assms(2) g'
    by (auto simp: credits_def)
qed

theorem restart_outcomes_witness:
  "tx_recoveries (snd (restart_can_controller bus_api (gen_init 3 (idle_bus False)))) = 1 \<and>
   tx_queue_sem (snd (restart_can_controller bus_api (gen_init 3 (idle_bus False)))) = 3"
proof -
  let ?g = "gen_init 3 (idle_bus False) :: (nat, bus) gen"
  have stop: "fst (can_stop bus_api (world ?g)) = 0"
    by (simp add: gen_init_def idle_bus_def)
  have sum: "tx_queue_sem ?g + mailboxes (world ?g) = TX_QUEUE_DEPTH"
    by (simp add: gen_init_def idle_bus_def)
  have "restart_can_controller bus_api ?g = (0, snd (restart_can_controller bus_api ?g))"
    by code_simp
  from restart_outcomes [OF bus.can_bus_axioms sum this, of "[]"] stop show ?thesis
    by (simp add: gen_init_def)
qed

section \<open>Recovery from a silent bus\<close>

text \<open>\<open>silent P\<close>: in the worlds that satisfy \<open>P\<close> no transmission completes (no node
  acknowledges), and sleeping does not change that. \<open>driver_restarts P Q\<close>, what the driver documents of its calls: in a world with
  \<open>P\<close> the controller can be stopped or is stopped already, then \<open>Q\<close> holds (it is stopped), also after interrupts
  and after the LED has been toggled, and a stopped controller can be started.\<close>

definition silent :: "('s, 'w) can_api \<Rightarrow> ('w \<Rightarrow> bool) \<Rightarrow> bool" where
  "silent api P \<longleftrightarrow>
     (\<forall>w. P w \<longrightarrow> tx_done api w = ([], w)) \<and>
     (\<forall>ms w. P w \<longrightarrow> P (k_sleep_ms api ms w))"

definition driver_restarts :: "('s, 'w) can_api \<Rightarrow> ('w \<Rightarrow> bool) \<Rightarrow> ('w \<Rightarrow> bool) \<Rightarrow> bool" where
  "driver_restarts api P Q \<longleftrightarrow>
     (\<forall>w. P w \<longrightarrow> fst (can_stop api w) \<in> {0, - EALREADY} \<and> Q (snd (can_stop api w))) \<and>
     (\<forall>w. Q w \<longrightarrow> Q (snd (tx_done api w)) \<and> Q (gpio_toggle api w) \<and> fst (can_start api w) = 0)"

text \<open>With such a driver the restart of the application succeeds: it goes on after EALREADY and calls nothing in
  between that could spoil the start.\<close>

lemma restart_succeeds:
  assumes "driver_restarts api P Q" "P (world g)"
  shows "fst (restart_can_controller api g) = 0"
proof -
  have cb: "Q (world (tx_callback api e h))" if "Q (world h)" for e h
    using assms(1) that by (simp add: driver_restarts_def tx_callback_def Let_def)
  have irqs: "Q (world (tx_irqs api h))" if "Q (world h)" for h
    unfolding tx_irqs_def case_prod_beta Let_def
    by (rule fold_invariant_list) (use assms(1) that cb in \<open>simp_all add: driver_restarts_def\<close>)
  let ?stop = "driver_call api (can_stop api) g"
  have stop: "fst ?stop = 0 \<or> fst ?stop = - EALREADY" "Q (world (snd ?stop))"
    using assms irqs by (auto simp: driver_restarts_def driver_call_def case_prod_beta Let_def)
  then have "Q (world (reset_tx_semaphore api (snd ?stop)))" by (simp add: reset_tx_semaphore_def)
  then have "fst (driver_call api (can_start api) (reset_tx_semaphore api (snd ?stop))) = 0"
    using assms(1) by (simp add: driver_restarts_def driver_call_def case_prod_beta Let_def)
  with stop(1) show ?thesis by (auto simp: restart_can_controller_def case_prod_beta Let_def)
qed

definition blocked :: "('w \<Rightarrow> bool) \<Rightarrow> ('s \<Rightarrow> nat) \<Rightarrow> int \<Rightarrow> u32 \<Rightarrow> u32 \<Rightarrow> ('s, 'w) gen \<Rightarrow> bool" where
  "blocked P count t k r g \<longleftrightarrow> generator_enabled g \<and> count (tx_queue_sem g) = 0 \<and> P (world g) \<and>
     next_auto_recovery_ms g = t \<and> tx_fail_streak g = k \<and> tx_recoveries g = r"

context can_bus
begin

lemma blocked_send:
  assumes "count (tx_queue_sem g) = 0"
  shows "fst (send_demo_frames api g) \<noteq> 0"
    and "snd (send_demo_frames api g) = g\<lparr>tx_sequence := tx_sequence g + 1,
           tx_queue_sem := snd (k_sem_take api (tx_queue_sem g)),
           tx_busy := tx_busy g + 1, tx_fail_streak := tx_fail_streak g + 1\<rparr>"
  using sem_facts(3) [OF assms]
  by (simp_all add: send_demo_frames_def send_frame_def case_prod_beta Let_def)

lemma blocked_cycle:
  assumes "silent api P" "blocked P count t k r g" "k + 1 < RECOVERY_FAILURE_LIMIT"
  shows "blocked P count t (k + 1) r (main_iteration api g)"
proof -
  have b: "generator_enabled g" "count (tx_queue_sem g) = 0" "P (world g)" "tx_fail_streak g = k"
    "next_auto_recovery_ms g = t" "tx_recoveries g = r"
    using assms(2) by (simp_all add: blocked_def)
  have "main_iteration api g = sleep_ms api (unat (period_ms g)) (snd (send_demo_frames api g))"
    using b blocked_send [OF b(2)] assms(3)
    by (simp add: main_iteration_def maybe_auto_recover_def case_prod_beta Let_def)
  moreover have "P (k_sleep_ms api ms (world g))" "tx_done api (k_sleep_ms api ms (world g))
      = ([], k_sleep_ms api ms (world g))" for ms
    using assms(1) b(3) by (simp_all add: silent_def)
  ultimately show ?thesis
    using b sem_facts(4) [OF b(2)]
    by (simp add: blocked_def sleep_ms_def tx_irqs_def blocked_send [OF b(2)])
qed

lemma blocked_recovers:
  assumes "silent api P" "blocked P count t 3 r g"
    and "driver_restarts api P Q"
    and "credits count inflight g = TX_QUEUE_DEPTH"
    and "t \<le> uptime_get api (world g)"
  shows "tx_recoveries (main_iteration api g) = r + 1"
    and "tx_fail_streak (main_iteration api g) = 0"
    and "count (tx_queue_sem (main_iteration api g)) = TX_QUEUE_DEPTH"
proof -
  have b: "generator_enabled g" "count (tx_queue_sem g) = 0" "P (world g)" "tx_fail_streak g = 3"
    "next_auto_recovery_ms g = t" "tx_recoveries g = r"
    using assms(2) by (simp_all add: blocked_def)
  let ?h = "print (Tx_stalled 4 (fst (send_demo_frames api g))) (snd (send_demo_frames api g))"
  let ?r = "snd (restart_can_controller api ?h)"
  let ?f = "(print Auto_restart_complete ?r)\<lparr>next_auto_recovery_ms := uptime_get api (world ?r) + 5000\<rparr>"
  have h: "world ?h = world g" "tx_recoveries ?h = r"
    using b by (simp_all add: blocked_send [OF b(2)])
  have ok: "fst (restart_can_controller api ?h) = 0"
    by (rule restart_succeeds [OF assms(3)]) (use b(3) h(1) in simp)
  have streak: "tx_fail_streak (snd (send_demo_frames api g)) = 4"
    using b by (simp add: blocked_send [OF b(2)])
  have main: "main_iteration api g = sleep_ms api (unat (period_ms ?f)) ?f"
    using b blocked_send(1) [OF b(2)] assms(5) ok streak h
    by (simp add: main_iteration_def maybe_auto_recover_def case_prod_beta Let_def)
  have cr: "credits count inflight ?h = TX_QUEUE_DEPTH"
    using send_demo_frames_credits [OF assms(4)] by simp
  have stop: "fst (can_stop api (world ?h)) = 0 \<or> fst (can_stop api (world ?h)) = - EALREADY"
    using ok by (auto simp: restart_can_controller_def driver_call_def case_prod_beta Let_def
        split: if_splits)
  have rec: "tx_recoveries ?r = r + 1" "tx_fail_streak ?r = 0"
    using ok h(2) by (auto simp: restart_can_controller_def reset_tx_semaphore_def case_prod_beta
        Let_def split: if_splits)
  have "inflight (world (?f\<lparr>world := k_sleep_ms api ms (world ?f)\<rparr>)) = 0" for ms
    using restart_full(1) [OF cr stop] by (simp add: driver_facts)
  from no_flight_no_irqs [OF this] rec restart_full(2) [OF cr stop]
  show "tx_recoveries (main_iteration api g) = r + 1"
    and "tx_fail_streak (main_iteration api g) = 0"
    and "count (tx_queue_sem (main_iteration api g)) = TX_QUEUE_DEPTH"
    by (simp_all add: main sleep_ms_def)
qed

end



end
