(* ===== verification/CanGenThreads.thy ===== *)
theory CanGenThreads
  imports CanGenProps
begin

text \<open>
  The CAN traffic generator under preemption: \<^verbatim>\<open>app/demos/frdm_can_traffic_generator/src/main.c\<close>.

  The main loop and the shell are two threads that both call \<^verbatim>\<open>send_demo_frames\<close> and
  \<^verbatim>\<open>restart_can_controller\<close>, on the same variables and without a lock. \<open>CanGen\<close> runs each call as a
  whole; here a call is a program counter, \<open>thread_step\<close> runs one piece of it (one kernel or driver
  call with the counters that belong to it, and the read and the write of \<^verbatim>\<open>tx_sequence++\<close>
  separately), and \<open>gen_sys_step\<close> interleaves the pieces of the two threads and the
  transmit interrupts. The field \<open>started\<close> is history: the thread and the sequence number of each
  frame set begun, oldest first.
\<close>

section \<open>Program counters\<close>

datatype gen_thread = Main_thread | Shell_thread

datatype gen_pc =
    Out
  | Read_seq
  | Write_seq u32
  | Read_uptime u32
  | Take_credit u32 u32 nat      \<comment> \<open>sequence number, time, and which of the three frames\<close>
  | Send_frame u32 u32 nat
  | Stop_can
  | Reset_sem
  | Give_sem nat                 \<comment> \<open>the loop variable of \<^verbatim>\<open>reset_tx_semaphore\<close>\<close>
  | Start_can
  | Returned int

record ('s, 'w) gen_sys =
  vars :: "('s, 'w) gen"
  pc :: "gen_thread \<Rightarrow> gen_pc"
  started :: "(gen_thread \<times> u32) list"

definition goto :: "gen_thread \<Rightarrow> gen_pc \<Rightarrow> ('s, 'w) gen_sys \<Rightarrow> ('s, 'w) gen_sys" where
  "goto t p s = s\<lparr>pc := (pc s)(t := p)\<rparr>"

definition demo_frame :: "('s, 'w) can_api \<Rightarrow> u32 \<Rightarrow> u32 \<Rightarrow> nat \<Rightarrow> can_frame" where
  "demo_frame api seq uptime_ms k =
     (if k = 0 then heartbeat_frame seq else if k = 1 then status_frame api seq uptime_ms else sensor_frame api seq)"

text \<open>The two halves of \<^verbatim>\<open>send_frame\<close>, split after \<^verbatim>\<open>k_sem_take\<close>.\<close>

definition take_credit :: "('s, 'w) can_api \<Rightarrow> ('s, 'w) gen \<Rightarrow> int \<times> ('s, 'w) gen" where
  "take_credit api g =
     (let (ret, s) = k_sem_take api (tx_queue_sem g); g = g\<lparr>tx_queue_sem := s\<rparr>
      in (ret, if ret \<noteq> 0 then g\<lparr>tx_busy := tx_busy g + 1, tx_fail_streak := tx_fail_streak g + 1\<rparr> else g))"

definition hand_over :: "('s, 'w) can_api \<Rightarrow> can_frame \<Rightarrow> ('s, 'w) gen \<Rightarrow> int \<times> ('s, 'w) gen" where
  "hand_over api frame g =
     (let (ret, g) = driver_call api (can_send api frame) g
      in (ret, if ret \<noteq> 0
         then g\<lparr>tx_err := tx_err g + 1, tx_fail_streak := tx_fail_streak g + 1,
                tx_queue_sem := k_sem_give api (tx_queue_sem g)\<rparr>
         else g\<lparr>tx_enqueued := tx_enqueued g + 1\<rparr>))"

fun thread_step :: "('s, 'w) can_api \<Rightarrow> gen_thread \<Rightarrow> gen_pc \<Rightarrow> ('s, 'w) gen_sys \<Rightarrow> ('s, 'w) gen_sys" where
  "thread_step api t Out s = s"
| "thread_step api t Read_seq s = goto t (Write_seq (tx_sequence (vars s))) s"
| "thread_step api t (Write_seq seq) s = goto t (Read_uptime seq)
     (s\<lparr>vars := (vars s)\<lparr>tx_sequence := seq + 1\<rparr>, started := started s @ [(t, seq)]\<rparr>)"
| "thread_step api t (Read_uptime seq) s = goto t (Take_credit seq (uptime_get_32 api (world (vars s))) 0) s"
| "thread_step api t (Take_credit seq up k) s =
     (let (ret, g) = take_credit api (vars s)
      in goto t (if ret \<noteq> 0 then Returned ret else Send_frame seq up k) (s\<lparr>vars := g\<rparr>))"
| "thread_step api t (Send_frame seq up k) s =
     (let (ret, g) = hand_over api (demo_frame api seq up k) (vars s)
      in goto t (if ret \<noteq> 0 then Returned ret else if k < 2 then Take_credit seq up (Suc k) else Returned 0)
           (s\<lparr>vars := g\<rparr>))"
| "thread_step api t Stop_can s =
     (let (ret, g) = driver_call api (can_stop api) (vars s)
      in goto t (if ret \<noteq> 0 \<and> ret \<noteq> - EALREADY then Returned ret else Reset_sem) (s\<lparr>vars := g\<rparr>))"
| "thread_step api t Reset_sem s =
     goto t (Give_sem 0) (s\<lparr>vars := (vars s)\<lparr>tx_queue_sem := k_sem_reset api (tx_queue_sem (vars s))\<rparr>\<rparr>)"
| "thread_step api t (Give_sem i) s =
     (if i < TX_QUEUE_DEPTH
      then goto t (Give_sem (Suc i)) (s\<lparr>vars := (vars s)\<lparr>tx_queue_sem := k_sem_give api (tx_queue_sem (vars s))\<rparr>\<rparr>)
      else goto t Start_can s)"
| "thread_step api t Start_can s =
     (let (ret, g) = driver_call api (can_start api) (vars s)
      in goto t (Returned ret)
           (s\<lparr>vars := (if ret \<noteq> 0 then g else g\<lparr>tx_fail_streak := 0, tx_recoveries := tx_recoveries g + 1\<rparr>)\<rparr>))"
| "thread_step api t (Returned ret) s = s"

text \<open>A thread that is outside of the two calls, or back from one, may begin the next.\<close>

definition idle :: "gen_pc \<Rightarrow> bool" where
  "idle p \<longleftrightarrow> (case p of Out \<Rightarrow> True | Returned _ \<Rightarrow> True | _ \<Rightarrow> False)"

datatype gen_sys_event = Begin_send gen_thread | Begin_restart gen_thread | Run gen_thread | Tx_irq

fun gen_sys_step :: "('s, 'w) can_api \<Rightarrow> gen_sys_event \<Rightarrow> ('s, 'w) gen_sys \<Rightarrow> ('s, 'w) gen_sys" where
  "gen_sys_step api (Begin_send t) s = (if idle (pc s t) then goto t Read_seq s else s)"
| "gen_sys_step api (Begin_restart t) s = (if idle (pc s t) then goto t Stop_can s else s)"
| "gen_sys_step api (Run t) s = thread_step api t (pc s t) s"
| "gen_sys_step api Tx_irq s = s\<lparr>vars := tx_irqs api (vars s)\<rparr>"

definition gen_sys_init :: "'s \<Rightarrow> 'w \<Rightarrow> ('s, 'w) gen_sys" where
  "gen_sys_init sem w = \<lparr>vars = gen_init sem w, pc = (\<lambda>t. Out), started = []\<rparr>"

section \<open>A thread that is not preempted\<close>

lemma goto_simps [simp]:
  "vars (goto t p s) = vars s" "started (goto t p s) = started s" "pc (goto t p s) = (pc s)(t := p)"
  "goto t p s\<lparr>vars := g\<rparr> = goto t p (s\<lparr>vars := g\<rparr>)"
  by (simp_all add: goto_def)

lemma send_frame_split:
  "send_frame api f g = (let (ret, g) = take_credit api g in if ret \<noteq> 0 then (ret, g) else hand_over api f g)"
  by (simp add: send_frame_def take_credit_def hand_over_def case_prod_beta Let_def)

text \<open>The pieces of a call of a thread, run without interruption.\<close>

fun solo :: "('s, 'w) can_api \<Rightarrow> gen_thread \<Rightarrow> nat \<Rightarrow> ('s, 'w) gen_sys \<Rightarrow> ('s, 'w) gen_sys" where
  "solo api t 0 s = s"
| "solo api t (Suc n) s = solo api t n (thread_step api t (pc s t) s)"

lemma solo_is_run: "solo api t n s = run (gen_sys_step api) (replicate n (Run t)) s"
  by (induction n arbitrary: s) simp_all

lemma solo_returned: "pc s t = Returned ret \<Longrightarrow> solo api t n s = s"
  by (induction n) simp_all

lemma solo_add: "solo api t (m + n) s = solo api t n (solo api t m s)"
  by (induction m arbitrary: s) simp_all

lemma solo_frame:
  assumes "pc s t = Take_credit seq up k"
  shows "let (ret, g) = send_frame api (demo_frame api seq up k) (vars s); u = solo api t 2 s in
    vars u = g \<and> pc u t = (if ret \<noteq> 0 then Returned ret else if k < 2 then Take_credit seq up (Suc k) else Returned 0)"
  using assms by (simp add: numeral_2_eq_2 send_frame_split case_prod_beta Let_def)

lemma solo_frames:
  assumes "pc s t = Take_credit seq up 0"
  shows "let (r1, g1) = send_frame api (demo_frame api seq up 0) (vars s);
             (r2, g2) = send_frame api (demo_frame api seq up 1) g1;
             (r3, g3) = send_frame api (demo_frame api seq up 2) g2; u = solo api t 6 s in
    vars u = (if r1 \<noteq> 0 then g1 else if r2 \<noteq> 0 then g2 else g3) \<and>
    pc u t = Returned (if r1 \<noteq> 0 then r1 else if r2 \<noteq> 0 then r2 else r3)"
proof -
  let ?u1 = "solo api t 2 s" and ?u2 = "solo api t 4 s"
  have u: "?u2 = solo api t 2 ?u1" "solo api t 6 s = solo api t 2 ?u2" "solo api t 6 s = solo api t 4 ?u1"
    using solo_add [of api t 2 2 s] solo_add [of api t 4 2 s] solo_add [of api t 2 4 s] by simp_all
  note one = solo_frame [OF assms, unfolded Let_def case_prod_beta]
  show ?thesis
  proof (cases "fst (send_frame api (demo_frame api seq up 0) (vars s)) = 0")
    case False
    then show ?thesis using one by (simp add: u(3) solo_returned case_prod_beta Let_def)
  next
    case ok1: True
    then have "pc ?u1 t = Take_credit seq up 1" using one by simp
    note two = solo_frame [OF this, of api, unfolded Let_def case_prod_beta]
    show ?thesis
    proof (cases "fst (send_frame api (demo_frame api seq up 1) (vars ?u1)) = 0")
      case False
      then show ?thesis using one two ok1 by (simp add: u(1,2) solo_returned case_prod_beta Let_def)
    next
      case True
      then have "pc ?u2 t = Take_credit seq up 2" using two by (simp add: u(1) numeral_2_eq_2)
      from solo_frame [OF this, of api] one two ok1 True show ?thesis
        by (simp add: u(1,2) case_prod_beta Let_def)
    qed
  qed
qed

lemma solo_send:
  assumes "pc s t = Read_seq"
  shows "vars (solo api t 9 s) = snd (send_demo_frames api (vars s)) \<and>
    pc (solo api t 9 s) t = Returned (fst (send_demo_frames api (vars s)))"
proof -
  let ?g = "(vars s)\<lparr>tx_sequence := tx_sequence (vars s) + 1\<rparr>"
  let ?u = "solo api t 3 s"
  have u: "vars ?u = ?g" "pc ?u t = Take_credit (tx_sequence (vars s)) (uptime_get_32 api (world ?g)) 0"
    using assms by (simp_all add: numeral_3_eq_3)
  have "solo api t 9 s = solo api t 6 ?u" using solo_add [of api t 3 6 s] by simp
  then show ?thesis
    using solo_frames [OF u(2), of api]
    by (simp add: u(1) send_demo_frames_def demo_frame_def case_prod_beta Let_def)
qed

lemma solo_reset:
  "pc u t = Reset_sem \<Longrightarrow> vars (solo api t 5 u) = reset_tx_semaphore api (vars u) \<and> pc (solo api t 5 u) t = Start_can"
  by (simp add: eval_nat_numeral reset_tx_semaphore_def)

lemma solo_start:
  "pc v t = Start_can \<Longrightarrow> vars (solo api t 1 v) = (let (ret, g) = driver_call api (can_start api) (vars v) in
       if ret \<noteq> 0 then g else g\<lparr>tx_fail_streak := 0, tx_recoveries := tx_recoveries g + 1\<rparr>) \<and>
     pc (solo api t 1 v) t = Returned (fst (driver_call api (can_start api) (vars v)))"
  by (simp add: case_prod_beta Let_def)

lemma solo_restart:
  assumes "pc s t = Stop_can"
  shows "vars (solo api t 7 s) = snd (restart_can_controller api (vars s)) \<and>
    pc (solo api t 7 s) t = Returned (fst (restart_can_controller api (vars s)))"
proof -
  let ?u = "solo api t 1 s" and ?call = "driver_call api (can_stop api) (vars s)"
  have split: "solo api t 7 s = solo api t 6 ?u" "solo api t 6 ?u = solo api t 1 (solo api t 5 ?u)"
    using solo_add [of api t 1 6 s] solo_add [of api t 5 1 ?u] by simp_all
  have u: "vars ?u = snd ?call"
    "pc ?u t = (if fst ?call \<noteq> 0 \<and> fst ?call \<noteq> - EALREADY then Returned (fst ?call) else Reset_sem)"
    using assms by (simp_all add: One_nat_def case_prod_beta Let_def)
  show ?thesis
  proof (cases "fst ?call \<noteq> 0 \<and> fst ?call \<noteq> - EALREADY")
    case True
    then show ?thesis using u by (simp add: split(1) solo_returned restart_can_controller_def case_prod_beta Let_def)
  next
    case False
    then have "pc ?u t = Reset_sem" unfolding u(2) by (rule if_not_P)
    from solo_reset [OF this, of api]
    have "vars (solo api t 5 ?u) = reset_tx_semaphore api (snd ?call)" "pc (solo api t 5 ?u) t = Start_can"
      unfolding u(1) by blast+
    with solo_start [of "solo api t 5 ?u" t api] show ?thesis
      unfolding split using False by (auto simp: restart_can_controller_def case_prod_beta Let_def simp del: solo.simps)
  qed
qed

text \<open>The pieces agree with the functions of \<open>CanGen\<close> when nothing comes in between: the pieces of \<^verbatim>\<open>send_demo_frames\<close> and
  of \<^verbatim>\<open>restart_can_controller\<close>, run by one thread in a row, end with the result and leave the variables as the whole call
  does, wherever the other thread is.\<close>

lemma undisturbed_calls:
  assumes "pc s t = p" and "p = Read_seq \<or> p = Stop_can"
  shows "let (ret, g) = (if p = Read_seq then send_demo_frames api (vars s) else restart_can_controller api (vars s));
             u = run (gen_sys_step api) (replicate (if p = Read_seq then 9 else 7) (Run t)) s
    in vars u = g \<and> pc u t = Returned ret"
  using assms solo_send [of s t api] solo_restart [of s t api] by (auto simp: case_prod_beta Let_def simp flip: solo_is_run)

section \<open>Credits under preemption\<close>

text \<open>The credits that threads hold: taken, and the frame not handed over yet.\<close>

definition holds :: "gen_pc \<Rightarrow> nat" where
  "holds p = (case p of Send_frame _ _ _ \<Rightarrow> 1 | _ \<Rightarrow> 0)"

definition held :: "('s, 'w) gen_sys \<Rightarrow> nat" where
  "held s = holds (pc s Main_thread) + holds (pc s Shell_thread)"

definition restarting :: "gen_pc \<Rightarrow> bool" where
  "restarting p \<longleftrightarrow> (case p of Stop_can \<Rightarrow> True | Reset_sem \<Rightarrow> True | Give_sem _ \<Rightarrow> True | Start_can \<Rightarrow> True | _ \<Rightarrow> False)"

lemma held_goto: "held (goto t p s) + holds (pc s t) = held s + holds p"
  by (cases t) (simp_all add: held_def)

lemma held_vars [simp]: "held (s\<lparr>vars := g\<rparr>) = held s" "held (s\<lparr>started := l\<rparr>) = held s"
  by (simp_all add: held_def)

lemma holds_le: "holds (pc s t) \<le> held s"
  by (cases t) (simp_all add: held_def)

context can_bus
begin

definition kept :: "('s, 'w) gen_sys \<Rightarrow> bool" where
  "kept s \<longleftrightarrow> credits count inflight (vars s) + held s = TX_QUEUE_DEPTH"

lemma take_credit_credits:
  "credits count inflight (snd (take_credit api g)) + (if fst (take_credit api g) = 0 then 1 else 0) = credits count inflight g"
  using k_sem_take_cases [OF sem, of "tx_queue_sem g"]
  by (auto simp: take_credit_def credits_def case_prod_beta Let_def)

lemma hand_over_credits:
  assumes "credits count inflight g < TX_QUEUE_DEPTH"
  shows "credits count inflight (snd (hand_over api f g)) = Suc (credits count inflight g)"
proof -
  let ?call = "can_send api f (world g)"
  let ?g = "g\<lparr>world := snd ?call\<rparr>"
  have c: "credits count inflight ?g = credits count inflight g + (if fst ?call = 0 then 1 else 0)"
    by (simp add: credits_def driver_facts)
  then have k: "credits count inflight (tx_irqs api ?g) = credits count inflight ?g"
    using assms by (intro irqs_keep_credits(1)) simp
  show ?thesis
  proof (cases "fst ?call = 0")
    case True
    then show ?thesis using k c by (simp add: hand_over_def driver_call_def case_prod_beta Let_def credits_def)
  next
    case False
    then have "credits count inflight (tx_irqs api ?g) = credits count inflight g" using k c by simp
    then show ?thesis
      using False assms by (simp add: hand_over_def driver_call_def case_prod_beta Let_def credits_def sem_facts)
  qed
qed

lemma thread_step_kept:
  assumes "kept s" "\<not> restarting (pc s t)"
  shows "kept (thread_step api t (pc s t) s)"
proof (cases "pc s t")
  case (Take_credit seq up k)
  let ?r = "take_credit api (vars s)"
  have "held (goto t (if fst ?r \<noteq> 0 then Returned (fst ?r) else Send_frame seq up k) (s\<lparr>vars := snd ?r\<rparr>)) =
      held s + (if fst ?r = 0 then 1 else 0)"
    using held_goto [of t _ "s\<lparr>vars := snd ?r\<rparr>"] Take_credit by (simp add: holds_def)
  then show ?thesis
    using assms(1) take_credit_credits [of "vars s"] Take_credit by (simp add: kept_def case_prod_beta Let_def)
next
  case (Send_frame seq up k)
  let ?r = "hand_over api (demo_frame api seq up k) (vars s)"
  let ?p = "if fst ?r \<noteq> 0 then Returned (fst ?r) else if k < 2 then Take_credit seq up (Suc k) else Returned 0"
  have "held (goto t ?p (s\<lparr>vars := snd ?r\<rparr>)) + 1 = held s"
    using held_goto [of t ?p "s\<lparr>vars := snd ?r\<rparr>"] Send_frame by (simp add: holds_def)
  moreover from this have "credits count inflight (vars s) < TX_QUEUE_DEPTH" using assms(1) by (simp add: kept_def)
  ultimately show ?thesis
    using assms(1) hand_over_credits [of "vars s"] Send_frame by (simp add: kept_def case_prod_beta Let_def)
qed (use assms held_goto [of t _ s] held_goto [of t "Read_uptime _" "s\<lparr>vars := _, started := _\<rparr>"]
     in \<open>auto simp: kept_def restarting_def holds_def credits_def\<close>)

end

lemma other_pc: "u \<noteq> t \<Longrightarrow> pc (thread_step api t p s) u = pc s u"
  by (cases p) (simp_all add: case_prod_beta Let_def)

lemma solo_other_pc: "u \<noteq> t \<Longrightarrow> pc (solo api t n s) u = pc s u"
  by (induction n arbitrary: s) (simp_all add: other_pc)

context can_bus
begin

lemma not_restarting_step:
  assumes "\<not> restarting (pc s t)"
  shows "\<not> restarting (pc (thread_step api t (pc s t) s) t)"
  using assms by (cases "pc s t") (auto simp: restarting_def case_prod_beta Let_def)

lemma sys_step_kept:
  assumes "kept s" "\<forall>t. \<not> restarting (pc s t)" "\<And>t. e \<noteq> Begin_restart t"
  shows "kept (gen_sys_step api e s) \<and> (\<forall>t. \<not> restarting (pc (gen_sys_step api e s) t))"
proof (cases e)
  case (Begin_send t)
  then show ?thesis
    using assms(1,2) held_goto [of t Read_seq s]
    by (auto simp: kept_def restarting_def idle_def holds_def split: gen_pc.splits)
next
  case (Run t)
  have "\<not> restarting (pc (thread_step api t (pc s t) s) u)" for u
    using assms(2) not_restarting_step [of s t] other_pc [of u t api "pc s t" s] by (cases "u = t") auto
  then show ?thesis using thread_step_kept [OF assms(1), of t] assms(2) Run by simp
next
  case Tx_irq
  then show ?thesis using assms(1,2) irqs_keep_credits(1) [of "vars s"] by (simp add: kept_def)
qed (use assms(3) in blast)

lemma sends_keep_credits:
  assumes "kept s" "\<forall>t. \<not> restarting (pc s t)" "\<And>t. Begin_restart t \<notin> set es"
  shows "kept (run (gen_sys_step api) es s)"
proof -
  have "kept (run (gen_sys_step api) es s) \<and> (\<forall>t. \<not> restarting (pc (run (gen_sys_step api) es s) t))"
  proof (rule run_inv_events [where P = "\<lambda>s. kept s \<and> (\<forall>t. \<not> restarting (pc s t))"])
    show "kept s \<and> (\<forall>t. \<not> restarting (pc s t))" using assms(1,2) by blast
  next
    fix e s
    assume "e \<in> set es" "kept s \<and> (\<forall>t. \<not> restarting (pc s t))"
    then show "kept (gen_sys_step api e s) \<and> (\<forall>t. \<not> restarting (pc (gen_sys_step api e s) t))"
      using assms(3) by (intro sys_step_kept) auto
  qed
  then show ?thesis by blast
qed

lemma restart_any:
  assumes "credits count inflight g \<le> TX_QUEUE_DEPTH"
    and "fst (can_stop api (world g)) = 0 \<or> fst (can_stop api (world g)) = - EALREADY"
  shows "credits count inflight (snd (restart_can_controller api g)) = TX_QUEUE_DEPTH"
proof -
  let ?g1 = "tx_irqs api (g\<lparr>world := snd (can_stop api (world g))\<rparr>)"
  let ?g2 = "reset_tx_semaphore api ?g1"
  have "credits count inflight (g\<lparr>world := snd (can_stop api (world g))\<rparr>) \<le> TX_QUEUE_DEPTH"
    using assms(1) by (simp add: credits_def driver_facts)
  from irqs_keep_credits(2) [OF this] have "inflight (world ?g1) = 0"
    using driver_facts(3) driver_facts(4) [OF assms(2)] by simp
  then have "credits count inflight (?g2\<lparr>world := snd (can_start api (world ?g2))\<rparr>) = TX_QUEUE_DEPTH"
    using reset_count [of ?g1] by (simp add: credits_def driver_facts reset_tx_semaphore_def)
  from irqs_credits(1) [OF this] assms(2) show ?thesis
    by (auto simp: restart_can_controller_def driver_call_def case_prod_beta Let_def credits_def)
qed

end

text \<open>C2: the credits survive preemption of the senders. However the main loop and a burst of the shell are
  interleaved, and whenever completions arrive, the semaphore count, the frames in the driver and the
  credits of threads between \<^verbatim>\<open>k_sem_take\<close> and \<^verbatim>\<open>can_send\<close> add up to TX_QUEUE_DEPTH, as long as no
  restart is begun; in particular the driver never has more than three frames.\<close>

theorem preempted_sends_keep_credits:
  assumes "can_bus api count inflight" and "count sem = TX_QUEUE_DEPTH" and "inflight w = 0"
    and "\<And>t. Begin_restart t \<notin> set es"
  shows "let s = run (gen_sys_step api) es (gen_sys_init sem w)
    in count (tx_queue_sem (vars s)) + inflight (world (vars s)) + held s = TX_QUEUE_DEPTH"
proof -
  have "can_bus.kept count inflight (gen_sys_init sem w)"
    using assms(2,3) by (simp add: can_bus.kept_def [OF assms(1)] gen_sys_init_def gen_init_def held_def holds_def credits_def)
  moreover have "\<forall>t. \<not> restarting (pc (gen_sys_init sem w) t)" by (simp add: gen_sys_init_def restarting_def)
  ultimately show ?thesis
    using can_bus.sends_keep_credits [OF assms(1) _ _ assms(4)]
    by (simp add: can_bus.kept_def [OF assms(1)] credits_def)
qed

definition two_senders :: "gen_sys_event list" where
  "two_senders = [Begin_send Main_thread, Begin_send Shell_thread] @ concat (replicate 5 [Run Main_thread, Run Shell_thread])"

theorem preempted_sends_keep_credits_witness:
  "let s = run (gen_sys_step bus_api) two_senders (gen_sys_init 3 (idle_bus False))
   in tx_queue_sem (vars s) + mailboxes (world (vars s)) + held s = 3"
proof -
  have "Begin_restart t \<notin> set two_senders" for t by (auto simp: two_senders_def)
  then show ?thesis
    using preempted_sends_keep_credits [OF bus.can_bus_axioms, of 3 "idle_bus False" two_senders]
    by (simp add: idle_bus_def)
qed

text \<open>With more credits around than the semaphore can count, a give is lost when the semaphore is full. The
  credits then never fall below TX_QUEUE_DEPTH, and never grow.\<close>

definition credit_sum :: "('s \<Rightarrow> nat) \<Rightarrow> ('w \<Rightarrow> nat) \<Rightarrow> ('s, 'w) gen_sys \<Rightarrow> nat" where
  "credit_sum count inflight s = count (tx_queue_sem (vars s)) + inflight (world (vars s)) + held s"

context can_bus
begin

definition bounded :: "nat \<Rightarrow> ('s, 'w) gen_sys \<Rightarrow> bool" where
  "bounded n s \<longleftrightarrow> count (tx_queue_sem (vars s)) \<le> TX_QUEUE_DEPTH \<and> TX_QUEUE_DEPTH \<le> credit_sum count inflight s \<and>
     credit_sum count inflight s \<le> n"

lemma callbacks_capped:
  "count (tx_queue_sem g) \<le> TX_QUEUE_DEPTH \<Longrightarrow>
   count (tx_queue_sem (fold (tx_callback api) errs g)) = min TX_QUEUE_DEPTH (count (tx_queue_sem g) + length errs) \<and>
   inflight (world (fold (tx_callback api) errs g)) = inflight (world g)"
  by (induction errs arbitrary: g) (auto simp: callback_count)

lemma irqs_capped:
  assumes "count (tx_queue_sem g) \<le> TX_QUEUE_DEPTH"
  shows "\<exists>n. n \<le> inflight (world g) \<and> inflight (world (tx_irqs api g)) = inflight (world g) - n \<and>
    count (tx_queue_sem (tx_irqs api g)) = min TX_QUEUE_DEPTH (count (tx_queue_sem g) + n)"
  using callbacks_capped [of "g\<lparr>world := snd (tx_done api (world g))\<rparr>" "fst (tx_done api (world g))"] assms
    driver_facts(2) [of "world g"]
  by (intro exI [of _ "length (fst (tx_done api (world g)))"]) (simp add: tx_irqs_def case_prod_beta)

lemma hand_over_capped:
  assumes "count (tx_queue_sem g) \<le> TX_QUEUE_DEPTH" "g' = snd (hand_over api f g)"
  shows "count (tx_queue_sem g') \<le> TX_QUEUE_DEPTH"
    and "credits count inflight g' \<le> Suc (credits count inflight g)"
    and "min TX_QUEUE_DEPTH (Suc (credits count inflight g)) \<le> credits count inflight g'"
proof -
  let ?call = "can_send api f (world g)" and ?d = "if fst (can_send api f (world g)) = 0 then 1 else 0 :: nat"
  have w: "inflight (snd ?call) = inflight (world g) + ?d" by (simp add: driver_facts)
  obtain n where n: "n \<le> inflight (snd ?call)" "inflight (world (tx_irqs api (g\<lparr>world := snd ?call\<rparr>))) = inflight (snd ?call) - n"
    "count (tx_queue_sem (tx_irqs api (g\<lparr>world := snd ?call\<rparr>))) = min TX_QUEUE_DEPTH (count (tx_queue_sem g) + n)"
    using irqs_capped [of "g\<lparr>world := snd ?call\<rparr>"] assms(1) by auto
  have g': "inflight (world g') = inflight (world g) + ?d - n"
    "count (tx_queue_sem g') = (if ?d = 1 then min TX_QUEUE_DEPTH (count (tx_queue_sem g) + n)
       else min (Suc (min TX_QUEUE_DEPTH (count (tx_queue_sem g) + n))) TX_QUEUE_DEPTH)"
    using n(2,3) w by (auto simp: assms(2) hand_over_def driver_call_def case_prod_beta Let_def sem_facts)
  show "count (tx_queue_sem g') \<le> TX_QUEUE_DEPTH" unfolding g' by simp
  show "credits count inflight g' \<le> Suc (credits count inflight g)"
    "min TX_QUEUE_DEPTH (Suc (credits count inflight g)) \<le> credits count inflight g'"
    unfolding credits_def g' using n(1) w by auto
qed

lemma thread_step_bounded:
  assumes "bounded n s" "\<not> restarting (pc s t)"
  shows "bounded n (thread_step api t (pc s t) s)"
proof (cases "pc s t")
  case (Take_credit seq up k)
  let ?r = "take_credit api (vars s)"
  have "held (goto t (if fst ?r \<noteq> 0 then Returned (fst ?r) else Send_frame seq up k) (s\<lparr>vars := snd ?r\<rparr>)) =
      held s + (if fst ?r = 0 then 1 else 0)"
    using held_goto [of t _ "s\<lparr>vars := snd ?r\<rparr>"] Take_credit by (simp add: holds_def)
  moreover have "count (tx_queue_sem (snd ?r)) \<le> count (tx_queue_sem (vars s))"
    using k_sem_take_cases [OF sem, of "tx_queue_sem (vars s)"] by (auto simp: take_credit_def case_prod_beta Let_def)
  ultimately show ?thesis
    using assms(1) take_credit_credits [of "vars s"] Take_credit
    by (auto simp: bounded_def credit_sum_def credits_def case_prod_beta Let_def)
next
  case (Send_frame seq up k)
  let ?r = "hand_over api (demo_frame api seq up k) (vars s)"
  let ?p = "if fst ?r \<noteq> 0 then Returned (fst ?r) else if k < 2 then Take_credit seq up (Suc k) else Returned 0"
  have "held (goto t ?p (s\<lparr>vars := snd ?r\<rparr>)) + 1 = held s"
    using held_goto [of t ?p "s\<lparr>vars := snd ?r\<rparr>"] Send_frame by (simp add: holds_def)
  with hand_over_capped [of "vars s" "snd ?r" "demo_frame api seq up k"] show ?thesis
    using assms(1) Send_frame by (auto simp: bounded_def credit_sum_def credits_def case_prod_beta Let_def)
qed (use assms held_goto [of t _ s] held_goto [of t "Read_uptime _" "s\<lparr>vars := _, started := _\<rparr>"]
     in \<open>auto simp: bounded_def credit_sum_def restarting_def holds_def\<close>)

lemma sys_step_bounded:
  assumes "bounded n s" "\<forall>t. \<not> restarting (pc s t)" "\<And>t. e \<noteq> Begin_restart t"
  shows "bounded n (gen_sys_step api e s) \<and> (\<forall>t. \<not> restarting (pc (gen_sys_step api e s) t))"
proof (cases e)
  case (Begin_send t)
  then show ?thesis
    using assms(1,2) held_goto [of t Read_seq s]
    by (auto simp: bounded_def credit_sum_def restarting_def idle_def holds_def split: gen_pc.splits)
next
  case (Run t)
  have "\<not> restarting (pc (thread_step api t (pc s t) s) u)" for u
    using assms(2) not_restarting_step [of s t] other_pc [of u t api "pc s t" s] by (cases "u = t") auto
  then show ?thesis using thread_step_bounded [OF assms(1), of t] assms(2) Run by simp
next
  case Tx_irq
  have "bounded n (s\<lparr>vars := tx_irqs api (vars s)\<rparr>)"
    using assms(1) irqs_capped [of "vars s"] by (auto simp: bounded_def credit_sum_def)
  then show ?thesis using assms(2) Tx_irq by simp
qed (use assms(3) in blast)

lemma run_bounded:
  assumes "bounded n s" "\<forall>t. \<not> restarting (pc s t)" "\<And>t. Begin_restart t \<notin> set es"
  shows "bounded n (run (gen_sys_step api) es s)"
proof -
  have "bounded n (run (gen_sys_step api) es s) \<and> (\<forall>t. \<not> restarting (pc (run (gen_sys_step api) es s) t))"
  proof (rule run_inv_events [where P = "\<lambda>s. bounded n s \<and> (\<forall>t. \<not> restarting (pc s t))"])
    show "bounded n s \<and> (\<forall>t. \<not> restarting (pc s t))" using assms(1,2) by blast
  next
    fix e s
    assume "e \<in> set es" "bounded n s \<and> (\<forall>t. \<not> restarting (pc s t))"
    then show "bounded n (gen_sys_step api e s) \<and> (\<forall>t. \<not> restarting (pc (gen_sys_step api e s) t))"
      using assms(3) by (intro sys_step_bounded) auto
  qed
  then show ?thesis by blast
qed

end

text \<open>C21: a restart that preempts a sender adds a credit. If one thread runs a restart of the controller while the other one
  has been preempted between \<^verbatim>\<open>k_sem_take\<close> and \<^verbatim>\<open>can_send\<close>, whichever is which, the semaphore is filled
  up although a credit is still held: the count, the frames in the driver and the held credit then add
  up to TX_QUEUE_DEPTH + 1. After that, and as long as no further restart is begun, no interleaving brings the sum
  below TX_QUEUE_DEPTH or above TX_QUEUE_DEPTH + 1.\<close>

theorem restart_adds_a_credit:
  assumes "can_bus api count inflight" and "t \<noteq> u"
    and "count (tx_queue_sem (vars s)) + inflight (world (vars s)) + held s = TX_QUEUE_DEPTH"
    and "pc s u = Send_frame seq up k" and "pc s t = Stop_can"
    and "fst (can_stop api (world (vars s))) = 0 \<or> fst (can_stop api (world (vars s))) = - EALREADY"
    and "s' = run (gen_sys_step api) (replicate 7 (Run t)) s"
    and "\<And>t. Begin_restart t \<notin> set es" and "s'' = run (gen_sys_step api) es s'"
  shows "count (tx_queue_sem (vars s')) + inflight (world (vars s')) + held s' = TX_QUEUE_DEPTH + 1 \<and>
    count (tx_queue_sem (vars s'')) + inflight (world (vars s'')) + held s'' \<in> {TX_QUEUE_DEPTH, TX_QUEUE_DEPTH + 1}"
proof -
  note bus = assms(1)
  have s': "s' = solo api t 7 s" unfolding assms(7) by (rule solo_is_run [symmetric])
  have "credits count inflight (vars s) \<le> TX_QUEUE_DEPTH" using assms(3) by (simp add: credits_def)
  from can_bus.restart_any [OF bus this assms(6)]
  have full: "credits count inflight (vars s') = TX_QUEUE_DEPTH"
    using solo_restart [OF assms(5), of api] by (simp add: s')
  have pcs: "pc s' u = Send_frame seq up k" "\<exists>r. pc s' t = Returned r"
    using solo_other_pc [of u t api 7 s] solo_restart [OF assms(5), of api] assms(2,4) by (simp_all add: s')
  then have "held s' = 1" using assms(2) by (cases t; cases u) (auto simp: held_def holds_def)
  then have sum: "credit_sum count inflight s' = TX_QUEUE_DEPTH + 1" using full by (simp add: credit_sum_def credits_def)
  have "\<not> restarting (pc s' v)" for v
    using pcs assms(2) by (cases t; cases u; cases v) (auto simp: restarting_def)
  moreover have "can_bus.bounded count inflight (TX_QUEUE_DEPTH + 1) s'"
    using sum full by (simp add: can_bus.bounded_def [OF bus] credits_def)
  ultimately have "can_bus.bounded count inflight (TX_QUEUE_DEPTH + 1) s''"
    unfolding assms(9) using can_bus.run_bounded [OF bus _ _ assms(8)] by blast
  then have "credit_sum count inflight s'' \<in> {TX_QUEUE_DEPTH, TX_QUEUE_DEPTH + 1}"
    by (auto simp: can_bus.bounded_def [OF bus])
  with sum show ?thesis by (simp add: credit_sum_def)
qed

text \<open>On the concrete controller the shell restarts while the main loop sends; then the two threads go on
  without an acknowledgement on the bus, and the driver gets a fourth frame.\<close>

definition preempted_sender :: "gen_sys_event list" where
  "preempted_sender = Begin_send Main_thread # replicate 4 (Run Main_thread) @ [Begin_restart Shell_thread]"

definition four_frames :: "gen_sys_event list" where
  "four_frames = replicate 5 (Run Main_thread) @ Begin_send Shell_thread # replicate 5 (Run Shell_thread)"

theorem restart_adds_a_credit_witness:
  "let s = run (gen_sys_step bus_api) preempted_sender (gen_sys_init 3 (idle_bus False));
       s' = run (gen_sys_step bus_api) (replicate 7 (Run Shell_thread)) s;
       s'' = run (gen_sys_step bus_api) four_frames s'
   in tx_queue_sem (vars s') + mailboxes (world (vars s')) + held s' = 4 \<and>
      tx_queue_sem (vars s'') + mailboxes (world (vars s'')) + held s'' \<in> {3, 4} \<and> mailboxes (world (vars s'')) = 4"
proof -
  let ?s = "run (gen_sys_step bus_api) preempted_sender (gen_sys_init 3 (idle_bus False))"
  let ?s' = "run (gen_sys_step bus_api) (replicate 7 (Run Shell_thread)) ?s"
  have s: "pc ?s Main_thread = Send_frame 0 0 0 \<and> pc ?s Shell_thread = Stop_can \<and> tx_queue_sem (vars ?s) = 2 \<and>
      world (vars ?s) = idle_bus False"
    by (simp add: preempted_sender_def eval_nat_numeral gen_sys_init_def gen_init_def idle_def take_credit_def bus_api_def nat_sem_def
        idle_bus_def)
  then have "tx_queue_sem (vars ?s) + mailboxes (world (vars ?s)) + held ?s = TX_QUEUE_DEPTH"
    by (simp add: held_def holds_def idle_bus_def)
  moreover have "Begin_restart t \<notin> set four_frames" for t by (auto simp: four_frames_def)
  moreover have "fst (can_stop bus_api (world (vars ?s))) = 0" using s by (simp add: idle_bus_def)
  moreover have "mailboxes (world (vars (run (gen_sys_step bus_api) four_frames ?s'))) = 4" by code_simp
  ultimately show ?thesis
    using restart_adds_a_credit [OF bus.can_bus_axioms, of Shell_thread Main_thread ?s 0 0 0 ?s' four_frames] s
    by (simp add: Let_def)
qed

section \<open>Sequence numbers under preemption\<close>

text \<open>\<^verbatim>\<open>tx_sequence++\<close> is under way in a thread between its read and its write. The numbers are
  consecutive as long as this never is the case in both threads.\<close>

definition in_window :: "gen_pc \<Rightarrow> bool" where
  "in_window p \<longleftrightarrow> (case p of Write_seq _ \<Rightarrow> True | _ \<Rightarrow> False)"

definition overlap :: "('s, 'w) gen_sys \<Rightarrow> bool" where
  "overlap s \<longleftrightarrow> in_window (pc s Main_thread) \<and> in_window (pc s Shell_thread)"

fun never_overlaps :: "('s, 'w) can_api \<Rightarrow> gen_sys_event list \<Rightarrow> ('s, 'w) gen_sys \<Rightarrow> bool" where
  "never_overlaps api [] s = True"
| "never_overlaps api (e # es) s = (\<not> overlap (gen_sys_step api e s) \<and> never_overlaps api es (gen_sys_step api e s))"

definition seq_inv :: "('s, 'w) gen_sys \<Rightarrow> bool" where
  "seq_inv s \<longleftrightarrow> map snd (started s) = map of_nat [0..<length (started s)] \<and>
     tx_sequence (vars s) = of_nat (length (started s)) \<and> (\<forall>t v. pc s t = Write_seq v \<longrightarrow> v = tx_sequence (vars s))"

lemma call_keeps_sequence [simp]:
  "tx_sequence (snd (take_credit api g)) = tx_sequence g" "tx_sequence (snd (hand_over api f g)) = tx_sequence g"
  by (simp_all add: take_credit_def hand_over_def case_prod_beta Let_def)

lemma seq_inv_cong:
  "seq_inv s \<Longrightarrow> started s' = started s \<Longrightarrow> tx_sequence (vars s') = tx_sequence (vars s) \<Longrightarrow>
   (\<And>t v. pc s' t = Write_seq v \<Longrightarrow> pc s t = Write_seq v) \<Longrightarrow> seq_inv s'"
  unfolding seq_inv_def by metis

lemma seq_inv_step:
  assumes "seq_inv s" "\<not> overlap s"
  shows "seq_inv (gen_sys_step api e s)"
proof (cases "\<exists>t. e = Run t \<and> (pc s t = Read_seq \<or> in_window (pc s t))")
  case True
  then obtain t where e: "e = Run t" and p: "pc s t = Read_seq \<or> in_window (pc s t)" by blast
  show ?thesis
  proof (cases "pc s t = Read_seq")
    case True
    then show ?thesis using assms(1) by (auto simp: e seq_inv_def)
  next
    case False
    with p obtain v where v: "pc s t = Write_seq v" by (auto simp: in_window_def split: gen_pc.splits)
    with assms(2) have "pc s u \<noteq> Write_seq x" if "u \<noteq> t" for u x
      using that unfolding overlap_def in_window_def by (cases t; cases u) auto
    moreover have "v = of_nat (length (started s))" using assms(1) v unfolding seq_inv_def by metis
    ultimately show ?thesis using assms(1) v by (auto simp: e seq_inv_def add.commute)
  qed
next
  case False
  have quiet: "started (thread_step api t (pc s t) s) = started s \<and>
      tx_sequence (vars (thread_step api t (pc s t) s)) = tx_sequence (vars s) \<and>
      \<not> in_window (pc (thread_step api t (pc s t) s) t)" if "e = Run t" for t
    using False that by (cases "pc s t") (auto simp: in_window_def case_prod_beta Let_def)
  show ?thesis
  proof (cases e)
    case (Run t)
    show ?thesis
    proof (rule seq_inv_cong [OF assms(1)])
      fix u v
      assume w: "pc (gen_sys_step api e s) u = Write_seq v"
      then have "u \<noteq> t" using quiet [OF Run] by (auto simp: Run in_window_def)
      with w show "pc s u = Write_seq v" by (simp add: Run other_pc)
    qed (use quiet [OF Run] in \<open>simp_all add: Run\<close>)
  qed (use assms(1) in \<open>auto elim!: seq_inv_cong split: if_splits\<close>)
qed

lemma seq_inv_run:
  "seq_inv s \<Longrightarrow> \<not> overlap s \<Longrightarrow> never_overlaps api es s \<Longrightarrow> seq_inv (run (gen_sys_step api) es s)"
  by (induction es arbitrary: s) (auto simp: seq_inv_step simp del: gen_sys_step.simps)

lemma seq_inv_init: "seq_inv (gen_sys_init sem w)" "\<not> overlap (gen_sys_init sem w)"
  by (simp_all add: seq_inv_def gen_sys_init_def gen_init_def overlap_def in_window_def)

text \<open>A thread that has read the variable writes back as soon as it runs, with the number it has read.\<close>

lemma started_grows: "set (started s) \<subseteq> set (started (run (gen_sys_step api) es s))"
proof (induction es arbitrary: s)
  case (Cons e es)
  have "set (started s) \<subseteq> set (started (gen_sys_step api e s))"
  proof (cases e)
    case (Run t)
    then show ?thesis by (cases "pc s t") (auto simp: case_prod_beta Let_def)
  qed simp_all
  with Cons.IH [of "gen_sys_step api e s"] show ?case by (simp del: gen_sys_step.simps)
qed simp

lemma window_closes:
  "pc s t = Write_seq v \<Longrightarrow> Run t \<in> set es \<Longrightarrow> (t, v) \<in> set (started (run (gen_sys_step api) es s))"
proof (induction es arbitrary: s)
  case (Cons e es)
  show ?case
  proof (cases "e = Run t")
    case True
    then have "(t, v) \<in> set (started (gen_sys_step api e s))" using Cons.prems(1) by simp
    with started_grows [of "gen_sys_step api e s" api es] show ?thesis by (simp del: gen_sys_step.simps) blast
  next
    case False
    then have "pc (gen_sys_step api e s) t = Write_seq v"
      using Cons.prems(1) by (cases e) (auto simp: idle_def other_pc)
    with Cons.IH [of "gen_sys_step api e s"] Cons.prems(2) False show ?thesis by (simp del: gen_sys_step.simps)
  qed
qed simp

lemma first_overlap:
  assumes "seq_inv s" "\<not> overlap s" "overlap (gen_sys_step api e s)"
  shows "pc (gen_sys_step api e s) u = Write_seq (tx_sequence (vars s))"
proof (cases e)
  case (Run t)
  have "pc s t = Read_seq"
  proof (rule ccontr)
    assume "pc s t \<noteq> Read_seq"
    then have "\<not> in_window (pc (thread_step api t (pc s t) s) t)"
      by (cases "pc s t") (auto simp: in_window_def case_prod_beta Let_def)
    then show False using assms(3) Run by (cases t) (auto simp: overlap_def)
  qed
  moreover have "pc s v = Write_seq (tx_sequence (vars s))" if "v \<noteq> t" for v
  proof -
    have "in_window (pc s v)" using assms(3) Run that other_pc [of v t api "pc s t" s] by (cases v) (auto simp: overlap_def)
    then obtain x where "pc s v = Write_seq x" by (auto simp: in_window_def split: gen_pc.splits)
    with assms(1) show ?thesis unfolding seq_inv_def by metis
  qed
  ultimately show ?thesis using Run by (cases "u = t") simp_all
qed (use assms(2,3) in \<open>auto simp: overlap_def in_window_def split: if_splits gen_pc.splits\<close>)

lemma never_overlaps_last: "\<not> overlap s \<Longrightarrow> never_overlaps api es s \<Longrightarrow> \<not> overlap (run (gen_sys_step api) es s)"
  by (induction es arbitrary: s) (simp_all del: gen_sys_step.simps)

text \<open>C22: when two threads use the same sequence number. In every interleaving, as long as the two threads are never
  both between the read and the write of \<^verbatim>\<open>tx_sequence++\<close>, the frame sets begun by both together are numbered 0, 1, 2 and so on (modulo \<open>2 ^ 32\<close>).
  From the first step at which they are both in between, whichever thread came first and in whatever order they go on, both build their frames with
  the same number, the next one.\<close>

theorem sequence_numbers_race:
  assumes "never_overlaps api es (gen_sys_init sem w)" and "s = run (gen_sys_step api) es (gen_sys_init sem w)"
    and "overlap (gen_sys_step api e s)" and "Run Main_thread \<in> set es'" "Run Shell_thread \<in> set es'"
    and "u = run (gen_sys_step api) es' (gen_sys_step api e s)"
  shows "map snd (started s) = map of_nat [0..<length (started s)] \<and>
    (Main_thread, of_nat (length (started s))) \<in> set (started u) \<and> (Shell_thread, of_nat (length (started s))) \<in> set (started u)"
proof -
  have s: "seq_inv s" "\<not> overlap s"
    unfolding assms(2) using seq_inv_run [OF seq_inv_init assms(1)] never_overlaps_last [OF seq_inv_init(2) assms(1)] by blast+
  have "pc (gen_sys_step api e s) v = Write_seq (of_nat (length (started s)))" for v
    using first_overlap [OF s assms(3), of v] s(1) by (simp add: seq_inv_def del: gen_sys_step.simps)
  from window_closes [OF this assms(4)] window_closes [OF this assms(5)] s(1) show ?thesis
    by (simp add: assms(6) seq_inv_def del: gen_sys_step.simps)
qed

theorem sequence_numbers_race_witness:
  "let u = run (gen_sys_step bus_api) [Run Shell_thread, Run Main_thread] (gen_sys_step bus_api (Run Shell_thread)
       (run (gen_sys_step bus_api) [Begin_send Main_thread, Begin_send Shell_thread, Run Main_thread] (gen_sys_init 3 (idle_bus True))))
   in (Main_thread, 0) \<in> set (started u) \<and> (Shell_thread, 0) \<in> set (started u)"
proof -
  let ?es = "[Begin_send Main_thread, Begin_send Shell_thread, Run Main_thread]" and ?i = "gen_sys_init 3 (idle_bus True)"
  have n: "never_overlaps bus_api ?es ?i"
    by (simp add: gen_sys_init_def gen_init_def idle_def overlap_def in_window_def)
  have o: "overlap (gen_sys_step bus_api (Run Shell_thread) (run (gen_sys_step bus_api) ?es ?i))"
    by (simp add: gen_sys_init_def gen_init_def idle_def overlap_def in_window_def)
  have "length (started (run (gen_sys_step bus_api) ?es ?i)) = 0"
    by (simp add: gen_sys_init_def gen_init_def idle_def)
  with sequence_numbers_race [OF n refl o, of "[Run Shell_thread, Run Main_thread]"] show ?thesis by (simp only: Let_def) simp
qed

end
