(* ===== verification/CanCounter.thy ===== *)
theory CanCounter
  imports CanTypes
begin

unbundle bit_operations_syntax

text \<open>
  The CAN counter sample, \<^verbatim>\<open>app/demos/can_counter/src/main.c\<close>.

  Each thread, work item and callback of the program is a function from the program's state to
  the next one; the answers of the driver and of the kernel are arguments of the function that
  asks for them. The message queues are kernel objects: a type \<open>'q\<close> with the function \<open>get\<close> that
  stands for \<^verbatim>\<open>k_msgq_get\<close> (\<open>None\<close> when the queue is empty). The two conversions of
  \<^verbatim>\<open>sys/byteorder.h\<close> together with the unaligned access are \<open>put_be16\<close> and \<open>get_be16\<close>. What the
  program prints and the calls it makes are recorded in \<open>cc_calls\<close>, newest first.

  \<^verbatim>\<open>k_thread_create\<close> returns its first argument, so the messages for a null thread are left out.
  The loop of \<^verbatim>\<open>change_led_work_handler\<close> ends when the queue is empty, which depends on the queue:
  it is a partial function.
\<close>

abbreviation LED_MSG_ID :: u32 where "LED_MSG_ID \<equiv> 0x10"
abbreviation COUNTER_MSG_ID :: u32 where "COUNTER_MSG_ID \<equiv> 0x12345"
abbreviation SET_LED :: u8 where "SET_LED \<equiv> 1"
abbreviation RESET_LED :: u8 where "RESET_LED \<equiv> 0"
abbreviation SLEEP_TIME :: nat where "SLEEP_TIME \<equiv> 250"

datatype cc_call =
    Tx_callback_error int string
  | Counter_filter_id int
  | Wrong_data_length u8
  | Counter_received u16
  | Led_log bool
  | Led_set bool
  | Poll_submit
  | Resubmit_failed int
  | Get_state_failed int
  | State_line string u8 u8
  | State_change_line string u8 u8
  | Work_submit
  | Cc_sleep nat
  | Cc_send can_frame "nat option"    \<comment> \<open>the timeout, \<open>None\<close> for \<^verbatim>\<open>K_FOREVER\<close>\<close>
  | Device_not_ready
  | Mode_failed int
  | Cc_start_failed int
  | Led_not_ready
  | Led_config_failed int
  | No_filter
  | Led_filter_id int
  | Submit_failed int
  | Create_rx_thread
  | Create_poll_thread
  | Set_state_callback
  | Finished_init

record cc =
  led_port_present :: bool
  current_state :: can_state
  current_err_cnt :: can_bus_err_cnt
  cc_calls :: "cc_call list"

definition cc_init :: "bool \<Rightarrow> cc" where
  "cc_init led = \<lparr>led_port_present = led, current_state = CAN_STATE_ERROR_ACTIVE,
     current_err_cnt = \<lparr>tx_err_cnt = 0, rx_err_cnt = 0\<rparr>, cc_calls = []\<rparr>"

definition emit :: "cc_call \<Rightarrow> cc \<Rightarrow> cc" where
  "emit c s = s\<lparr>cc_calls := c # cc_calls s\<rparr>"

section \<open>Callbacks and threads\<close>

definition tx_irq_callback :: "int \<Rightarrow> string \<Rightarrow> cc \<Rightarrow> cc" where
  "tx_irq_callback error sender s = (if error \<noteq> 0 then emit (Tx_callback_error error sender) s else s)"

text \<open>\<^verbatim>\<open>rx_thread\<close>: the installation of the filter, and one round of the loop for a received
  frame.\<close>

definition rx_thread_start :: "int \<Rightarrow> cc \<Rightarrow> cc" where
  "rx_thread_start filter_id s = emit (Counter_filter_id filter_id) s"

definition rx_thread_round :: "(u8 list \<Rightarrow> u16) \<Rightarrow> bool \<Rightarrow> can_frame \<Rightarrow> cc \<Rightarrow> cc" where
  "rx_thread_round get_be16 accept_rtr frame s =
     (if accept_rtr \<and> CAN_FRAME_RTR \<in> can_flags frame then s
      else if can_dlc frame \<noteq> 2 then emit (Wrong_data_length (can_dlc frame)) s
      else emit (Counter_received (get_be16 (take 2 (can_data frame)))) s)"

text \<open>\<^verbatim>\<open>change_led_work_handler\<close>: one frame, the loop over the queue, and the handler with the
  result of the resubmission.\<close>

definition change_led :: "bool \<Rightarrow> can_frame \<Rightarrow> cc \<Rightarrow> cc" where
  "change_led accept_rtr frame s =
     (if accept_rtr \<and> CAN_FRAME_RTR \<in> can_flags frame then s
      else if \<not> led_port_present s then emit (Led_log (can_data frame ! 0 = SET_LED)) s
      else emit (Led_set (can_data frame ! 0 = SET_LED)) s)"

partial_function (option) drain ::
  "('q \<Rightarrow> (can_frame \<times> 'q) option) \<Rightarrow> bool \<Rightarrow> 'q \<Rightarrow> cc \<Rightarrow> ('q \<times> cc) option" where
  "drain get accept_rtr q s = (case get q of
     None \<Rightarrow> Some (q, s)
   | Some (frame, q) \<Rightarrow> drain get accept_rtr q (change_led accept_rtr frame s))"

definition led_resubmit :: "int \<Rightarrow> cc \<Rightarrow> cc" where
  "led_resubmit ret s = (let s = emit Poll_submit s
     in if ret \<noteq> 0 then emit (Resubmit_failed ret) s else s)"

definition change_led_work_handler ::
  "('q \<Rightarrow> (can_frame \<times> 'q) option) \<Rightarrow> bool \<Rightarrow> int \<Rightarrow> 'q \<Rightarrow> cc \<Rightarrow> ('q \<times> cc) option" where
  "change_led_work_handler get accept_rtr ret q s = (case drain get accept_rtr q s of
     None \<Rightarrow> None
   | Some (q, s) \<Rightarrow> Some (q, led_resubmit ret s))"

definition state_to_str :: "can_state \<Rightarrow> string" where
  "state_to_str state = (case state of
     CAN_STATE_ERROR_ACTIVE \<Rightarrow> ''error-active''
   | CAN_STATE_ERROR_WARNING \<Rightarrow> ''error-warning''
   | CAN_STATE_ERROR_PASSIVE \<Rightarrow> ''error-passive''
   | CAN_STATE_BUS_OFF \<Rightarrow> ''bus-off''
   | CAN_STATE_STOPPED \<Rightarrow> ''stopped''
   | CAN_STATE_OTHER _ \<Rightarrow> ''unknown'')"

text \<open>The local variables of \<^verbatim>\<open>poll_state_thread\<close>, and one round of its loop with the answer of
  \<^verbatim>\<open>can_get_state\<close>.\<close>

record poll_vars =
  err_cnt_prev :: can_bus_err_cnt
  state_prev :: can_state

definition poll_start :: poll_vars where
  "poll_start = \<lparr>err_cnt_prev = \<lparr>tx_err_cnt = 0, rx_err_cnt = 0\<rparr>, state_prev = CAN_STATE_ERROR_ACTIVE\<rparr>"

definition poll_state_round :: "int \<times> can_state \<times> can_bus_err_cnt \<Rightarrow> poll_vars \<times> cc \<Rightarrow> poll_vars \<times> cc" where
  "poll_state_round answer vs =
     (let (err, state, err_cnt) = answer; (v, s) = vs
      in if err \<noteq> 0 then (v, emit (Cc_sleep 100) (emit (Get_state_failed err) s))
         else if tx_err_cnt err_cnt \<noteq> tx_err_cnt (err_cnt_prev v) \<or>
                 rx_err_cnt err_cnt \<noteq> rx_err_cnt (err_cnt_prev v) \<or> state_prev v \<noteq> state
         then (v\<lparr>err_cnt_prev := (err_cnt_prev v)\<lparr>tx_err_cnt := tx_err_cnt err_cnt, rx_err_cnt := rx_err_cnt err_cnt\<rparr>,
                 state_prev := state\<rparr>,
               emit (State_line (state_to_str state) (rx_err_cnt err_cnt) (tx_err_cnt err_cnt)) s)
         else (v, emit (Cc_sleep 100) s))"

definition state_change_work_handler :: "cc \<Rightarrow> cc" where
  "state_change_work_handler s =
     emit (State_change_line (state_to_str (current_state s)) (rx_err_cnt (current_err_cnt s))
       (tx_err_cnt (current_err_cnt s))) s"

definition state_change_callback :: "can_state \<Rightarrow> can_bus_err_cnt \<Rightarrow> cc \<Rightarrow> cc" where
  "state_change_callback state err_cnt s =
     emit Work_submit (s\<lparr>current_state := state, current_err_cnt := err_cnt\<rparr>)"

section \<open>The main program\<close>

text \<open>The answers that the start of \<^verbatim>\<open>main\<close> receives. \<open>loopback\<close> is the build option.\<close>

record cc_env =
  env_ready :: bool
  loopback :: bool
  set_mode_ret :: int
  start_ret :: int
  led_ready :: bool
  led_config_ret :: int
  add_filter_ret :: int
  submit_ret :: int

definition cc_led_setup :: "cc_env \<Rightarrow> cc \<Rightarrow> bool \<times> cc" where
  "cc_led_setup env s =
     (if \<not> led_port_present s then (True, s)
      else if \<not> led_ready env then (False, emit Led_not_ready s)
      else if led_config_ret env < 0
      then (True, (emit (Led_config_failed (led_config_ret env)) s)\<lparr>led_port_present := False\<rparr>)
      else (True, s))"

text \<open>\<^verbatim>\<open>main\<close> up to its loop; the first component says whether the loop is reached.\<close>

definition cc_main_setup :: "cc_env \<Rightarrow> cc \<Rightarrow> bool \<times> cc" where
  "cc_main_setup env s =
     (if \<not> env_ready env then (False, emit Device_not_ready s)
      else if loopback env \<and> set_mode_ret env \<noteq> 0 then (False, emit (Mode_failed (set_mode_ret env)) s)
      else if start_ret env \<noteq> 0 then (False, emit (Cc_start_failed (start_ret env)) s)
      else let (go, s) = cc_led_setup env s
      in if \<not> go then (False, s)
      else if add_filter_ret env = - ENOSPC then (False, emit No_filter s)
      else let s = emit Poll_submit (emit (Led_filter_id (add_filter_ret env)) s)
      in if submit_ret env \<noteq> 0 then (False, emit (Submit_failed (submit_ret env)) s)
         else (True, emit Finished_init (emit Set_state_callback (emit Create_poll_thread (emit Create_rx_thread s)))))"

record main_vars =
  change_led_frame :: can_frame
  counter_frame :: can_frame
  toggle :: u8
  counter :: u16

definition main_start :: main_vars where
  "main_start = \<lparr>
     change_led_frame = \<lparr>can_id = LED_MSG_ID, can_dlc = 1, can_flags = {}, can_data = replicate 8 0\<rparr>,
     counter_frame = \<lparr>can_id = COUNTER_MSG_ID, can_dlc = 2, can_flags = {CAN_FRAME_IDE}, can_data = replicate 8 0\<rparr>,
     toggle = 1, counter = 0\<rparr>"

text \<open>The two halves of a round of the main loop, each ending with its pause.\<close>

definition main_send_led :: "main_vars \<times> cc \<Rightarrow> main_vars \<times> cc" where
  "main_send_led vs =
     (let (v, s) = vs;
          v = v\<lparr>change_led_frame := (change_led_frame v)\<lparr>can_data :=
                 (can_data (change_led_frame v))[0 := if toggle v AND 1 \<noteq> 0 then SET_LED else RESET_LED]\<rparr>,
               toggle := toggle v + 1\<rparr>
      in (v, emit (Cc_sleep SLEEP_TIME) (emit (Cc_send (change_led_frame v) None) s)))"

definition main_send_counter :: "(u16 \<Rightarrow> u8 list) \<Rightarrow> main_vars \<times> cc \<Rightarrow> main_vars \<times> cc" where
  "main_send_counter put_be16 vs =
     (let (v, s) = vs;
          v = v\<lparr>counter_frame := (counter_frame v)\<lparr>can_data :=
                 put_be16 (counter v) @ drop 2 (can_data (counter_frame v))\<rparr>,
               counter := counter v + 1\<rparr>
      in (v, emit (Cc_sleep SLEEP_TIME) (emit (Cc_send (counter_frame v) (Some 100)) s)))"

definition cc_main_round :: "(u16 \<Rightarrow> u8 list) \<Rightarrow> main_vars \<times> cc \<Rightarrow> main_vars \<times> cc" where
  "cc_main_round put_be16 vs = main_send_counter put_be16 (main_send_led vs)"

end
