(* ===== verification/CanCounterProps.thy ===== *)
theory CanCounterProps
  imports CanCounter
begin

text \<open>
  The properties of the CAN counter sample: what the LED handler does with a queue, what the
  main loop sends and the receiving thread prints, and what the polling thread prints.
\<close>

lemma emit_simps [simp]:
  "cc_calls (emit c s) = c # cc_calls s" "led_port_present (emit c s) = led_port_present s"
  "current_state (emit c s) = current_state s" "current_err_cnt (emit c s) = current_err_cnt s"
  by (simp_all add: emit_def)

section \<open>The LED handler\<close>

text \<open>What the kernel documents about a message queue: frames come out in order, and an empty
  queue yields none.\<close>

definition msgq_contract :: "('q \<Rightarrow> (can_frame \<times> 'q) option) \<Rightarrow> ('q \<Rightarrow> can_frame list) \<Rightarrow> bool" where
  "msgq_contract get contents \<longleftrightarrow>
     (\<forall>q. contents q = [] \<longrightarrow> get q = None) \<and>
     (\<forall>q f fs. contents q = f # fs \<longrightarrow> (\<exists>q'. get q = Some (f, q') \<and> contents q' = fs))"

definition led_command :: "bool \<Rightarrow> can_frame \<Rightarrow> cc_call" where
  "led_command led frame = (if led then Led_set else Led_log) (can_data frame ! 0 = SET_LED)"

definition obeyed :: "bool \<Rightarrow> can_frame list \<Rightarrow> can_frame list" where
  "obeyed accept_rtr fs = filter (\<lambda>f. \<not> (accept_rtr \<and> CAN_FRAME_RTR \<in> can_flags f)) fs"

lemma drain_eq:
  assumes "msgq_contract get contents" "contents q = fs"
  shows "\<exists>q'. contents q' = [] \<and> drain get rtr q s =
    Some (q', s\<lparr>cc_calls := rev (map (led_command (led_port_present s)) (obeyed rtr fs)) @ cc_calls s\<rparr>)"
  using assms(2)
proof (induction fs arbitrary: q s)
  case Nil
  with assms(1) have "get q = None" by (simp add: msgq_contract_def)
  then show ?case using Nil by (subst drain.simps) (auto simp: obeyed_def)
next
  case (Cons f fs)
  obtain q' where q': "get q = Some (f, q')" "contents q' = fs"
    using assms(1) Cons.prems unfolding msgq_contract_def by blast
  have led: "led_port_present (change_led rtr f s) = led_port_present s" by (simp add: change_led_def)
  have calls: "cc_calls (change_led rtr f s) = map (led_command (led_port_present s)) (obeyed rtr [f]) @ cc_calls s"
    by (simp add: change_led_def led_command_def obeyed_def)
  have upd: "(change_led rtr f s)\<lparr>cc_calls := c\<rparr> = s\<lparr>cc_calls := c\<rparr>" for c
    by (simp add: change_led_def emit_def)
  show ?case
    using Cons.IH [OF q'(2), of "change_led rtr f s"] unfolding led calls upd
    by (subst drain.simps) (auto simp: q'(1) obeyed_def)
qed

text \<open>The LED follows the commands. The handler ends, takes every queued frame in order,
  obeys each one that is not an accepted remote request exactly once (the pin is set to on for
  the value 1 and to off for any other, or the command is printed when there is no LED), and
  asks to be run again exactly once.\<close>

theorem led_follows_commands:
  assumes "msgq_contract get contents" and "contents q = fs"
  shows "\<exists>q' s'. change_led_work_handler get rtr ret q s = Some (q', s') \<and> contents q' = [] \<and>
    rev (cc_calls s') = rev (cc_calls s) @ map (led_command (led_port_present s)) (obeyed rtr fs)
      @ [Poll_submit] @ (if ret \<noteq> 0 then [Resubmit_failed ret] else [])"
  using drain_eq [OF assms, of rtr s] by (auto simp: change_led_work_handler_def led_resubmit_def Let_def)

definition list_get :: "can_frame list \<Rightarrow> (can_frame \<times> can_frame list) option" where
  "list_get q = (case q of [] \<Rightarrow> None | f # fs \<Rightarrow> Some (f, fs))"

definition led_frame :: "u8 \<Rightarrow> can_frame" where
  "led_frame v = \<lparr>can_id = LED_MSG_ID, can_dlc = 1, can_flags = {}, can_data = v # replicate 7 0\<rparr>"

theorem led_follows_commands_witness:
  "\<exists>q' s'. change_led_work_handler list_get True 0 [led_frame 1, led_frame 0] (cc_init True) = Some (q', s') \<and>
     cc_calls s' = [Poll_submit, Led_set False, Led_set True]"
proof -
  have "msgq_contract list_get (\<lambda>q. q)" by (simp add: msgq_contract_def list_get_def)
  from led_follows_commands [OF this, of "[led_frame 1, led_frame 0]" _ True 0 "cc_init True"]
  show ?thesis by (auto simp: cc_init_def led_command_def obeyed_def led_frame_def rev_eq_Cons_iff)
qed

section \<open>The counter\<close>

primrec rounds :: "(u16 \<Rightarrow> u8 list) \<Rightarrow> nat \<Rightarrow> main_vars \<times> cc \<Rightarrow> main_vars \<times> cc" where
  "rounds put_be16 0 vs = vs"
| "rounds put_be16 (Suc n) vs = cc_main_round put_be16 (rounds put_be16 n vs)"

text \<open>The frames of one round, \<open>n\<close> rounds after the start.\<close>

definition led_frame_no :: "nat \<Rightarrow> can_frame" where
  "led_frame_no n = led_frame (if even n then SET_LED else RESET_LED)"

definition counter_frame_no :: "(u16 \<Rightarrow> u8 list) \<Rightarrow> nat \<Rightarrow> can_frame" where
  "counter_frame_no put_be16 n = \<lparr>can_id = COUNTER_MSG_ID, can_dlc = 2, can_flags = {CAN_FRAME_IDE},
     can_data = put_be16 (of_nat n) @ replicate 6 0\<rparr>"

definition round_calls :: "(u16 \<Rightarrow> u8 list) \<Rightarrow> nat \<Rightarrow> cc_call list" where
  "round_calls put_be16 n = [Cc_send (led_frame_no n) None, Cc_sleep SLEEP_TIME,
     Cc_send (counter_frame_no put_be16 n) (Some 100), Cc_sleep SLEEP_TIME]"

definition be16_contract :: "(u16 \<Rightarrow> u8 list) \<Rightarrow> (u8 list \<Rightarrow> u16) \<Rightarrow> bool" where
  "be16_contract put get \<longleftrightarrow> (\<forall>v. length (put v) = 2 \<and> get (put v) = v)"

lemma toggle_bit: "(of_nat (Suc n) :: u8) AND 1 \<noteq> 0 \<longleftrightarrow> even n"
  using even_of_nat_u8 [of "Suc n"] by (simp add: and_one_eq mod_2_eq_odd)

lemma rounds_eq:
  assumes "be16_contract put get" "(v, s') = rounds put n (main_start, s)"
  shows "toggle v = of_nat (Suc n) \<and> counter v = of_nat n \<and>
    (\<exists>b. change_led_frame v = led_frame b) \<and>
    (\<exists>a b. counter_frame v = \<lparr>can_id = COUNTER_MSG_ID, can_dlc = 2, can_flags = {CAN_FRAME_IDE},
       can_data = [a, b] @ replicate 6 0\<rparr>) \<and>
    rev (cc_calls s') = rev (cc_calls s) @ concat (map (round_calls put) [0..<n])"
  using assms(2)
proof (induction n arbitrary: v s')
  case 0
  then show ?case
    by (auto simp: main_start_def led_frame_def numeral_eq_Suc)
next
  case (Suc n)
  obtain u t where ut: "(u, t) = rounds put n (main_start, s)" by (metis surj_pair)
  note IH = Suc.IH [OF ut]
  have vs: "(v, s') = cc_main_round put (u, t)" using Suc.prems ut by simp
  have len: "length (put (of_nat n)) = 2" using assms(1) by (simp add: be16_contract_def)
  then obtain a b where ab: "put (of_nat n) = [a, b]" by (auto simp: numeral_2_eq_2 length_Suc_conv)
  have bit: "(word_of_nat n + 1 :: u8) AND 1 \<noteq> 0 \<longleftrightarrow> even n" using toggle_bit [of n] by (simp add: add.commute)
  show ?case
    using vs IH ab bit
    by (auto simp: cc_main_round_def main_send_led_def main_send_counter_def Let_def round_calls_def led_frame_no_def counter_frame_no_def led_frame_def
        numeral_eq_Suc add.commute)
qed

definition sent_with_id :: "u32 \<Rightarrow> cc_call list \<Rightarrow> can_frame list" where
  "sent_with_id i cs = concat (map (\<lambda>c. case c of Cc_send f _ \<Rightarrow> if can_id f = i then [f] else [] | _ \<Rightarrow> []) cs)"

lemma sent_with_id_append [simp]: "sent_with_id i (xs @ ys) = sent_with_id i xs @ sent_with_id i ys"
  by (simp add: sent_with_id_def)

lemma sent_in_rounds:
  "sent_with_id COUNTER_MSG_ID (concat (map (round_calls put) [0..<n])) = map (counter_frame_no put) [0..<n]"
  "sent_with_id LED_MSG_ID (concat (map (round_calls put) [0..<n])) = map led_frame_no [0..<n]"
  by (induction n)
    (simp_all add: round_calls_def sent_with_id_def led_frame_no_def led_frame_def counter_frame_no_def)

lemma receive_counters:
  assumes "be16_contract put get"
  shows "rev (cc_calls (fold (rx_thread_round get rtr) (map (counter_frame_no put) ks) r)) =
     rev (cc_calls r) @ map (\<lambda>k. Counter_received (of_nat k)) ks"
proof (induction ks arbitrary: r)
  case (Cons k ks)
  have "rx_thread_round get rtr (counter_frame_no put k) r = emit (Counter_received (of_nat k)) r"
    using assms by (simp add: rx_thread_round_def counter_frame_no_def be16_contract_def)
  then show ?case using Cons.IH by simp
qed simp

text \<open>The counter round trip. \<open>n\<close> rounds of the main loop make exactly the calls of the
  rounds in order, two sends and two pauses each; the frames with the counter's identifier, given
  to the receiving thread in the order sent, make it print 0, 1, 2 and so on, modulo 65536, and
  none is rejected for its length; the LED frames command on and off in turn, on first, also after
  the 8-bit variable \<^verbatim>\<open>toggle\<close> has wrapped.\<close>

theorem counter_round_trip:
  assumes "be16_contract put get" and "(v, s') = rounds put n (main_start, s)" and "cc_calls s = []"
  shows "rev (cc_calls s') = concat (map (round_calls put) [0..<n]) \<and>
    rev (cc_calls (fold (rx_thread_round get rtr) (sent_with_id COUNTER_MSG_ID (rev (cc_calls s'))) r)) =
      rev (cc_calls r) @ map (\<lambda>k. Counter_received (of_nat k)) [0..<n] \<and>
    map (led_command led) (sent_with_id LED_MSG_ID (rev (cc_calls s'))) =
      map (\<lambda>k. (if led then Led_set else Led_log) (even k)) [0..<n]"
proof -
  have "rev (cc_calls s') = concat (map (round_calls put) [0..<n])"
    using rounds_eq [OF assms(1,2)] assms(3) by simp
  moreover have "map (led_command led) (map led_frame_no [0..<n]) =
      map (\<lambda>k. (if led then Led_set else Led_log) (even k)) [0..<n]"
    by (simp add: led_command_def led_frame_no_def led_frame_def)
  ultimately show ?thesis
    using receive_counters [OF assms(1), of rtr "[0..<n]" r] by (simp add: sent_in_rounds)
qed

definition put_be :: "u16 \<Rightarrow> u8 list" where
  "put_be v = [ucast (drop_bit 8 v), ucast v]"

definition get_be :: "u8 list \<Rightarrow> u16" where
  "get_be bs = push_bit 8 (ucast (bs ! 0)) OR ucast (bs ! 1)"

lemma be16_ok: "be16_contract put_be get_be"
proof -
  have "push_bit 8 (ucast (ucast (drop_bit 8 v) :: u8)) OR ucast (ucast v :: u8) = (v :: u16)" for v
    by (rule bit_word_eqI) (auto simp: bit_simps)
  then show ?thesis by (simp add: be16_contract_def put_be_def get_be_def)
qed

theorem counter_round_trip_witness:
  "\<exists>v s'. (v, s') = rounds put_be 3 (main_start, cc_init True) \<and>
     rev (cc_calls (fold (rx_thread_round get_be False) (sent_with_id COUNTER_MSG_ID (rev (cc_calls s'))) (cc_init True)))
       = [Counter_received 0, Counter_received 1, Counter_received 2]"
proof -
  obtain v s' where vs: "(v, s') = rounds put_be 3 (main_start, cc_init True)" by (metis surj_pair)
  have "cc_calls (cc_init True) = []" by (simp add: cc_init_def)
  from counter_round_trip [OF be16_ok vs this, of False "cc_init True" True] this vs show ?thesis
    by (auto simp: upt_rec)
qed

section \<open>The polling thread\<close>

text \<open>The lines about the controller state, oldest first, and the answers that carry a state.\<close>

definition state_lines :: "cc_call list \<Rightarrow> cc_call list" where
  "state_lines cs = filter (\<lambda>c. case c of State_line _ _ _ \<Rightarrow> True | _ \<Rightarrow> False) (rev cs)"

definition readings :: "(int \<times> can_state \<times> can_bus_err_cnt) list \<Rightarrow> (can_state \<times> can_bus_err_cnt) list" where
  "readings answers = map snd (filter (\<lambda>a. fst a = 0) answers)"

definition reading_line :: "can_state \<times> can_bus_err_cnt \<Rightarrow> cc_call" where
  "reading_line r = State_line (state_to_str (fst r)) (rx_err_cnt (snd r)) (tx_err_cnt (snd r))"

lemma poll_round:
  "poll_state_round (err, r) (\<lparr>err_cnt_prev = snd p, state_prev = fst p\<rparr>, s) =
     (if err \<noteq> 0 then (\<lparr>err_cnt_prev = snd p, state_prev = fst p\<rparr>, emit (Cc_sleep 100) (emit (Get_state_failed err) s))
      else if r = p then (\<lparr>err_cnt_prev = snd p, state_prev = fst p\<rparr>, emit (Cc_sleep 100) s)
      else (\<lparr>err_cnt_prev = snd r, state_prev = fst r\<rparr>, emit (reading_line r) s))"
  by (cases r; cases p) (auto simp: poll_state_round_def reading_line_def)

lemma poll_lines:
  "state_lines (cc_calls (snd (fold poll_state_round answers (\<lparr>err_cnt_prev = snd p, state_prev = fst p\<rparr>, s)))) =
     state_lines (cc_calls s) @ map reading_line (tl (remdups_adj (p # readings answers)))"
proof (induction answers arbitrary: p s)
  case (Cons a answers)
  obtain err r where a: "a = (err, r)" by (rule prod.exhaust)
  have lines: "state_lines (reading_line r # cs) = state_lines cs @ [reading_line r]"
    "state_lines (Cc_sleep 100 # cs) = state_lines cs"
    "state_lines (Get_state_failed err # cs) = state_lines cs" for cs
    by (simp_all add: state_lines_def reading_line_def)
  show ?case
  proof (cases "err = 0 \<and> r \<noteq> p")
    case True
    have "map reading_line (remdups_adj (r # xs)) = reading_line r # map reading_line (tl (remdups_adj (r # xs)))" for xs
      using arg_cong [OF remdups_adj_Cons_alt [of r xs], of "map reading_line"] by (simp only: list.map)
    then show ?thesis using True Cons.IH [of r] lines by (auto simp: a poll_round readings_def)
  next
    case False
    then show ?thesis using Cons.IH [of p] lines by (auto simp: a poll_round readings_def)
  qed
qed (simp add: readings_def)

text \<open>The polling thread reports exactly the changes. Whatever the driver answers, the lines
  it prints are the successfully read states and error counts, with each run of equal readings
  printed once and readings equal to the initial state not printed at the start; failed readings
  neither print a state nor hide a change.\<close>

theorem poll_reports_changes:
  "state_lines (cc_calls (snd (fold poll_state_round answers (poll_start, s)))) =
     state_lines (cc_calls s) @
     map reading_line (tl (remdups_adj
       ((CAN_STATE_ERROR_ACTIVE, \<lparr>tx_err_cnt = 0, rx_err_cnt = 0\<rparr>) # readings answers)))"
  using poll_lines [of answers "(CAN_STATE_ERROR_ACTIVE, \<lparr>tx_err_cnt = 0, rx_err_cnt = 0\<rparr>)" s]
  by (simp add: poll_start_def)


end
