(* ===== verification/CanCounterSystem.thy ===== *)
theory CanCounterSystem
  imports CanCounterProps "HOL-Library.Sublist"
begin

text \<open>
  The CAN counter sample as one running system: \<^verbatim>\<open>app/demos/can_counter/src/main.c\<close> after its start.

  The main loop, the receiving thread, the polling thread, the two work items and the callbacks
  share the variables of the program and two message queues. \<open>node_step\<close> runs one piece of one of
  them: the main loop up to its next pause, one frame of the receiving thread, one \<^verbatim>\<open>k_msgq_get\<close> of
  the LED handler, the resubmission of the LED handler, one poll, one callback. A run is a list
  of such events in any order; an event that cannot happen in a state leaves it as it is. So frames
  arrive while the LED handler drains its queue, and between its last look at the queue and its
  resubmission.

  The queues, the acceptance filters and the byte order functions are not part of the sources: they are
  the record \<open>node_api\<close>. A frame that finds its queue full is dropped by the driver. A board in
  loopback mode hears its own frames; frames of other boards are \<open>Foreign\<close> events. The fields
  \<open>heard\<close> and \<open>rx_taken\<close> are history: the frames that passed the filter of the counter queue, and the
  frames the receiving thread has taken from the queue.
\<close>

section \<open>The parts and their state\<close>

record can_filter =
  filter_ide :: bool
  filter_id :: u32
  filter_mask :: u32

abbreviation CAN_STD_ID_MASK :: u32 where "CAN_STD_ID_MASK \<equiv> 0x7FF"
abbreviation CAN_EXT_ID_MASK :: u32 where "CAN_EXT_ID_MASK \<equiv> 0x1FFFFFFF"

definition counter_filter :: can_filter where
  "counter_filter = \<lparr>filter_ide = True, filter_id = COUNTER_MSG_ID, filter_mask = CAN_EXT_ID_MASK\<rparr>"

definition change_led_filter :: can_filter where
  "change_led_filter = \<lparr>filter_ide = False, filter_id = LED_MSG_ID, filter_mask = CAN_STD_ID_MASK\<rparr>"

text \<open>The depth of both queues, from \<^verbatim>\<open>CAN_MSGQ_DEFINE\<close>.\<close>

definition msgq_depth :: nat where
  "msgq_depth = 2"

record 'q node_api =
  msgq_get :: "'q \<Rightarrow> (can_frame \<times> 'q) option"
  msgq_put :: "can_frame \<Rightarrow> 'q \<Rightarrow> 'q"
  filter_matches :: "can_filter \<Rightarrow> can_frame \<Rightarrow> bool"
  cpu_to_be16 :: "u16 \<Rightarrow> u8 list"
  be16_to_cpu :: "u8 list \<Rightarrow> u16"
  accept_rtr :: bool

datatype main_at = At_led | At_counter

text \<open>The LED handler waits for its queue, is inside its loop, has seen the queue empty and not resubmitted
  itself yet, or has failed to resubmit itself.\<close>

datatype led_work = Led_armed | Led_draining | Led_rearming | Led_dead

record 'q node =
  node_cc :: cc
  node_main :: main_vars
  main_pc :: main_at
  led_tx :: "can_frame list"          \<comment> \<open>LED frames the controller has not completed\<close>
  change_led_msgq :: 'q
  counter_msgq :: 'q
  led_filter_on :: bool
  counter_filter_on :: bool
  rx_started :: bool
  change_led_work :: led_work
  node_poll :: poll_vars
  state_work_pending :: bool
  self_reception :: bool
  heard :: "can_frame list"
  rx_taken :: "can_frame list"

text \<open>The start: what \<^verbatim>\<open>main\<close> has set up when it reaches its loop.\<close>

definition node_boot :: "cc_env \<Rightarrow> bool \<Rightarrow> 'q \<Rightarrow> 'q \<Rightarrow> 'q node option" where
  "node_boot env led led_q counter_q =
     (let (go, s) = cc_main_setup env (cc_init led)
      in if \<not> go then None
         else Some \<lparr>node_cc = s, node_main = main_start, main_pc = At_led, led_tx = [],
           change_led_msgq = led_q, counter_msgq = counter_q, led_filter_on = (0 \<le> add_filter_ret env),
           counter_filter_on = False, rx_started = False, change_led_work = Led_armed,
           node_poll = poll_start, state_work_pending = False, self_reception = loopback env,
           heard = [], rx_taken = []\<rparr>)"

section \<open>The steps\<close>

text \<open>The controller receives a frame: the driver puts it into the queue of each filter it matches.\<close>

definition receive :: "'q node_api \<Rightarrow> can_frame \<Rightarrow> 'q node \<Rightarrow> 'q node" where
  "receive api f s =
     (let s = (if led_filter_on s \<and> filter_matches api change_led_filter f
               then s\<lparr>change_led_msgq := msgq_put api f (change_led_msgq s)\<rparr> else s)
      in if counter_filter_on s \<and> filter_matches api counter_filter f
         then s\<lparr>counter_msgq := msgq_put api f (counter_msgq s), heard := heard s @ [f]\<rparr> else s)"

definition loop_back :: "'q node_api \<Rightarrow> bool \<Rightarrow> can_frame \<Rightarrow> 'q node \<Rightarrow> 'q node" where
  "loop_back api sent f s = (if sent \<and> self_reception s then receive api f s else s)"

definition step_main_led :: "'q node \<Rightarrow> 'q node" where
  "step_main_led s =
     (if main_pc s \<noteq> At_led then s
      else let (v, c) = main_send_led (node_main s, node_cc s)
           in s\<lparr>node_main := v, node_cc := c, main_pc := At_counter, led_tx := led_tx s @ [change_led_frame v]\<rparr>)"

text \<open>The counter is sent by a call that waits until the frame is on the bus or the call has failed;
  \<open>sent\<close> says which. The result of the call is ignored.\<close>

definition step_main_counter :: "'q node_api \<Rightarrow> bool \<Rightarrow> 'q node \<Rightarrow> 'q node" where
  "step_main_counter api sent s =
     (if main_pc s \<noteq> At_counter then s
      else let (v, c) = main_send_counter (cpu_to_be16 api) (node_main s, node_cc s)
           in loop_back api sent (counter_frame v) (s\<lparr>node_main := v, node_cc := c, main_pc := At_led\<rparr>))"

text \<open>The controller completes one of the pending LED frames and calls the callback.\<close>

definition step_led_tx :: "'q node_api \<Rightarrow> nat \<Rightarrow> int \<Rightarrow> 'q node \<Rightarrow> 'q node" where
  "step_led_tx api i error s =
     (if length (led_tx s) \<le> i then s
      else loop_back api (error = 0) (led_tx s ! i)
        (s\<lparr>led_tx := take i (led_tx s) @ drop (Suc i) (led_tx s),
           node_cc := tx_irq_callback error ''LED change'' (node_cc s)\<rparr>))"

definition step_rx_start :: "int \<Rightarrow> 'q node \<Rightarrow> 'q node" where
  "step_rx_start fid s =
     (if rx_started s then s
      else s\<lparr>rx_started := True, counter_filter_on := (0 \<le> fid), node_cc := rx_thread_start fid (node_cc s)\<rparr>)"

definition step_rx :: "'q node_api \<Rightarrow> 'q node \<Rightarrow> 'q node" where
  "step_rx api s =
     (if \<not> rx_started s then s
      else case msgq_get api (counter_msgq s) of
             None \<Rightarrow> s
           | Some (f, q) \<Rightarrow> s\<lparr>counter_msgq := q, rx_taken := rx_taken s @ [f],
               node_cc := rx_thread_round (be16_to_cpu api) (accept_rtr api) f (node_cc s)\<rparr>)"

definition step_led_fire :: "'q node_api \<Rightarrow> 'q node \<Rightarrow> 'q node" where
  "step_led_fire api s =
     (if change_led_work s = Led_armed \<and> msgq_get api (change_led_msgq s) \<noteq> None
      then s\<lparr>change_led_work := Led_draining\<rparr> else s)"

definition step_led_get :: "'q node_api \<Rightarrow> 'q node \<Rightarrow> 'q node" where
  "step_led_get api s =
     (if change_led_work s \<noteq> Led_draining then s
      else case msgq_get api (change_led_msgq s) of
             None \<Rightarrow> s\<lparr>change_led_work := Led_rearming\<rparr>
           | Some (f, q) \<Rightarrow> s\<lparr>change_led_msgq := q, node_cc := change_led (accept_rtr api) f (node_cc s)\<rparr>)"

definition step_led_rearm :: "int \<Rightarrow> 'q node \<Rightarrow> 'q node" where
  "step_led_rearm ret s =
     (if change_led_work s \<noteq> Led_rearming then s
      else s\<lparr>change_led_work := (if ret \<noteq> 0 then Led_dead else Led_armed),
             node_cc := led_resubmit ret (node_cc s)\<rparr>)"

definition step_poll :: "int \<times> can_state \<times> can_bus_err_cnt \<Rightarrow> 'q node \<Rightarrow> 'q node" where
  "step_poll answer s =
     (let (v, c) = poll_state_round answer (node_poll s, node_cc s) in s\<lparr>node_poll := v, node_cc := c\<rparr>)"

definition step_state_changed :: "can_state \<Rightarrow> can_bus_err_cnt \<Rightarrow> 'q node \<Rightarrow> 'q node" where
  "step_state_changed state cnt s =
     s\<lparr>node_cc := state_change_callback state cnt (node_cc s), state_work_pending := True\<rparr>"

definition step_state_work :: "'q node \<Rightarrow> 'q node" where
  "step_state_work s =
     (if \<not> state_work_pending s then s
      else s\<lparr>node_cc := state_change_work_handler (node_cc s), state_work_pending := False\<rparr>)"

datatype node_event =
    Main_led
  | Main_counter bool
  | Led_tx_done nat int
  | Foreign can_frame
  | Rx_start int
  | Rx_step
  | Led_fire
  | Led_get
  | Led_rearm int
  | Poll "int \<times> can_state \<times> can_bus_err_cnt"
  | State_changed can_state can_bus_err_cnt
  | State_work

fun node_step :: "'q node_api \<Rightarrow> node_event \<Rightarrow> 'q node \<Rightarrow> 'q node" where
  "node_step api Main_led s = step_main_led s"
| "node_step api (Main_counter sent) s = step_main_counter api sent s"
| "node_step api (Led_tx_done i error) s = step_led_tx api i error s"
| "node_step api (Foreign f) s = receive api f s"
| "node_step api (Rx_start fid) s = step_rx_start fid s"
| "node_step api Rx_step s = step_rx api s"
| "node_step api Led_fire s = step_led_fire api s"
| "node_step api Led_get s = step_led_get api s"
| "node_step api (Led_rearm ret) s = step_led_rearm ret s"
| "node_step api (Poll answer) s = step_poll answer s"
| "node_step api (State_changed state cnt) s = step_state_changed state cnt s"
| "node_step api State_work s = step_state_work s"

lemmas node_step_defs = step_main_led_def step_main_counter_def step_led_tx_def step_rx_start_def step_rx_def
  step_led_fire_def step_led_get_def step_led_rearm_def step_poll_def step_state_changed_def
  step_state_work_def loop_back_def

end
