(* ===== verification/CanCounterSystemProps.thy ===== *)
theory CanCounterSystemProps
  imports CanCounterSystem
begin

text \<open>
  The properties of the running CAN counter system. The kernel's and the driver's promises are
  \<open>node_contract\<close>; the interface \<open>can_node\<close> assumes them and carries the invariant of the system
  (bounded queues, the receiving thread works on what the filter let through, the main loop sends
  the counters in order), which every event keeps.
\<close>

section \<open>What the kernel and the driver promise\<close>

definition node_contract :: "'q node_api \<Rightarrow> ('q \<Rightarrow> can_frame list) \<Rightarrow> bool" where
  "node_contract api contents \<longleftrightarrow>
     msgq_contract (msgq_get api) contents \<and>
     (\<forall>f q. contents (msgq_put api f q) = (if length (contents q) < msgq_depth then contents q @ [f] else contents q)) \<and>
     be16_contract (cpu_to_be16 api) (be16_to_cpu api) \<and>
     (\<forall>flt f. filter_matches api flt f \<longleftrightarrow> (filter_ide flt \<longleftrightarrow> CAN_FRAME_IDE \<in> can_flags f) \<and>
        and (xor (can_id f) (filter_id flt)) (filter_mask flt) = 0)"

lemma node_contractD:
  assumes "node_contract api contents"
  shows "contents (msgq_put api f q) = (if length (contents q) < msgq_depth then contents q @ [f] else contents q)"
    and "be16_contract (cpu_to_be16 api) (be16_to_cpu api)"
    and "filter_matches api flt f \<longleftrightarrow> (filter_ide flt \<longleftrightarrow> CAN_FRAME_IDE \<in> can_flags f) \<and>
        and (xor (can_id f) (filter_id flt)) (filter_mask flt) = 0"
  using assms by (simp_all add: node_contract_def)

lemma node_contract_get:
  assumes "node_contract api contents"
  shows "msgq_get api q = None \<longleftrightarrow> contents q = []"
    and "msgq_get api q = Some (f, q') \<Longrightarrow> contents q = f # contents q'"
  using assms unfolding node_contract_def msgq_contract_def
  by (cases "contents q"; force)+

text \<open>A board whose queues are lists.\<close>

definition list_node :: "can_frame list node_api" where
  "list_node = \<lparr>msgq_get = list_get, msgq_put = (\<lambda>f q. if length q < msgq_depth then q @ [f] else q),
     filter_matches = (\<lambda>flt f. (filter_ide flt \<longleftrightarrow> CAN_FRAME_IDE \<in> can_flags f) \<and>
        and (xor (can_id f) (filter_id flt)) (filter_mask flt) = 0),
     cpu_to_be16 = put_be, be16_to_cpu = get_be, accept_rtr = False\<rparr>"

lemma list_node_contract: "node_contract list_node (\<lambda>q. q)"
  by (simp add: node_contract_def list_node_def be16_ok msgq_contract_def list_get_def)

section \<open>Views of the history\<close>

text \<open>The counters printed, oldest first, from a list of calls with the newest first.\<close>

primrec counters_printed :: "cc_call list \<Rightarrow> u16 list" where
  "counters_printed [] = []"
| "counters_printed (c # cs) = counters_printed cs @ (case c of Counter_received v \<Rightarrow> [v] | _ \<Rightarrow> [])"

definition printed :: "'q node \<Rightarrow> u16 list" where
  "printed s = counters_printed (cc_calls (node_cc s))"

definition counters_sent :: "'q node \<Rightarrow> can_frame list" where
  "counters_sent s = sent_with_id COUNTER_MSG_ID (rev (cc_calls (node_cc s)))"

text \<open>The frames whose value the receiving thread prints.\<close>

definition countable_frame :: "bool \<Rightarrow> can_frame \<Rightarrow> bool" where
  "countable_frame rtr f \<longleftrightarrow> \<not> (rtr \<and> CAN_FRAME_RTR \<in> can_flags f) \<and> can_dlc f = 2"

definition frame_values :: "'q node_api \<Rightarrow> can_frame list \<Rightarrow> u16 list" where
  "frame_values api fs = map (\<lambda>f. be16_to_cpu api (take 2 (can_data f))) (filter (countable_frame (accept_rtr api)) fs)"

lemma frame_values_simps [simp]:
  "frame_values api [] = []" "frame_values api (xs @ ys) = frame_values api xs @ frame_values api ys"
  by (simp_all add: frame_values_def)

lemma frame_values_subseq: "subseq xs ys \<Longrightarrow> subseq (frame_values api xs) (frame_values api ys)"
  unfolding frame_values_def by (intro subseq_map subseq_filter)

lemma frame_values_counters:
  "be16_contract (cpu_to_be16 api) (be16_to_cpu api) \<Longrightarrow>
   frame_values api (map (counter_frame_no (cpu_to_be16 api)) ks) = map of_nat ks"
  by (induction ks) (auto simp: frame_values_def countable_frame_def counter_frame_no_def be16_contract_def)

lemma sent_snoc:
  "sent_with_id i (rev (c # cs)) = sent_with_id i (rev cs) @ (case c of Cc_send f _ \<Rightarrow> if can_id f = i then [f] else [] | _ \<Rightarrow> [])"
  by (simp add: sent_with_id_def)

lemma boot_history:
  assumes "node_boot env led ql qc = Some s"
  shows "printed s = [] \<and> counters_sent s = [] \<and> heard s = [] \<and> rx_taken s = [] \<and> led_tx s = [] \<and>
    node_main s = main_start \<and> change_led_msgq s = ql \<and> counter_msgq s = qc \<and> \<not> rx_started s \<and>
    \<not> counter_filter_on s \<and> self_reception s = loopback env \<and> main_pc s = At_led \<and> change_led_work s = Led_armed"
  using assms
  by (auto simp: node_boot_def cc_main_setup_def cc_led_setup_def Let_def printed_def counters_sent_def emit_def
      cc_init_def sent_with_id_def split: if_splits)

section \<open>The invariant\<close>

definition queues_bounded :: "('q \<Rightarrow> can_frame list) \<Rightarrow> 'q node \<Rightarrow> bool" where
  "queues_bounded contents s \<longleftrightarrow> length (contents (change_led_msgq s)) \<le> msgq_depth \<and>
     length (contents (counter_msgq s)) \<le> msgq_depth"

definition stream_inv :: "'q node_api \<Rightarrow> ('q \<Rightarrow> can_frame list) \<Rightarrow> 'q node \<Rightarrow> bool" where
  "stream_inv api contents s \<longleftrightarrow>
     subseq (rx_taken s @ contents (counter_msgq s)) (heard s) \<and> printed s = frame_values api (rx_taken s)"

definition led_shape :: "can_frame \<Rightarrow> bool" where
  "led_shape f \<longleftrightarrow> can_id f = LED_MSG_ID \<and> CAN_FRAME_IDE \<notin> can_flags f"

definition main_inv :: "'q node_api \<Rightarrow> 'q node \<Rightarrow> bool" where
  "main_inv api s \<longleftrightarrow>
     led_shape (change_led_frame (node_main s)) \<and> (\<forall>f \<in> set (led_tx s). led_shape f) \<and>
     (\<exists>x y. counter_frame (node_main s) = \<lparr>can_id = COUNTER_MSG_ID, can_dlc = 2, can_flags = {CAN_FRAME_IDE},
        can_data = [x, y] @ replicate 6 0\<rparr>) \<and>
     counter (node_main s) = of_nat (length (counters_sent s)) \<and>
     counters_sent s = map (counter_frame_no (cpu_to_be16 api)) [0..<length (counters_sent s)]"

definition node_inv :: "'q node_api \<Rightarrow> ('q \<Rightarrow> can_frame list) \<Rightarrow> 'q node \<Rightarrow> bool" where
  "node_inv api contents s \<longleftrightarrow> queues_bounded contents s \<and> stream_inv api contents s \<and> main_inv api s"

lemma cc_views [simp]:
  "counters_printed (cc_calls (tx_irq_callback error who c)) = counters_printed (cc_calls c)"
  "sent_with_id i (rev (cc_calls (tx_irq_callback error who c))) = sent_with_id i (rev (cc_calls c))"
  "counters_printed (cc_calls (rx_thread_start fid c)) = counters_printed (cc_calls c)"
  "sent_with_id i (rev (cc_calls (rx_thread_start fid c))) = sent_with_id i (rev (cc_calls c))"
  "counters_printed (cc_calls (change_led rtr f c)) = counters_printed (cc_calls c)"
  "sent_with_id i (rev (cc_calls (change_led rtr f c))) = sent_with_id i (rev (cc_calls c))"
  "counters_printed (cc_calls (led_resubmit ret c)) = counters_printed (cc_calls c)"
  "sent_with_id i (rev (cc_calls (led_resubmit ret c))) = sent_with_id i (rev (cc_calls c))"
  "counters_printed (cc_calls (state_change_callback st cnt c)) = counters_printed (cc_calls c)"
  "sent_with_id i (rev (cc_calls (state_change_callback st cnt c))) = sent_with_id i (rev (cc_calls c))"
  "counters_printed (cc_calls (state_change_work_handler c)) = counters_printed (cc_calls c)"
  "sent_with_id i (rev (cc_calls (state_change_work_handler c))) = sent_with_id i (rev (cc_calls c))"
  "counters_printed (cc_calls (snd (poll_state_round answer (v, c)))) = counters_printed (cc_calls c)"
  "sent_with_id i (rev (cc_calls (snd (poll_state_round answer (v, c))))) = sent_with_id i (rev (cc_calls c))"
  "sent_with_id i (rev (cc_calls (rx_thread_round get rtr f c))) = sent_with_id i (rev (cc_calls c))"
  "counters_printed (cc_calls (rx_thread_round get rtr f c)) = counters_printed (cc_calls c) @
     (if countable_frame rtr f then [get (take 2 (can_data f))] else [])"
  "counters_printed (cc_calls (snd (main_send_led (m, c)))) = counters_printed (cc_calls c)"
  "counters_printed (cc_calls (snd (main_send_counter put (m, c)))) = counters_printed (cc_calls c)"
  by (auto simp: tx_irq_callback_def rx_thread_start_def change_led_def led_resubmit_def state_change_callback_def
      state_change_work_handler_def poll_state_round_def rx_thread_round_def main_send_led_def main_send_counter_def
      countable_frame_def Let_def sent_with_id_def split: prod.split)

lemma receive_frame [simp]:
  "node_cc (receive api f s) = node_cc s" "node_main (receive api f s) = node_main s"
  "main_pc (receive api f s) = main_pc s" "led_tx (receive api f s) = led_tx s"
  "rx_taken (receive api f s) = rx_taken s" "rx_started (receive api f s) = rx_started s"
  "counter_filter_on (receive api f s) = counter_filter_on s" "self_reception (receive api f s) = self_reception s"
  "change_led_work (receive api f s) = change_led_work s"
  "printed (receive api f s) = printed s" "counters_sent (receive api f s) = counters_sent s"
  by (simp_all add: receive_def Let_def printed_def counters_sent_def)

lemma receive_heard:
  "heard (receive api f s) = heard s @ (if counter_filter_on s \<and> filter_matches api counter_filter f then [f] else [])"
  by (simp add: receive_def Let_def)

lemma main_inv_cong:
  assumes "node_main t = node_main s" "counters_sent t = counters_sent s" "set (led_tx t) \<subseteq> set (led_tx s)" "main_inv api s"
  shows "main_inv api t"
  using assms unfolding main_inv_def by auto

locale can_node =
  fixes api :: "'q node_api" and contents :: "'q \<Rightarrow> can_frame list"
  assumes contract: "node_contract api contents"
begin

lemmas put = node_contractD(1) [OF contract]
lemmas be16 = node_contractD(2) [OF contract]
lemmas matches = node_contractD(3) [OF contract]
lemmas get_None = node_contract_get(1) [OF contract]
lemmas get_Some = node_contract_get(2) [OF contract]

lemma counter_queue_receive:
  "contents (counter_msgq (receive api f s)) = (if counter_filter_on s \<and> filter_matches api counter_filter f \<and>
      length (contents (counter_msgq s)) < msgq_depth then contents (counter_msgq s) @ [f] else contents (counter_msgq s))"
  by (simp add: receive_def Let_def put)

lemma led_queue_receive:
  "contents (change_led_msgq (receive api f s)) = (if led_filter_on s \<and> filter_matches api change_led_filter f \<and>
      length (contents (change_led_msgq s)) < msgq_depth then contents (change_led_msgq s) @ [f] else contents (change_led_msgq s))"
  by (auto simp: receive_def Let_def put)

lemma receive_inv:
  assumes "node_inv api contents s"
  shows "node_inv api contents (receive api f s)"
proof -
  have "queues_bounded contents (receive api f s)"
    using assms by (auto simp: node_inv_def queues_bounded_def counter_queue_receive led_queue_receive)
  moreover have "stream_inv api contents (receive api f s)"
    using assms subseq_append_le_same_iff
    by (auto simp: node_inv_def stream_inv_def counter_queue_receive receive_heard intro: list_emb_append_mono
        simp flip: append_assoc)
  moreover have "main_inv api (receive api f s)"
    using assms by (auto simp: node_inv_def intro: main_inv_cong)
  ultimately show ?thesis by (simp add: node_inv_def)
qed

lemma loop_back_inv: "node_inv api contents s \<Longrightarrow> node_inv api contents (loop_back api sent f s)"
  by (simp add: loop_back_def receive_inv)

text \<open>Steps that touch neither the queues nor what the receiving thread has seen.\<close>

lemma inv_cong:
  assumes "node_inv api contents s" "change_led_msgq t = change_led_msgq s" "counter_msgq t = counter_msgq s"
    "heard t = heard s" "rx_taken t = rx_taken s" "printed t = printed s" "node_main t = node_main s"
    "counters_sent t = counters_sent s" "set (led_tx t) \<subseteq> set (led_tx s)"
  shows "node_inv api contents t"
  using assms main_inv_cong [of t s api] by (simp add: node_inv_def queues_bounded_def stream_inv_def)

lemma main_led_inv:
  assumes "node_inv api contents s"
  shows "node_inv api contents (step_main_led s)"
proof -
  obtain v c where vc: "main_send_led (node_main s, node_cc s) = (v, c)" by (rule prod.exhaust)
  have led: "led_shape (change_led_frame v)" and rest: "counter_frame v = counter_frame (node_main s)"
      "counter v = counter (node_main s)"
    and calls: "sent_with_id COUNTER_MSG_ID (rev (cc_calls c)) = counters_sent s" "counters_printed (cc_calls c) = printed s"
    using assms vc
    by (auto simp: main_send_led_def Let_def node_inv_def main_inv_def led_shape_def counters_sent_def printed_def
        sent_with_id_def)
  show ?thesis
  proof (cases "main_pc s = At_led")
    case True
    let ?t = "s\<lparr>node_main := v, node_cc := c, main_pc := At_counter, led_tx := led_tx s @ [change_led_frame v]\<rparr>"
    have "counters_sent ?t = counters_sent s" "printed ?t = printed s"
      using calls by (simp_all add: counters_sent_def printed_def)
    then have "node_inv api contents ?t"
      using assms led rest by (simp add: node_inv_def queues_bounded_def stream_inv_def main_inv_def)
    then show ?thesis using vc True by (simp add: step_main_led_def)
  qed (simp add: step_main_led_def assms)
qed

lemma main_send_counter_frame:
  assumes "main_inv api s" "main_send_counter (cpu_to_be16 api) (node_main s, node_cc s) = (v, c)"
  shows "counter_frame v = counter_frame_no (cpu_to_be16 api) (length (counters_sent s))"
    and "counter v = of_nat (Suc (length (counters_sent s)))"
    and "change_led_frame v = change_led_frame (node_main s)"
    and "cc_calls c = Cc_sleep SLEEP_TIME # Cc_send (counter_frame v) (Some 100) # cc_calls (node_cc s)"
  using assms by (auto simp: main_send_counter_def Let_def main_inv_def counter_frame_no_def)

lemma main_counter_inv:
  assumes "node_inv api contents s"
  shows "node_inv api contents (step_main_counter api sent s)"
proof (cases "main_pc s = At_counter")
  case True
  obtain v c where vc: "main_send_counter (cpu_to_be16 api) (node_main s, node_cc s) = (v, c)" by (rule prod.exhaust)
  let ?n = "length (counters_sent s)"
  let ?t = "s\<lparr>node_main := v, node_cc := c, main_pc := At_led\<rparr>"
  from assms have m: "main_inv api s" by (simp add: node_inv_def)
  note frame = main_send_counter_frame [OF m vc]
  have sent: "counters_sent ?t = counters_sent s @ [counter_frame_no (cpu_to_be16 api) ?n]"
    by (simp add: counters_sent_def frame(4) sent_with_id_def)
      (simp add: frame(1) counter_frame_no_def counters_sent_def sent_with_id_def)
  have printed: "printed ?t = printed s" by (simp add: printed_def frame(4))
  obtain x y where xy: "cpu_to_be16 api (of_nat ?n) = [x, y]"
  proof -
    have "length (cpu_to_be16 api (of_nat ?n)) = 2" using be16 by (simp add: be16_contract_def)
    then show ?thesis using that by (auto simp: numeral_2_eq_2 length_Suc_conv)
  qed
  have "counters_sent s = map (counter_frame_no (cpu_to_be16 api)) [0..<?n]" using m by (simp add: main_inv_def)
  then have "main_inv api ?t"
    using m xy unfolding main_inv_def sent by (auto simp: frame(1-3) counter_frame_no_def)
  then have "node_inv api contents ?t"
    using assms printed by (simp add: node_inv_def queues_bounded_def stream_inv_def)
  then show ?thesis using True vc by (simp add: step_main_counter_def loop_back_inv)
qed (simp add: step_main_counter_def assms)

lemma rx_inv:
  assumes "node_inv api contents s"
  shows "node_inv api contents (step_rx api s)"
proof (cases "msgq_get api (counter_msgq s)")
  case (Some a)
  obtain f q where a: "a = (f, q)" by (rule prod.exhaust)
  with Some have "contents (counter_msgq s) = f # contents q" by (simp add: get_Some)
  then show ?thesis
    using assms Some a
    by (auto simp: step_rx_def node_inv_def queues_bounded_def stream_inv_def printed_def frame_values_def
        main_inv_def counters_sent_def)
qed (simp add: step_rx_def assms)

lemma led_get_inv:
  assumes "node_inv api contents s"
  shows "node_inv api contents (step_led_get api s)"
proof (cases "msgq_get api (change_led_msgq s)")
  case None
  then show ?thesis by (auto simp: step_led_get_def printed_def counters_sent_def assms intro: inv_cong [OF assms])
next
  case (Some a)
  obtain f q where a: "a = (f, q)" by (rule prod.exhaust)
  with Some have "contents (change_led_msgq s) = f # contents q" by (simp add: get_Some)
  then show ?thesis
    using assms Some a
    by (auto simp: step_led_get_def node_inv_def queues_bounded_def stream_inv_def printed_def
        main_inv_def counters_sent_def)
qed

lemma step_inv: "node_inv api contents s \<Longrightarrow> node_inv api contents (node_step api e s)"
proof (cases e)
  case (Led_tx_done i error)
  assume inv: "node_inv api contents s"
  have "node_inv api contents (s\<lparr>led_tx := take i (led_tx s) @ drop (Suc i) (led_tx s),
           node_cc := tx_irq_callback error ''LED change'' (node_cc s)\<rparr>)"
    using inv by (rule inv_cong) (auto simp: printed_def counters_sent_def dest: in_set_takeD in_set_dropD)
  then show ?thesis using Led_tx_done inv by (simp add: step_led_tx_def loop_back_inv)
qed (auto simp: main_led_inv main_counter_inv rx_inv led_get_inv receive_inv step_rx_start_def step_led_fire_def
    step_led_rearm_def step_poll_def case_prod_beta step_state_changed_def step_state_work_def printed_def counters_sent_def
    elim!: inv_cong)

sublocale node: machine "node_step api" "node_inv api contents"
  by unfold_locales (rule step_inv)

lemma boot_inv:
  assumes "node_boot env led ql qc = Some s" "contents ql = []" "contents qc = []"
  shows "node_inv api contents s"
  using boot_history [OF assms(1)] assms(2,3)
  by (auto simp: node_inv_def queues_bounded_def stream_inv_def main_inv_def main_start_def led_shape_def numeral_eq_Suc)

lemmas reachable_inv = node.run_inv [OF boot_inv]

end

interpretation list_node: can_node list_node "\<lambda>q. q"
  by unfold_locales (rule list_node_contract)

section \<open>What the receiving thread prints\<close>

text \<open>The counter frames of other boards in a run.\<close>

primrec foreign_counters :: "'q node_api \<Rightarrow> node_event list \<Rightarrow> can_frame list" where
  "foreign_counters api [] = []"
| "foreign_counters api (e # es) = (case e of
     Foreign f \<Rightarrow> if filter_matches api counter_filter f then [f] else [] | _ \<Rightarrow> []) @ foreign_counters api es"

lemma foreign_counters_none:
  "foreign_counters api es = [] \<Longrightarrow> Foreign f \<in> set es \<Longrightarrow> \<not> filter_matches api counter_filter f"
  by (induction es) (auto split: node_event.splits if_splits)

context can_node
begin

lemma led_not_counter: "led_shape f \<Longrightarrow> \<not> filter_matches api counter_filter f"
  by (simp add: matches counter_filter_def led_shape_def)

lemma counter_matches: "filter_matches api counter_filter (counter_frame_no put k)"
  by (simp add: matches counter_filter_def counter_frame_no_def)

lemma main_send_led_sent:
  assumes "main_inv api s"
  shows "sent_with_id COUNTER_MSG_ID (rev (cc_calls (snd (main_send_led (node_main s, node_cc s))))) = counters_sent s"
  using assms by (auto simp: main_send_led_def Let_def main_inv_def led_shape_def counters_sent_def sent_with_id_def)

abbreviation next_counter :: "'q node \<Rightarrow> can_frame" where
  "next_counter s \<equiv> counter_frame_no (cpu_to_be16 api) (length (counters_sent s))"

lemma main_send_counter_sent:
  assumes "main_inv api s"
  shows "sent_with_id COUNTER_MSG_ID (rev (cc_calls (snd (main_send_counter (cpu_to_be16 api) (node_main s, node_cc s))))) =
      counters_sent s @ [next_counter s]"
    and "counter_frame (fst (main_send_counter (cpu_to_be16 api) (node_main s, node_cc s))) = next_counter s"
proof -
  obtain w d where ctr: "main_send_counter (cpu_to_be16 api) (node_main s, node_cc s) = (w, d)" by (rule prod.exhaust)
  note frame = main_send_counter_frame [OF assms ctr]
  show "sent_with_id COUNTER_MSG_ID (rev (cc_calls (snd (main_send_counter (cpu_to_be16 api) (node_main s, node_cc s))))) =
      counters_sent s @ [next_counter s]"
    by (simp add: ctr frame(4) sent_with_id_def) (simp add: frame(1) counter_frame_no_def counters_sent_def sent_with_id_def)
  show "counter_frame (fst (main_send_counter (cpu_to_be16 api) (node_main s, node_cc s))) = next_counter s"
    by (simp add: ctr frame(1))
qed

lemma step_heard:
  assumes "main_inv api s"
  shows "heard (node_step api e s) = heard s @ (case e of
      Main_counter sent \<Rightarrow> if main_pc s = At_counter \<and> sent \<and> self_reception s \<and> counter_filter_on s
        then [next_counter s] else []
    | Foreign f \<Rightarrow> if counter_filter_on s \<and> filter_matches api counter_filter f then [f] else []
    | _ \<Rightarrow> [])"
proof -
  have "\<not> filter_matches api counter_filter (led_tx s ! i)" if "i < length (led_tx s)" for i
    using assms that led_not_counter nth_mem unfolding main_inv_def by blast
  then show ?thesis
    using main_send_counter_sent(2) [OF assms]
    by (cases e) (auto simp: node_step_defs case_prod_beta receive_heard counter_matches split: option.split)
qed

lemma step_sent:
  assumes "main_inv api s"
  shows "counters_sent (node_step api e s) = counters_sent s @
    (case e of Main_counter sent \<Rightarrow> if main_pc s = At_counter then [next_counter s] else [] | _ \<Rightarrow> [])"
  using main_send_led_sent [OF assms] main_send_counter_sent(1) [OF assms]
  by (cases e) (auto simp: node_step_defs case_prod_beta counters_sent_def split: option.split)

lemma step_switches:
  "self_reception (node_step api e s) = self_reception s"
  "counter_filter_on (node_step api e s) = (case e of
      Rx_start fid \<Rightarrow> if rx_started s then counter_filter_on s else 0 \<le> fid | _ \<Rightarrow> counter_filter_on s)"
  "rx_started (node_step api e s) = (case e of Rx_start fid \<Rightarrow> True | _ \<Rightarrow> rx_started s)"
  by (cases e; auto simp: node_step_defs case_prod_beta split: option.split)+

lemma inv_main: "node_inv api contents s \<Longrightarrow> main_inv api s"
  by (simp add: node_inv_def)

lemma own_frames_heard:
  assumes "node_inv api contents s" "subseq (heard s) (counters_sent s)" "foreign_counters api es = []"
  shows "subseq (heard (run (node_step api) es s)) (counters_sent (run (node_step api) es s))"
  using assms
proof (induction es arbitrary: s)
  case (Cons e es)
  have "subseq (heard (node_step api e s)) (counters_sent (node_step api e s))"
    unfolding step_heard [OF inv_main [OF Cons.prems(1)]] step_sent [OF inv_main [OF Cons.prems(1)]]
    using Cons.prems by (cases e) (auto intro: list_emb_append_mono list_emb_prefix split: if_splits)
  with Cons show ?case by (simp add: step_inv del: node_step.simps)
qed simp

lemma foreign_frames_heard:
  assumes "node_inv api contents s" "\<not> self_reception s"
  shows "subseq (heard (run (node_step api) es s)) (heard s @ foreign_counters api es)"
  using assms
proof (induction es arbitrary: s)
  case (Cons e es)
  let ?t = "node_step api e s"
  have "subseq (heard (run (node_step api) es ?t)) (heard ?t @ foreign_counters api es)"
    using Cons by (simp add: step_inv step_switches del: node_step.simps)
  moreover have "subseq (heard ?t) (heard s @ foreign_counters api [e])"
    unfolding step_heard [OF inv_main [OF Cons.prems(1)]] using Cons.prems
    by (cases e) (auto intro: list_emb_prefix)
  then have "subseq (heard ?t @ foreign_counters api es) (heard s @ foreign_counters api (e # es))"
    using list_emb_append_mono [of "(=)" "heard ?t" "heard s @ foreign_counters api [e]" "foreign_counters api es"] by simp
  ultimately show ?case by (simp del: foreign_counters.simps)
qed simp

lemma printed_from_heard:
  assumes "node_inv api contents s"
  shows "subseq (printed s) (frame_values api (heard s))"
proof -
  have "subseq (rx_taken s @ contents (counter_msgq s)) (heard s)" and p: "printed s = frame_values api (rx_taken s)"
    using assms by (simp_all add: node_inv_def stream_inv_def)
  moreover have "subseq (rx_taken s) (rx_taken s @ contents (counter_msgq s))" by (simp add: list_emb_prefix)
  ultimately have "subseq (rx_taken s) (heard s)" by (meson subseq_order.trans)
  then show ?thesis unfolding p by (rule frame_values_subseq)
qed

end

text \<open>C4: a board in loopback mode prints its own counters. Whatever the order in which the main
  loop, the receiving thread, the work items, the polling thread and the callbacks run, and whatever frames
  other boards send with other identifiers: the counters printed are some of those sent, in the order sent, none twice and
  none made up (a frame can be lost, when the queue is full or the bus fails), and
  neither queue ever holds more than two frames.\<close>

theorem loopback_prints_own_counters:
  assumes "node_contract api contents" and "node_boot env led ql qc = Some s0" and "contents ql = []" and "contents qc = []"
    and "loopback env" and "foreign_counters api es = []"
  shows "let s = run (node_step api) es s0 in
    subseq (printed s) (map of_nat [0..<length (counters_sent s)]) \<and>
    length (contents (counter_msgq s)) \<le> 2 \<and> length (contents (change_led_msgq s)) \<le> 2"
proof -
  from assms(1) have cn: "can_node api contents" by unfold_locales
  let ?s = "run (node_step api) es s0"
  have inv0: "node_inv api contents s0" by (rule can_node.boot_inv [OF cn assms(2-4)])
  have inv: "node_inv api contents ?s" by (rule can_node.reachable_inv [OF cn assms(2-4)])
  have "subseq (heard ?s) (counters_sent ?s)"
    by (rule can_node.own_frames_heard [OF cn inv0]) (use boot_history [OF assms(2)] assms(6) in simp_all)
  then have "subseq (printed ?s) (frame_values api (counters_sent ?s))"
    using can_node.printed_from_heard [OF cn inv] frame_values_subseq by (blast intro: subseq_order.trans)
  moreover have "counters_sent ?s = map (counter_frame_no (cpu_to_be16 api)) [0..<length (counters_sent ?s)]"
    using inv by (simp add: node_inv_def main_inv_def)
  then have "frame_values api (counters_sent ?s) = map of_nat [0..<length (counters_sent ?s)]"
    using frame_values_counters [OF node_contractD(2) [OF assms(1)]] by metis
  ultimately show ?thesis
    using inv by (simp add: node_inv_def queues_bounded_def msgq_depth_def Let_def)
qed

definition cc_demo_env :: "bool \<Rightarrow> cc_env" where
  "cc_demo_env loop = \<lparr>env_ready = True, loopback = loop, set_mode_ret = 0, start_ret = 0, led_ready = True,
     led_config_ret = 0, add_filter_ret = 0, submit_ret = 0\<rparr>"

definition cc_demo_node :: "bool \<Rightarrow> can_frame list node" where
  "cc_demo_node loop = the (node_boot (cc_demo_env loop) True [] [])"

lemma cc_demo_boot: "node_boot (cc_demo_env loop) True [] [] = Some (cc_demo_node loop)"
  by (simp add: cc_demo_node_def node_boot_def cc_main_setup_def cc_led_setup_def cc_demo_env_def cc_init_def Let_def)

definition cc_demo_events :: "node_event list" where
  "cc_demo_events = [Main_led, Rx_start 0, Led_tx_done 0 0, Main_counter True, Led_fire, Led_get, Rx_step,
     Main_led, Led_get, Main_counter True, Led_rearm 0]"

theorem loopback_prints_own_counters_witness:
  "let s = run (node_step list_node) cc_demo_events (cc_demo_node True) in
     subseq (printed s) (map of_nat [0..<length (counters_sent s)])"
proof -
  have "foreign_counters list_node cc_demo_events = []" by (simp add: cc_demo_events_def)
  moreover have "loopback (cc_demo_env True)" by (simp add: cc_demo_env_def)
  ultimately show ?thesis
    using loopback_prints_own_counters [OF list_node_contract cc_demo_boot [of True]] by (simp add: Let_def)
qed

text \<open>C12: two boards exchange counters. One board runs \<open>n\<close> rounds of its main loop, the other is not in
  loopback mode and hears some of the first one's counter frames, in the order sent, between any
  other events of its own: the counters it prints are some of \<open>0, 1, \<dots>, n - 1\<close> (modulo 65536) in
  this order.\<close>

theorem boards_exchange_counters:
  assumes "node_contract api contents" and "node_boot env led ql qc = Some s0" and "contents ql = []" and "contents qc = []"
    and "\<not> loopback env"
    and "(v, peer') = rounds (cpu_to_be16 api) n (main_start, peer)" and "cc_calls peer = []"
    and "subseq (foreign_counters api es) (sent_with_id COUNTER_MSG_ID (rev (cc_calls peer')))"
  shows "subseq (printed (run (node_step api) es s0)) (map of_nat [0..<n])"
proof -
  from assms(1) have cn: "can_node api contents" by unfold_locales
  note be16 = node_contractD(2) [OF assms(1)]
  let ?s = "run (node_step api) es s0"
  have inv0: "node_inv api contents s0" by (rule can_node.boot_inv [OF cn assms(2-4)])
  have inv: "node_inv api contents ?s" by (rule can_node.reachable_inv [OF cn assms(2-4)])
  have "subseq (heard ?s) (foreign_counters api es)"
    using can_node.foreign_frames_heard [OF cn inv0, of es] boot_history [OF assms(2)] assms(5) by simp
  also have "subseq (foreign_counters api es) (map (counter_frame_no (cpu_to_be16 api)) [0..<n])"
    using assms(8) rounds_eq [OF be16 assms(6)] assms(7) by (simp add: sent_in_rounds)
  finally have "subseq (frame_values api (heard ?s)) (frame_values api (map (counter_frame_no (cpu_to_be16 api)) [0..<n]))"
    by (rule frame_values_subseq)
  then show ?thesis
    using can_node.printed_from_heard [OF cn inv] frame_values_counters [OF be16] by (metis subseq_order.trans)
qed

theorem boards_exchange_counters_witness:
  "\<exists>v peer'. (v, peer') = rounds put_be 2 (main_start, cc_init True) \<and>
     subseq (printed (run (node_step list_node) [Rx_start 0, Foreign (counter_frame_no put_be 1), Rx_step] (cc_demo_node False))) [0, 1]"
proof -
  obtain v peer' where r: "(v, peer') = rounds put_be 2 (main_start, cc_init True)" by (metis surj_pair)
  have peer: "cc_calls (cc_init True) = []" by (simp add: cc_init_def)
  have "sent_with_id COUNTER_MSG_ID (rev (cc_calls peer')) = map (counter_frame_no put_be) [0..<2]"
    using rounds_eq [OF be16_ok r] peer by (simp add: sent_in_rounds)
  then have sub: "subseq (foreign_counters list_node [Rx_start 0, Foreign (counter_frame_no put_be 1), Rx_step])
      (sent_with_id COUNTER_MSG_ID (rev (cc_calls peer')))"
    by (simp add: upt_rec list_node.counter_matches)
  have "cpu_to_be16 list_node = put_be" "\<not> loopback (cc_demo_env False)" by (simp_all add: list_node_def cc_demo_env_def)
  then have "subseq (printed (run (node_step list_node) [Rx_start 0, Foreign (counter_frame_no put_be 1), Rx_step] (cc_demo_node False))) (map of_nat [0..<2])"
    using boards_exchange_counters [OF list_node_contract cc_demo_boot [of False] refl refl _ _ peer sub, of v 2] r by simp
  then show ?thesis using r by (auto simp: upt_rec)
qed

text \<open>The receiving thread keeps up: it is started with its filter before the first counter, each send succeeds, and it
  never has more than two frames waiting.\<close>

fun keeps_up :: "bool \<Rightarrow> nat \<Rightarrow> node_event list \<Rightarrow> bool" where
  "keeps_up on w [] = True"
| "keeps_up on w (Rx_start fid # es) = (0 \<le> fid \<and> keeps_up True w es)"
| "keeps_up on w (Main_counter sent # es) = (on \<and> sent \<and> w < msgq_depth \<and> keeps_up on (Suc w) es)"
| "keeps_up on w (Rx_step # es) = keeps_up on (if on then w - 1 else w) es"
| "keeps_up on w (e # es) = keeps_up on w es"

definition all_taken :: "('q \<Rightarrow> can_frame list) \<Rightarrow> bool \<Rightarrow> nat \<Rightarrow> 'q node \<Rightarrow> bool" where
  "all_taken contents on w s \<longleftrightarrow> rx_started s = on \<and> counter_filter_on s = on \<and> self_reception s \<and>
     length (contents (counter_msgq s)) \<le> w \<and> (\<not> on \<longrightarrow> contents (counter_msgq s) = []) \<and> heard s = counters_sent s \<and>
     rx_taken s @ contents (counter_msgq s) = heard s"

context can_node
begin

lemma counter_queue_frame:
  assumes "\<And>sent. e \<noteq> Main_counter sent" "e \<noteq> Rx_step" "foreign_counters api [e] = []" "node_inv api contents s"
  shows "contents (counter_msgq (node_step api e s)) = contents (counter_msgq s) \<and> rx_taken (node_step api e s) = rx_taken s"
proof -
  have "\<not> filter_matches api counter_filter (led_tx s ! i)" if "i < length (led_tx s)" for i
    using assms(4) that led_not_counter nth_mem unfolding main_inv_def node_inv_def by blast
  then show ?thesis
    using assms by (cases e) (auto simp: node_step_defs case_prod_beta counter_queue_receive split: option.split if_splits)
qed

lemma all_taken_step:
  assumes "node_inv api contents s" "all_taken contents on w s" "keeps_up on w (e # es)" "foreign_counters api [e] = []"
  shows "\<exists>on' w'. all_taken contents on' w' (node_step api e s) \<and> keeps_up on' w' es"
proof (cases "(\<exists>sent. e = Main_counter sent) \<or> e = Rx_step")
  case False
  have "all_taken contents (on \<or> (\<exists>fid. e = Rx_start fid)) w (node_step api e s)"
    using assms False counter_queue_frame [of e s] unfolding all_taken_def step_heard [OF inv_main [OF assms(1)]]
      step_sent [OF inv_main [OF assms(1)]] step_switches
    by (cases e) (auto split: if_splits)
  moreover have "keeps_up (on \<or> (\<exists>fid. e = Rx_start fid)) w es" using assms(3) False by (cases e) auto
  ultimately show ?thesis by blast
next
  case True
  then consider (send) sent where "e = Main_counter sent" | (rx) "e = Rx_step" by blast
  then show ?thesis
  proof cases
    case send
    have h: "heard (node_step api e s) = counters_sent (node_step api e s)"
      using assms(2,3) send unfolding step_heard [OF inv_main [OF assms(1)]] step_sent [OF inv_main [OF assms(1)]]
      by (auto simp: all_taken_def)
    have "all_taken contents on (Suc w) (node_step api e s)"
      using assms(2,3) send h step_heard [OF inv_main [OF assms(1)], of e] step_switches [of e s] main_send_counter_sent(2) [OF inv_main [OF assms(1)]]
      by (auto simp: all_taken_def step_main_counter_def case_prod_beta loop_back_def counter_queue_receive counter_matches)
    moreover have "keeps_up on (Suc w) es" using assms(3) unfolding send keeps_up.simps by blast
    ultimately show ?thesis by blast
  next
    case rx
    have "all_taken contents on (if on then w - 1 else w) (node_step api e s)"
      using assms(2) rx get_Some [of "counter_msgq s"] get_None [of "counter_msgq s"] step_heard [OF inv_main [OF assms(1)], of e] step_switches [of e s]
        step_sent [OF inv_main [OF assms(1)], of e]
      by (cases "msgq_get api (counter_msgq s)") (auto simp: all_taken_def step_rx_def)
    then show ?thesis using assms(3) rx by auto
  qed
qed

lemma all_taken_run:
  assumes "node_inv api contents s" "all_taken contents on w s" "keeps_up on w es" "foreign_counters api es = []"
  shows "\<exists>on' w'. all_taken contents on' w' (run (node_step api) es s)"
  using assms
proof (induction es arbitrary: s on w)
  case (Cons e es)
  have "foreign_counters api [e] = []" "foreign_counters api es = []" using Cons.prems(4) by simp_all
  with all_taken_step [OF Cons.prems(1-3)] Cons.IH [OF step_inv [OF Cons.prems(1)]] show ?case by auto
qed auto

lemma rx_empties:
  assumes "node_inv api contents s" "all_taken contents on w s"
  shows "contents (counter_msgq (step_rx api (step_rx api s))) = []"
proof -
  have len: "length (contents (counter_msgq s)) \<le> 2" using assms(1) by (simp add: node_inv_def queues_bounded_def msgq_depth_def)
  have one: "contents (counter_msgq (step_rx api t)) = tl (contents (counter_msgq t)) \<and> rx_started (step_rx api t)" if "rx_started t" for t
    using that get_None [of "counter_msgq t"] get_Some [of "counter_msgq t"] by (auto simp: step_rx_def split: option.split)
  show ?thesis
  proof (cases "rx_started s")
    case True
    have "contents (counter_msgq (step_rx api (step_rx api s))) = tl (tl (contents (counter_msgq s)))"
      using one [OF True] one [of "step_rx api s"] by simp
    moreover have "tl (tl (contents (counter_msgq s))) = []"
      using len by (cases "contents (counter_msgq s)"; cases "tl (contents (counter_msgq s))") auto
    ultimately show ?thesis by simp
  qed (use assms(2) in \<open>simp add: step_rx_def all_taken_def\<close>)
qed

end

text \<open>C5: nothing is lost when the receiving thread keeps up. In loopback mode, if the thread has installed its filter before the
  first counter is sent, every send succeeds and never more than two frames wait, then once the queue has been
  emptied the thread has printed exactly \<open>0, 1, 2, \<dots>\<close>, every counter the main loop has sent.\<close>

theorem prompt_receiver_prints_all:
  assumes "node_contract api contents" and "node_boot env led ql qc = Some s0" and "contents ql = []" and "contents qc = []"
    and "loopback env" and "foreign_counters api es = []" and "keeps_up False 0 es"
  shows "let s = run (node_step api) (es @ [Rx_step, Rx_step]) s0
    in printed s = map of_nat [0..<length (counters_sent s)]"
proof -
  from assms(1) have cn: "can_node api contents" by unfold_locales
  let ?t = "run (node_step api) es s0"
  let ?s = "run (node_step api) (es @ [Rx_step, Rx_step]) s0"
  have two: "foreign_counters api [Rx_step, Rx_step] = []" "keeps_up on w [Rx_step, Rx_step]" for on w by simp_all
  have inv0: "node_inv api contents s0" by (rule can_node.boot_inv [OF cn assms(2-4)])
  have inv: "node_inv api contents ?t" "node_inv api contents ?s"
    by (rule can_node.reachable_inv [OF cn assms(2-4)])+
  have "all_taken contents False 0 s0"
    using boot_history [OF assms(2)] assms(4,5) by (simp add: all_taken_def)
  then obtain on w where t: "all_taken contents on w ?t"
    using can_node.all_taken_run [OF cn inv0 _ assms(7,6)] by blast
  then obtain on' w' where s: "all_taken contents on' w' ?s"
    using can_node.all_taken_run [OF cn inv(1) t two(2,1)] by auto
  have "contents (counter_msgq ?s) = []" using can_node.rx_empties [OF cn inv(1) t] by simp
  then have "rx_taken ?s = counters_sent ?s" using s by (simp add: all_taken_def)
  then have "printed ?s = frame_values api (map (counter_frame_no (cpu_to_be16 api)) [0..<length (counters_sent ?s)])"
    using inv(2) by (simp add: node_inv_def stream_inv_def main_inv_def)
  then show ?thesis
    using frame_values_counters [OF node_contractD(2) [OF assms(1)]] by (simp only: Let_def)
qed

theorem prompt_receiver_prints_all_witness:
  "let s = run (node_step list_node) (cc_demo_events @ [Rx_step, Rx_step]) (cc_demo_node True)
   in printed s = map of_nat [0..<length (counters_sent s)]"
proof -
  have "foreign_counters list_node cc_demo_events = []" "keeps_up False 0 cc_demo_events"
    by (simp_all add: cc_demo_events_def msgq_depth_def)
  moreover have "loopback (cc_demo_env True)" by (simp add: cc_demo_env_def)
  ultimately show ?thesis
    using prompt_receiver_prints_all [OF list_node_contract cc_demo_boot [of True] refl refl] by blast
qed

section \<open>The LED\<close>

text \<open>The LED commands carried out (on the pin or on the console), oldest first.\<close>

primrec led_orders :: "cc_call list \<Rightarrow> bool list" where
  "led_orders [] = []"
| "led_orders (c # cs) = led_orders cs @ (case c of Led_set b \<Rightarrow> [b] | Led_log b \<Rightarrow> [b] | _ \<Rightarrow> [])"

definition led_done :: "'q node \<Rightarrow> bool list" where
  "led_done s = led_orders (cc_calls (node_cc s))"

definition led_asked :: "'q node_api \<Rightarrow> can_frame list \<Rightarrow> bool list" where
  "led_asked api fs = map (\<lambda>f. can_data f ! 0 = SET_LED) (obeyed (accept_rtr api) fs)"

lemma change_led_orders:
  "led_orders (cc_calls (change_led rtr f c)) = led_orders (cc_calls c) @ map (\<lambda>f. can_data f ! 0 = SET_LED) (obeyed rtr [f])"
  by (simp add: change_led_def obeyed_def)

lemma led_resubmit_orders [simp]: "led_orders (cc_calls (led_resubmit ret c)) = led_orders (cc_calls c)"
  by (simp add: led_resubmit_def Let_def)

text \<open>One run of the work item: it fires, takes up to \<open>n\<close> looks at its queue and resubmits itself.\<close>

definition led_work_run :: "nat \<Rightarrow> node_event list" where
  "led_work_run n = Led_fire # replicate n Led_get @ [Led_rearm 0]"

lemma led_get_idle: "change_led_work s \<noteq> Led_draining \<Longrightarrow> run (node_step api) (replicate n Led_get) s = s"
  by (induction n) (simp_all add: step_led_get_def)

context can_node
begin

lemma led_get_all:
  assumes "change_led_work s = Led_draining" "contents (change_led_msgq s) = fs" "length fs < n"
  shows "let t = run (node_step api) (replicate n Led_get) s in
    change_led_work t = Led_rearming \<and> contents (change_led_msgq t) = [] \<and> led_done t = led_done s @ led_asked api fs"
  using assms
proof (induction fs arbitrary: s n)
  case Nil
  then obtain m where "n = Suc m" by (cases n) auto
  then show ?case
    using Nil get_None [of "change_led_msgq s"]
    by (simp add: step_led_get_def led_get_idle led_done_def led_asked_def obeyed_def)
next
  case (Cons f fs)
  then obtain m where n: "n = Suc m" "length fs < m" by (cases n) auto
  obtain q where q: "msgq_get api (change_led_msgq s) = Some (f, q)" "contents q = fs"
  proof (cases "msgq_get api (change_led_msgq s)")
    case None
    then show ?thesis using get_None [of "change_led_msgq s"] Cons.prems(2) by simp
  next
    case (Some a)
    obtain g r where a: "a = (g, r)" by (rule prod.exhaust)
    with Some have "contents (change_led_msgq s) = g # contents r" by (simp add: get_Some)
    then show ?thesis using that [of r] Some a Cons.prems(2) by simp
  qed
  let ?t = "step_led_get api s"
  have "change_led_work ?t = Led_draining" "contents (change_led_msgq ?t) = fs"
    and orders: "led_done ?t = led_done s @ led_asked api [f]"
    using Cons.prems(1) q by (simp_all add: step_led_get_def led_done_def led_asked_def change_led_orders)
  from Cons.IH [OF this(1,2) n(2)] orders show ?case
    by (simp add: n(1) Let_def led_asked_def obeyed_def)
qed

lemma led_work_run_drains:
  assumes "change_led_work s \<noteq> Led_dead" "length (contents (change_led_msgq s)) < n"
  shows "let t = run (node_step api) (led_work_run n) s in
    change_led_work t = Led_armed \<and>
    (if change_led_work s = Led_rearming
     then contents (change_led_msgq t) = contents (change_led_msgq s) \<and> led_done t = led_done s
     else contents (change_led_msgq t) = [] \<and> led_done t = led_done s @ led_asked api (contents (change_led_msgq s)))"
proof (cases "change_led_work s = Led_draining \<or> (change_led_work s = Led_armed \<and> contents (change_led_msgq s) \<noteq> [])")
  case True
  have fired: "change_led_work (step_led_fire api s) = Led_draining" "change_led_msgq (step_led_fire api s) = change_led_msgq s"
    "led_done (step_led_fire api s) = led_done s" "change_led_work s \<noteq> Led_rearming"
    using True get_None [of "change_led_msgq s"] by (auto simp: step_led_fire_def led_done_def)
  from led_get_all [OF fired(1) refl, of n] assms(2) fired(2-4) show ?thesis
    by (simp add: led_work_run_def Let_def step_led_rearm_def led_done_def)
next
  case False
  then have "change_led_work s = Led_rearming \<or> (change_led_work s = Led_armed \<and> contents (change_led_msgq s) = [])"
    using assms(1) by (cases "change_led_work s") auto
  then show ?thesis
    using get_None [of "change_led_msgq s"]
    by (auto simp: led_work_run_def Let_def step_led_fire_def led_get_idle step_led_rearm_def led_done_def led_asked_def obeyed_def)
qed

end

text \<open>C10: no wake-up of the LED handler is lost. Frames may arrive at any moment, also between the
  handler's last look at its queue and its resubmission. In every state a run can reach, unless a resubmission has failed, two runs of
  the work item (the one that may be under way, and one more) with three looks at the queue each leave
  the queue empty and the handler waiting for the next frame, and carry out every command that was queued, in order.\<close>

theorem led_wakeup_never_lost:
  assumes "node_contract api contents" and "node_boot env led ql qc = Some s0" and "contents ql = []" and "contents qc = []"
    and "s = run (node_step api) es s0" and "change_led_work s \<noteq> Led_dead"
  shows "let t = run (node_step api) (led_work_run 3 @ led_work_run 3) s in
    change_led_work t = Led_armed \<and> contents (change_led_msgq t) = [] \<and>
    led_done t = led_done s @ led_asked api (contents (change_led_msgq s))"
proof -
  from assms(1) have cn: "can_node api contents" by unfold_locales
  have "node_inv api contents s" unfolding assms(5) by (rule can_node.reachable_inv [OF cn assms(2-4)])
  then have len: "length (contents (change_led_msgq s)) < 3" by (simp add: node_inv_def queues_bounded_def msgq_depth_def)
  let ?u = "run (node_step api) (led_work_run 3) s"
  note first = can_node.led_work_run_drains [OF cn assms(6) len, unfolded Let_def]
  have "change_led_work ?u \<noteq> Led_dead" "length (contents (change_led_msgq ?u)) < 3"
    using first len by (auto split: if_splits)
  from can_node.led_work_run_drains [OF cn this] first show ?thesis
    by (auto simp: Let_def led_asked_def obeyed_def split: if_splits)
qed

lemma led_dead_only_after_failure:
  assumes "change_led_work s \<noteq> Led_dead" "\<And>ret. Led_rearm ret \<in> set es \<Longrightarrow> ret = 0"
  shows "change_led_work (run (node_step api) es s) \<noteq> Led_dead"
  using assms(1)
proof (rule run_inv_events)
  fix e and s :: "'a node"
  assume h: "e \<in> set es" "change_led_work s \<noteq> Led_dead"
  show "change_led_work (node_step api e s) \<noteq> Led_dead"
    by (cases e) (use h assms(2) in \<open>auto simp: node_step_defs case_prod_beta split: option.split\<close>)
qed

theorem led_wakeup_never_lost_witness:
  "let s = run (node_step list_node) cc_demo_events (cc_demo_node True);
       t = run (node_step list_node) (led_work_run 3 @ led_work_run 3) s
   in change_led_work t = Led_armed \<and> change_led_msgq t = [] \<and> led_done t = led_done s @ led_asked list_node (change_led_msgq s)"
proof -
  have "change_led_work (run (node_step list_node) cc_demo_events (cc_demo_node True)) \<noteq> Led_dead"
    by (rule led_dead_only_after_failure) (use boot_history [OF cc_demo_boot [of True]] in \<open>auto simp: cc_demo_events_def\<close>)
  from led_wakeup_never_lost [OF list_node_contract cc_demo_boot [of True] refl refl refl this] show ?thesis
    by (simp add: Let_def)
qed

text \<open>After a failed resubmission the handler never runs again.\<close>

lemma led_dead_forever:
  assumes "change_led_work s = Led_dead"
  shows "change_led_work (run (node_step api) es s) = Led_dead \<and> led_done (run (node_step api) es s) = led_done s"
proof -
  have orders: "led_orders (cc_calls (tx_irq_callback error who c)) = led_orders (cc_calls c)"
    "led_orders (cc_calls (rx_thread_start fid c)) = led_orders (cc_calls c)"
    "led_orders (cc_calls (rx_thread_round get rtr f c)) = led_orders (cc_calls c)"
    "led_orders (cc_calls (snd (main_send_led (m, c)))) = led_orders (cc_calls c)"
    "led_orders (cc_calls (snd (main_send_counter put (m, c)))) = led_orders (cc_calls c)"
    "led_orders (cc_calls (snd (poll_state_round answer (v, c)))) = led_orders (cc_calls c)"
    "led_orders (cc_calls (state_change_callback st cnt c)) = led_orders (cc_calls c)"
    "led_orders (cc_calls (state_change_work_handler c)) = led_orders (cc_calls c)"
    for error who fid get rtr f m put answer v st cnt c
    by (auto simp: tx_irq_callback_def rx_thread_start_def rx_thread_round_def main_send_led_def main_send_counter_def
        poll_state_round_def state_change_callback_def state_change_work_handler_def Let_def split: prod.split)
  have "change_led_work (node_step api e s) = Led_dead \<and> led_done (node_step api e s) = led_done s"
    if "change_led_work s = Led_dead" for e and s :: "'a node"
    using that by (cases e) (auto simp: node_step_defs case_prod_beta led_done_def orders split: option.split)
  then show ?thesis using assms by (induction es arbitrary: s) auto
qed

section \<open>Changes of the controller state\<close>

primrec change_lines :: "cc_call list \<Rightarrow> cc_call list" where
  "change_lines [] = []"
| "change_lines (c # cs) = (case c of State_change_line _ _ _ \<Rightarrow> [c] | _ \<Rightarrow> []) @ change_lines cs"

definition change_line :: "cc \<Rightarrow> cc_call" where
  "change_line c = State_change_line (state_to_str (current_state c)) (rx_err_cnt (current_err_cnt c)) (tx_err_cnt (current_err_cnt c))"

text \<open>The last report is the current state, unless a report is due or the state has never changed.\<close>

definition report_inv :: "'q node \<Rightarrow> bool" where
  "report_inv s \<longleftrightarrow> state_work_pending s \<or>
     (case change_lines (cc_calls (node_cc s)) of
        [] \<Rightarrow> current_state (node_cc s) = CAN_STATE_ERROR_ACTIVE \<and> current_err_cnt (node_cc s) = \<lparr>tx_err_cnt = 0, rx_err_cnt = 0\<rparr>
      | l # ls \<Rightarrow> l = change_line (node_cc s))"

definition same_report :: "cc \<Rightarrow> cc \<Rightarrow> bool" where
  "same_report c d \<longleftrightarrow> change_lines (cc_calls d) = change_lines (cc_calls c) \<and> current_state d = current_state c \<and>
     current_err_cnt d = current_err_cnt c"

lemma same_report_ops [simp]:
  "same_report c (tx_irq_callback error who c)" "same_report c (rx_thread_start fid c)" "same_report c (rx_thread_round get rtr f c)"
  "same_report c (change_led rtr f c)" "same_report c (led_resubmit ret c)" "same_report c (snd (main_send_led (m, c)))"
  "same_report c (snd (main_send_counter put (m, c)))" "same_report c (snd (poll_state_round answer (v, c)))" "same_report c c"
  by (auto simp: same_report_def tx_irq_callback_def rx_thread_start_def rx_thread_round_def main_send_led_def main_send_counter_def
      poll_state_round_def change_led_def led_resubmit_def Let_def split: prod.split)

lemma report_inv_cong:
  "report_inv s \<Longrightarrow> state_work_pending t = state_work_pending s \<Longrightarrow> same_report (node_cc s) (node_cc t) \<Longrightarrow> report_inv t"
  by (auto simp: report_inv_def same_report_def change_line_def split: list.splits)

lemma receive_pending [simp]: "state_work_pending (receive api f s) = state_work_pending s"
  by (simp add: receive_def Let_def)

lemma report_step: "report_inv s \<Longrightarrow> report_inv (node_step api e s)"
proof (cases e)
  case (State_changed st cnt)
  then show ?thesis by (simp add: step_state_changed_def report_inv_def)
next
  case State_work
  assume "report_inv s"
  with State_work show ?thesis
    by (auto simp: step_state_work_def state_change_work_handler_def report_inv_def change_line_def)
qed (auto simp: node_step_defs case_prod_beta split: option.split elim!: report_inv_cong)

interpretation reports: machine "node_step api" report_inv
  by unfold_locales (rule report_step)


text \<open>The state reported last is the current one. The callback overwrites the two variables and
  submits the work item, several callbacks may come before it runs; in any run, once the work item
  has run after the last callback, the last line it printed shows the current state and error counts (or
  there was no callback and no line).\<close>

theorem last_report_is_current:
  assumes "node_boot env led ql qc = Some s0" and "s = run (node_step api) (es @ [State_work]) s0"
  shows "case change_lines (cc_calls (node_cc s)) of
      [] \<Rightarrow> current_state (node_cc s) = CAN_STATE_ERROR_ACTIVE \<and> current_err_cnt (node_cc s) = \<lparr>tx_err_cnt = 0, rx_err_cnt = 0\<rparr>
    | l # ls \<Rightarrow> l = change_line (node_cc s)"
proof -
  have "report_inv s0"
    using assms(1)
    by (auto simp: node_boot_def cc_main_setup_def cc_led_setup_def Let_def emit_def cc_init_def report_inv_def split: if_splits)
  then have "report_inv s" unfolding assms(2) by (rule reports.run_inv)
  moreover have "\<not> state_work_pending s" unfolding assms(2) by (simp add: step_state_work_def)
  ultimately show ?thesis by (simp add: report_inv_def)
qed

end
