(* ===== verification/T1sDevice.thy ===== *)
theory T1sDevice
  imports CLib
begin

text \<open>
  The 10BASE-T1S node, \<^verbatim>\<open>app/demos/ethernet_bridge/t1s_device/src/main.c\<close>: the RGB LED, the
  table of WebSocket clients with one thread each, and the start-up. The firmware upload is
  in the theory T1sFirmware.

  The parameters are the record \<open>t1s_api\<close>: the PWM, WebSocket and socket calls, the JSON
  parser and \<^verbatim>\<open>snprintk\<close> of Zephyr, functions on a world of type \<open>'w\<close>, and the values the
  build configures. What the code calls is recorded in \<open>calls\<close>, newest first, so that
  statements about the order of calls can be made; results come from the world.

  A client thread is a program counter \<open>ws_thread\<close> with the local variable \<^verbatim>\<open>sock\<close>:
  created by \<^verbatim>\<open>ws_setup_cb\<close>, polling in its loop, then at its two last statements
  (\<^verbatim>\<open>websocket_unregister\<close>, the store of -1 into the table) and finally returning. The functions of
  the code are modelled as a whole first; then the ones that touch the LED or send the state are split
  into their single calls and stores, \<open>t1s_instr\<close>, and the system \<open>t1s_sys\<close> runs \<^verbatim>\<open>main\<close> and the client
  threads instruction by instruction, in any order, with the mutex \<^verbatim>\<open>state_lock\<close>. The HTTP server calls
  \<^verbatim>\<open>ws_setup_cb\<close> at any time after \<^verbatim>\<open>http_server_start\<close>. The lemmas at the end of the theory show that the
  instructions, run without interruption, are the functions.
\<close>

section \<open>State and parameters\<close>

abbreviation WS_MAX_CLIENTS :: nat where "WS_MAX_CLIENTS \<equiv> 3"
abbreviation WS_RX_BUF_SIZE :: nat where "WS_RX_BUF_SIZE \<equiv> 128"
abbreviation T1S_SAFE_MTU :: u16 where "T1S_SAFE_MTU \<equiv> 576"

datatype ws_opcode = OP_TEXT | OP_CLOSE | OP_PONG
datatype ws_flag = FLAG_TEXT | FLAG_BINARY | FLAG_CLOSE | FLAG_PING | FLAG_PONG
datatype poll_flag = POLLIN | POLLHUP | POLLERR

record rgb_cmd =
  cmd_r :: int
  cmd_g :: int
  cmd_b :: int

datatype ws_thread = Dead | Created | Polling int | Leaving int | Unregistered int | Returning

datatype t1s_call =
    Pwm nat u32
  | Lock
  | Unlock
  | Ws_send int string int ws_opcode
  | Ws_unregister int
  | Thread_create nat ws_thread
  | Set_mtu u16
  | Http_start
  | Confirm_image

record 'w t1s_api =
  led_period :: "nat \<Rightarrow> u32"
  pwm_is_ready :: "nat \<Rightarrow> bool"
  pwm_set_pulse :: "nat \<Rightarrow> u32 \<Rightarrow> 'w \<Rightarrow> int \<times> 'w"
  device_name :: string
  app_version :: string
  plca_node_id :: u32
  snprintk :: "nat \<Rightarrow> string \<Rightarrow> int \<times> string"
  websocket_send_msg :: "int \<Rightarrow> string \<Rightarrow> int \<Rightarrow> ws_opcode \<Rightarrow> 'w \<Rightarrow> int \<times> 'w"
  websocket_recv_msg :: "int \<Rightarrow> nat \<Rightarrow> 'w \<Rightarrow> (int \<times> string \<times> ws_flag set) \<times> 'w"
  websocket_unregister :: "int \<Rightarrow> 'w \<Rightarrow> 'w"
  zsock_poll :: "int \<Rightarrow> 'w \<Rightarrow> (int \<times> poll_flag set) \<times> 'w"
  json_obj_parse :: "string \<Rightarrow> int \<times> rgb_cmd"
  image_confirmed :: bool
  write_img_confirmed :: "'w \<Rightarrow> int \<times> 'w"

record 'w t1s =
  rgb :: "u8 list"
  ws_clients :: "int list"
  ws_threads :: "ws_thread list"
  dev_world :: 'w
  calls :: "t1s_call list"

definition t1s_init :: "'w \<Rightarrow> 'w t1s" where
  "t1s_init w = \<lparr>rgb = [0, 0, 0], ws_clients = [-1, -1, -1], ws_threads = [Dead, Dead, Dead],
     dev_world = w, calls = []\<rparr>"

definition call :: "t1s_call \<Rightarrow> 'w t1s \<Rightarrow> 'w t1s" where
  "call c d = d\<lparr>calls := c # calls d\<rparr>"

section \<open>The LED\<close>

text \<open>The duty computation of \<^verbatim>\<open>rgb_apply\<close>: a 64-bit product, divided by 255 and cast back.\<close>

definition led_pulse :: "u32 \<Rightarrow> u8 \<Rightarrow> u32" where
  "led_pulse period duty = ucast ((ucast period * ucast duty :: u64) div 255)"

definition rgb_apply_channel :: "'w t1s_api \<Rightarrow> nat \<Rightarrow> 'w t1s \<Rightarrow> 'w t1s" where
  "rgb_apply_channel api i d =
     (let pulse = led_pulse (led_period api i) (rgb d ! i);
          (ret, w) = pwm_set_pulse api i pulse (dev_world d)
      in call (Pwm i pulse) (d\<lparr>dev_world := w\<rparr>))"

definition rgb_apply :: "'w t1s_api \<Rightarrow> 'w t1s \<Rightarrow> 'w t1s" where
  "rgb_apply api d = fold (rgb_apply_channel api) [0, 1, 2] d"

section \<open>The state message\<close>

definition quoted :: "string \<Rightarrow> string" where
  "quoted s = CHR 0x22 # s @ [CHR 0x22]"

definition state_text :: "'w t1s_api \<Rightarrow> u8 list \<Rightarrow> string" where
  "state_text api duties =
     ''{'' @ quoted ''name'' @ '':'' @ quoted (device_name api) @
     '','' @ quoted ''ver'' @ '':'' @ quoted (app_version api) @
     '','' @ quoted ''plca'' @ '':'' @ show_nat (unat (plca_node_id api)) @
     '','' @ quoted ''r'' @ '':'' @ show_nat (unat (duties ! 0)) @
     '','' @ quoted ''g'' @ '':'' @ show_nat (unat (duties ! 1)) @
     '','' @ quoted ''b'' @ '':'' @ show_nat (unat (duties ! 2)) @ ''}''"

definition state_json :: "'w t1s_api \<Rightarrow> nat \<Rightarrow> 'w t1s \<Rightarrow> int \<times> string" where
  "state_json api len d = snprintk api len (state_text api (rgb d))"

definition ws_send_state :: "'w t1s_api \<Rightarrow> int \<Rightarrow> 'w t1s \<Rightarrow> 'w t1s" where
  "ws_send_state api sock d =
     (let (len, buf) = state_json api 128 d;
          (ret, w) = websocket_send_msg api sock buf len OP_TEXT (dev_world d)
      in call (Ws_send sock buf len OP_TEXT) (d\<lparr>dev_world := w\<rparr>))"

definition ws_broadcast_slot :: "'w t1s_api \<Rightarrow> int \<Rightarrow> nat \<Rightarrow> 'w t1s \<Rightarrow> 'w t1s" where
  "ws_broadcast_slot api except_sock i d =
     (if 0 \<le> ws_clients d ! i \<and> ws_clients d ! i \<noteq> except_sock
      then ws_send_state api (ws_clients d ! i) d else d)"

definition ws_broadcast_state :: "'w t1s_api \<Rightarrow> int \<Rightarrow> 'w t1s \<Rightarrow> 'w t1s" where
  "ws_broadcast_state api except_sock d = fold (ws_broadcast_slot api except_sock) [0, 1, 2] d"

section \<open>Client threads\<close>

text \<open>The head of \<^verbatim>\<open>ws_client_thread\<close>, before its loop: the socket is read from the table and
  the new client is told the state.\<close>

definition ws_thread_start :: "'w t1s_api \<Rightarrow> nat \<Rightarrow> 'w t1s \<Rightarrow> 'w t1s" where
  "ws_thread_start api slot d =
     (let sock = ws_clients d ! slot;
          d = call Unlock (ws_send_state api sock (call Lock d))
      in d\<lparr>ws_threads := (ws_threads d)[slot := Polling sock]\<rparr>)"

definition clamp_duty :: "int \<Rightarrow> u8" where
  "clamp_duty v = of_int (max 0 (min v 255))"

definition apply_cmd :: "'w t1s_api \<Rightarrow> int \<Rightarrow> rgb_cmd \<Rightarrow> 'w t1s \<Rightarrow> 'w t1s" where
  "apply_cmd api sock cmd d =
     (let d = call Lock d;
          d = d\<lparr>rgb := [clamp_duty (cmd_r cmd), clamp_duty (cmd_g cmd), clamp_duty (cmd_b cmd)]\<rparr>;
          d = rgb_apply api d;
          d = ws_broadcast_state api sock d
      in call Unlock d)"

text \<open>One pass of the loop up to the point where a command has been read: the thread leaves the loop
  (\<^verbatim>\<open>break\<close>), goes on with the next pass (\<^verbatim>\<open>continue\<close>), or has a valid command.\<close>

datatype ws_received = Break | Continue | Command rgb_cmd

definition ws_thread_receive :: "'w t1s_api \<Rightarrow> int \<Rightarrow> 'w t1s \<Rightarrow> ws_received \<times> 'w t1s" where
  "ws_thread_receive api sock d =
     (let ((ret, revents), w) = zsock_poll api sock (dev_world d);
          d = d\<lparr>dev_world := w\<rparr>
      in if ret < 0 then (Break, d)
         else if POLLHUP \<in> revents \<or> POLLERR \<in> revents then (Break, d)
         else
           let ((len, buf, msg_type), w) =
                 websocket_recv_msg api sock (WS_RX_BUF_SIZE - 1) (dev_world d);
               d = d\<lparr>dev_world := w\<rparr>
           in if len < 0 then (if len = - EAGAIN then Continue else Break, d)
              else if FLAG_CLOSE \<in> msg_type
              then let (ret, w) = websocket_send_msg api sock buf len OP_CLOSE (dev_world d)
                   in (Break, call (Ws_send sock buf len OP_CLOSE) (d\<lparr>dev_world := w\<rparr>))
              else if FLAG_PING \<in> msg_type
              then let (ret, w) = websocket_send_msg api sock buf len OP_PONG (dev_world d)
                   in (Continue, call (Ws_send sock buf len OP_PONG) (d\<lparr>dev_world := w\<rparr>))
              else if len = 0 \<or> \<not> (FLAG_TEXT \<in> msg_type \<or> FLAG_BINARY \<in> msg_type) then (Continue, d)
              else let (ret, cmd) = json_obj_parse api (take (nat len) buf)
                   in if ret \<noteq> 7 then (Continue, d) else (Command cmd, d))"

text \<open>A whole pass; \<open>False\<close> is \<^verbatim>\<open>break\<close>.\<close>

definition ws_thread_iteration :: "'w t1s_api \<Rightarrow> int \<Rightarrow> 'w t1s \<Rightarrow> bool \<times> 'w t1s" where
  "ws_thread_iteration api sock d =
     (let (received, d) = ws_thread_receive api sock d
      in case received of
           Break \<Rightarrow> (False, d)
         | Continue \<Rightarrow> (True, d)
         | Command cmd \<Rightarrow> (True, apply_cmd api sock cmd d))"

text \<open>The two statements after the loop, and the return of the thread function.\<close>

definition ws_thread_unregister :: "'w t1s_api \<Rightarrow> nat \<Rightarrow> int \<Rightarrow> 'w t1s \<Rightarrow> 'w t1s" where
  "ws_thread_unregister api slot sock d =
     call (Ws_unregister sock) (d\<lparr>dev_world := websocket_unregister api sock (dev_world d),
       ws_threads := (ws_threads d)[slot := Unregistered sock]\<rparr>)"

definition ws_thread_clear :: "nat \<Rightarrow> 'w t1s \<Rightarrow> 'w t1s" where
  "ws_thread_clear slot d = d\<lparr>ws_clients := (ws_clients d)[slot := -1],
     ws_threads := (ws_threads d)[slot := Returning]\<rparr>"

definition ws_thread_return :: "nat \<Rightarrow> 'w t1s \<Rightarrow> 'w t1s" where
  "ws_thread_return slot d = d\<lparr>ws_threads := (ws_threads d)[slot := Dead]\<rparr>"

section \<open>Accepting clients\<close>

definition ws_setup_cb :: "int \<Rightarrow> 'w t1s \<Rightarrow> int \<times> 'w t1s" where
  "ws_setup_cb ws_socket d =
     (let slot = first_free (\<lambda>c. c < 0) (ws_clients d)
      in if slot = length (ws_clients d) then (- ENOENT, d)
         else let d = d\<lparr>ws_clients := (ws_clients d)[slot := ws_socket]\<rparr>;
                  d = call (Thread_create slot (ws_threads d ! slot)) d
              in (0, d\<lparr>ws_threads := (ws_threads d)[slot := Created]\<rparr>))"

section \<open>Start-up\<close>

definition t1s_main :: "'w t1s_api \<Rightarrow> 'w t1s \<Rightarrow> int \<times> 'w t1s" where
  "t1s_main api d =
     (if \<exists>i \<in> {0, 1, 2}. \<not> pwm_is_ready api i then (- ENODEV, d)
      else let d = rgb_apply api d;
               d = call (Set_mtu T1S_SAFE_MTU) d;
               d = call Http_start d;
               d = (if image_confirmed api then d
                    else let (ret, w) = write_img_confirmed api (dev_world d)
                         in call Confirm_image (d\<lparr>dev_world := w\<rparr>))
           in (0, d))"

section \<open>Instructions\<close>

text \<open>The calls and stores of \<^verbatim>\<open>main\<close> and of the locked sections of a client thread, one by one. The test
  of a slot and the message to it are one instruction.\<close>

datatype t1s_instr =
    I_lock
  | I_unlock
  | I_store nat u8       \<comment> \<open>\<^verbatim>\<open>rgb[i] = ...\<close>\<close>
  | I_pwm nat            \<comment> \<open>one round of the loop in \<^verbatim>\<open>rgb_apply\<close>\<close>
  | I_send int           \<comment> \<open>\<^verbatim>\<open>ws_send_state\<close>\<close>
  | I_bcast nat int      \<comment> \<open>one round of the loop in \<^verbatim>\<open>ws_broadcast_state\<close>\<close>
  | I_mtu
  | I_server
  | I_confirm

fun instr :: "'w t1s_api \<Rightarrow> t1s_instr \<Rightarrow> 'w t1s \<Rightarrow> 'w t1s" where
  "instr api I_lock d = call Lock d"
| "instr api I_unlock d = call Unlock d"
| "instr api (I_store i v) d = d\<lparr>rgb := (rgb d)[i := v]\<rparr>"
| "instr api (I_pwm i) d = rgb_apply_channel api i d"
| "instr api (I_send sock) d = ws_send_state api sock d"
| "instr api (I_bcast i except_sock) d = ws_broadcast_slot api except_sock i d"
| "instr api I_mtu d = call (Set_mtu T1S_SAFE_MTU) d"
| "instr api I_server d = call Http_start d"
| "instr api I_confirm d = (let (ret, w) = write_img_confirmed api (dev_world d)
     in call Confirm_image (d\<lparr>dev_world := w\<rparr>))"

definition rgb_apply_code :: "t1s_instr list" where
  "rgb_apply_code = [I_pwm 0, I_pwm 1, I_pwm 2]"

definition start_code :: "int \<Rightarrow> t1s_instr list" where
  "start_code sock = [I_lock, I_send sock, I_unlock]"

definition apply_cmd_code :: "int \<Rightarrow> rgb_cmd \<Rightarrow> t1s_instr list" where
  "apply_cmd_code sock cmd =
     [I_lock, I_store 0 (clamp_duty (cmd_r cmd)), I_store 1 (clamp_duty (cmd_g cmd)), I_store 2 (clamp_duty (cmd_b cmd))]
     @ rgb_apply_code @ [I_bcast 0 sock, I_bcast 1 sock, I_bcast 2 sock, I_unlock]"

definition main_code :: "'w t1s_api \<Rightarrow> t1s_instr list" where
  "main_code api =
     (if \<exists>i \<in> {0, 1, 2}. \<not> pwm_is_ready api i then []
      else rgb_apply_code @ [I_mtu, I_server] @ (if image_confirmed api then [] else [I_confirm]))"

section \<open>All interleavings\<close>

text \<open>The system: the variables of the program, what each thread has still to do, who holds the lock, whether
  the HTTP server has been started, and the descriptors that the network stack has handed out for WebSockets
  and not closed yet.\<close>

datatype t1s_thread = T_main | T_client nat

record 'w t1s_sys =
  dev :: "'w t1s"
  code :: "t1s_thread \<Rightarrow> t1s_instr list"
  lock_owner :: "t1s_thread option"
  server_up :: bool
  open_socks :: "int set"

definition t1s_boot :: "'w t1s_api \<Rightarrow> 'w \<Rightarrow> 'w t1s_sys" where
  "t1s_boot api w = \<lparr>dev = t1s_init w, code = (\<lambda>t. if t = T_main then main_code api else []), lock_owner = None,
     server_up = False, open_socks = {}\<rparr>"

text \<open>One instruction of a thread. A thread that asks for the lock while it is held stays where it is.\<close>

definition run_instr :: "'w t1s_api \<Rightarrow> t1s_thread \<Rightarrow> 'w t1s_sys \<Rightarrow> 'w t1s_sys" where
  "run_instr api t s = (case code s t of
     [] \<Rightarrow> s
   | i # rest \<Rightarrow>
       if i = I_lock \<and> lock_owner s \<noteq> None then s
       else s\<lparr>dev := instr api i (dev s), code := (code s)(t := rest),
              lock_owner := (if i = I_lock then Some t else if i = I_unlock then None else lock_owner s),
              server_up := (server_up s \<or> i = I_server)\<rparr>)"

text \<open>One step of a client thread: an instruction of a locked section, or the next thing it does outside of
  one. \<^verbatim>\<open>websocket_unregister\<close> closes the descriptor.\<close>

definition client_step :: "'w t1s_api \<Rightarrow> nat \<Rightarrow> 'w t1s_sys \<Rightarrow> 'w t1s_sys" where
  "client_step api slot s =
     (if WS_MAX_CLIENTS \<le> slot then s
      else if code s (T_client slot) \<noteq> [] then run_instr api (T_client slot) s
      else case ws_threads (dev s) ! slot of
        Dead \<Rightarrow> s
      | Created \<Rightarrow>
          let sock = ws_clients (dev s) ! slot
          in s\<lparr>dev := (dev s)\<lparr>ws_threads := (ws_threads (dev s))[slot := Polling sock]\<rparr>,
               code := (code s)(T_client slot := start_code sock)\<rparr>
      | Polling sock \<Rightarrow>
          let (received, d) = ws_thread_receive api sock (dev s)
          in (case received of
                Break \<Rightarrow> s\<lparr>dev := d\<lparr>ws_threads := (ws_threads d)[slot := Leaving sock]\<rparr>\<rparr>
              | Continue \<Rightarrow> s\<lparr>dev := d\<rparr>
              | Command cmd \<Rightarrow> s\<lparr>dev := d, code := (code s)(T_client slot := apply_cmd_code sock cmd)\<rparr>)
      | Leaving sock \<Rightarrow> s\<lparr>dev := ws_thread_unregister api slot sock (dev s), open_socks := open_socks s - {sock}\<rparr>
      | Unregistered sock \<Rightarrow> s\<lparr>dev := ws_thread_clear slot (dev s)\<rparr>
      | Returning \<Rightarrow> s\<lparr>dev := ws_thread_return slot (dev s)\<rparr>)"

text \<open>The server calls \<^verbatim>\<open>ws_setup_cb\<close> with the descriptor of the new WebSocket; it closes the descriptor again
  when the callback refuses the connection.\<close>

definition server_accept :: "int \<Rightarrow> 'w t1s_sys \<Rightarrow> 'w t1s_sys" where
  "server_accept sock s =
     (let (ret, d) = ws_setup_cb sock (dev s)
      in s\<lparr>dev := d, open_socks := (if ret = 0 then insert sock (open_socks s) else open_socks s)\<rparr>)"

text \<open>The network stack gives out a number that is not open; whether the table of the program still
  holds that number is not its concern.\<close>

inductive t1s_next :: "'w t1s_api \<Rightarrow> 'w t1s_sys \<Rightarrow> 'w t1s_sys \<Rightarrow> bool" for api where
  main_thread: "t1s_next api s (run_instr api T_main s)"
| client_thread: "t1s_next api s (client_step api slot s)"
| accept: "server_up s \<Longrightarrow> 0 \<le> sock \<Longrightarrow> sock \<notin> open_socks s \<Longrightarrow> t1s_next api s (server_accept sock s)"

inductive t1s_reachable :: "'w t1s_api \<Rightarrow> 'w \<Rightarrow> 'w t1s_sys \<Rightarrow> bool" for api w where
  boot: "t1s_reachable api w (t1s_boot api w)"
| step: "t1s_reachable api w s \<Longrightarrow> t1s_next api s s' \<Longrightarrow> t1s_reachable api w s'"

inductive_cases t1s_nextE: "t1s_next api s s'"

section \<open>The instructions are the functions\<close>

lemma rgb_apply_by_instr: "fold (instr api) rgb_apply_code d = rgb_apply api d"
  by (simp add: rgb_apply_code_def rgb_apply_def)

lemma apply_cmd_by_instr:
  assumes "length (rgb d) = 3"
  shows "fold (instr api) (apply_cmd_code sock cmd) d = apply_cmd api sock cmd d"
proof -
  have "(rgb d)[0 := a, 1 := b, 2 := c] = [a, b, c]" for a b c
    using assms by (auto simp: numeral_3_eq_3 length_Suc_conv)
  then show ?thesis
    by (simp add: apply_cmd_code_def apply_cmd_def rgb_apply_by_instr ws_broadcast_state_def call_def Let_def)
qed

lemma start_by_instr:
  "ws_thread_start api slot d = (let sock = ws_clients d ! slot; d = fold (instr api) (start_code sock) d
     in d\<lparr>ws_threads := (ws_threads d)[slot := Polling sock]\<rparr>)"
  by (simp add: ws_thread_start_def start_code_def Let_def)

lemma main_by_instr: "snd (t1s_main api d) = fold (instr api) (main_code api) d"
  by (simp add: t1s_main_def main_code_def rgb_apply_by_instr Let_def case_prod_beta)

end
