(* ===== verification/T1sFirmware.thy ===== *)
theory T1sFirmware
  imports T1sDevice
begin

text \<open>
  The firmware upload of \<^verbatim>\<open>app/demos/ethernet_bridge/t1s_device/src/main.c\<close>: the HTTP handler
  \<^verbatim>\<open>firmware_handler\<close> that streams an image into the update slot, and the delayed reboot.

  The flash writer (\<^verbatim>\<open>flash_img_init\<close>, \<^verbatim>\<open>flash_img_buffered_write\<close>), the boot loader
  interface and the work queue are parameters, the record \<open>fw_api\<close> over a world \<open>'w\<close> that
  includes the flash context \<^verbatim>\<open>fw_ctx\<close>. Each call is recorded in \<open>fw_calls\<close>, newest first.
  Sizes are \<^verbatim>\<open>size_t\<close>, 32 bits on the board.
\<close>

section \<open>State and parameters\<close>

datatype transaction_status =
    HTTP_SERVER_REQUEST_DATA_MORE
  | HTTP_SERVER_REQUEST_DATA_FINAL
  | HTTP_SERVER_TRANSACTION_ABORTED
  | HTTP_SERVER_TRANSACTION_COMPLETE

datatype fw_call =
    Flash_init
  | Flash_write "u8 list" bool
  | Request_upgrade
  | Schedule_reboot nat
  | Reboot

record http_response =
  res_headers :: "(string \<times> string) list"
  res_body :: string
  res_body_len :: int
  res_final_chunk :: bool

definition empty_response :: http_response where
  "empty_response = \<lparr>res_headers = [], res_body = [], res_body_len = 0, res_final_chunk = False\<rparr>"

record 'w fw_api =
  flash_img_init :: "'w \<Rightarrow> int \<times> 'w"
  flash_img_buffered_write :: "u8 list \<Rightarrow> bool \<Rightarrow> 'w \<Rightarrow> int \<times> 'w"
  boot_request_upgrade :: "'w \<Rightarrow> int \<times> 'w"
  fw_snprintk :: "nat \<Rightarrow> string \<Rightarrow> int \<times> string"

record 'w fw =
  fw_in_progress :: bool
  fw_received :: u32
  fw_world :: 'w
  fw_calls :: "fw_call list"

definition fw_init_state :: "'w \<Rightarrow> 'w fw" where
  "fw_init_state w = \<lparr>fw_in_progress = False, fw_received = 0, fw_world = w, fw_calls = []\<rparr>"

section \<open>The handler\<close>

definition fw_abort :: "'w fw \<Rightarrow> 'w fw" where
  "fw_abort f = f\<lparr>fw_in_progress := False, fw_received := 0\<rparr>"

definition fw_reboot_handler :: "'w fw \<Rightarrow> 'w fw" where
  "fw_reboot_handler f = f\<lparr>fw_calls := Reboot # fw_calls f\<rparr>"

definition ok_text :: "u32 \<Rightarrow> string" where
  "ok_text n = ''{'' @ quoted ''ok'' @ '':true,'' @ quoted ''bytes'' @ '':'' @ show_nat (unat n) @ ''}''"

definition error_text :: string where
  "error_text = ''{'' @ quoted ''ok'' @ '':false}''"

text \<open>The label \<^verbatim>\<open>error\<close> of the handler.\<close>

definition fw_error :: "'w fw_api \<Rightarrow> http_response \<Rightarrow> 'w fw \<Rightarrow> http_response \<times> 'w fw" where
  "fw_error api res f =
     (let (len, body) = fw_snprintk api 64 error_text
      in (res\<lparr>res_body := body, res_body_len := len, res_final_chunk := True\<rparr>, fw_abort f))"

text \<open>The start of an upload, if none is in progress; \<open>False\<close> is \<^verbatim>\<open>goto error\<close>.\<close>

definition fw_begin :: "'w fw_api \<Rightarrow> 'w fw \<Rightarrow> bool \<times> 'w fw" where
  "fw_begin api f =
     (if fw_in_progress f then (True, f)
      else let (ret, w) = flash_img_init api (fw_world f);
               f = f\<lparr>fw_world := w, fw_calls := Flash_init # fw_calls f\<rparr>
           in if ret < 0 then (False, f)
              else (True, f\<lparr>fw_in_progress := True, fw_received := 0\<rparr>))"

definition fw_write :: "'w fw_api \<Rightarrow> u8 list \<Rightarrow> bool \<Rightarrow> 'w fw \<Rightarrow> bool \<times> 'w fw" where
  "fw_write api data final f =
     (if length data = 0 then (True, f)
      else let (ret, w) = flash_img_buffered_write api data final (fw_world f);
               f = f\<lparr>fw_world := w, fw_calls := Flash_write data final # fw_calls f\<rparr>
           in if ret < 0 then (False, f)
              else (True, f\<lparr>fw_received := fw_received f + of_nat (length data)\<rparr>))"

definition fw_finish :: "'w fw_api \<Rightarrow> http_response \<Rightarrow> 'w fw \<Rightarrow> http_response \<times> 'w fw" where
  "fw_finish api res f =
     (let n = fw_received f;
          res = res\<lparr>res_headers := [(''Access-Control-Allow-Origin'', ''*'')]\<rparr>;
          f = fw_abort f;
          (ret, w) = boot_request_upgrade api (fw_world f);
          f = f\<lparr>fw_world := w, fw_calls := Request_upgrade # fw_calls f\<rparr>
      in if ret < 0 then fw_error api res f
         else let (len, body) = fw_snprintk api 64 (ok_text n)
              in (res\<lparr>res_body := body, res_body_len := len, res_final_chunk := True\<rparr>,
                  f\<lparr>fw_calls := Schedule_reboot 2 # fw_calls f\<rparr>))"

definition firmware_handler ::
  "'w fw_api \<Rightarrow> transaction_status \<Rightarrow> u8 list \<Rightarrow> 'w fw \<Rightarrow> http_response \<times> 'w fw" where
  "firmware_handler api status data f =
     (let res = empty_response;
          final = (status = HTTP_SERVER_REQUEST_DATA_FINAL)
      in if status = HTTP_SERVER_TRANSACTION_ABORTED then (res, fw_abort f)
         else if status = HTTP_SERVER_TRANSACTION_COMPLETE then (res, f)
         else let (ok, f) = fw_begin api f
              in if \<not> ok then fw_error api res f
                 else let (ok, f) = fw_write api data final f
                      in if \<not> ok then fw_error api res f
                         else if final then fw_finish api res f
                         else (res, f))"

text \<open>A request is a sequence of handler calls. The response of the last call is kept.\<close>

fun fw_run :: "'w fw_api \<Rightarrow> (transaction_status \<times> u8 list) list \<Rightarrow> 'w fw \<Rightarrow> 'w fw" where
  "fw_run api [] f = f"
| "fw_run api ((status, data) # rest) f = fw_run api rest (snd (firmware_handler api status data f))"

definition upload :: "u8 list list \<Rightarrow> u8 list \<Rightarrow> (transaction_status \<times> u8 list) list" where
  "upload chunks tail =
     map (\<lambda>c. (HTTP_SERVER_REQUEST_DATA_MORE, c)) chunks @ [(HTTP_SERVER_REQUEST_DATA_FINAL, tail)]"

end
