(* ===== verification/T1sProps.thy ===== *)
theory T1sProps
  imports T1sFirmware
begin

text \<open>
  The properties of the 10BASE-T1S node: the LED duty computation, the state message, the
  effect of a client's command, and the table of clients in every run of the instruction-level system of \<open>T1sDevice\<close>. The lock is in the
  theory \<open>T1sLocking\<close>.
\<close>

section \<open>A concrete node\<close>

text \<open>Parameters for the witnesses: a node whose client on socket 5 hangs up, while every other
  client sends the same command over and over.\<close>

definition demo_cmd :: rgb_cmd where
  "demo_cmd = \<lparr>cmd_r = 300, cmd_g = -4, cmd_b = 128\<rparr>"

definition demo_node :: "string \<Rightarrow> unit t1s_api" where
  "demo_node nm = \<lparr>led_period = (\<lambda>i. 1000000), pwm_is_ready = (\<lambda>i. True),
     pwm_set_pulse = (\<lambda>i p w. (0, w)), device_name = nm, app_version = ''4.7.7'', plca_node_id = 1,
     snprintk = (\<lambda>n s. (int (length s), take (n - 1) s)),
     websocket_send_msg = (\<lambda>s b l c w. (l, w)),
     websocket_recv_msg = (\<lambda>s n w. ((2, ''{}'', {FLAG_TEXT}), w)),
     websocket_unregister = (\<lambda>s w. w),
     zsock_poll = (\<lambda>s w. ((1, if s = 5 then {POLLHUP} else {POLLIN}), w)),
     json_obj_parse = (\<lambda>s. (7, demo_cmd)), image_confirmed = False,
     write_img_confirmed = (\<lambda>w. (0, w))\<rparr>"

section \<open>Duty cycles\<close>

lemma unat_led_pulse: "unat (led_pulse period duty) = unat period * unat duty div 255"
proof -
  have p: "unat period < 4294967296" and d: "unat duty \<le> 255"
    by (rule unat_u32_less, rule unat_u8_le)
  have "unat period * unat duty < 4294967296 * 256"
    using p d by (intro mult_strict_mono) auto
  moreover have "take_bit 64 (unat period) = unat period" "take_bit 64 (unat duty) = unat duty"
    by (rule take_bit_nat_eq_self, use p d in simp)+
  ultimately have prod: "unat (ucast period * ucast duty :: u64) = unat period * unat duty"
    by (simp add: unat_word_ariths unsigned_ucast_eq)
  have "unat period * unat duty div 255 \<le> unat period"
    using d by (metis div_le_mono mult_le_mono2 nonzero_mult_div_cancel_right zero_neq_numeral)
  with p prod show ?thesis
    by (simp add: led_pulse_def unsigned_ucast_eq unat_div_distrib take_bit_nat_eq_self)
qed

text \<open>C19: the pulse of a channel is the exact scaled duty: the 64-bit product does not
  overflow and the cast back to 32 bits loses nothing. The pulse never exceeds the period,
  duty 0 is off, duty 255 is the full period, and a larger duty never gives a shorter
  pulse.\<close>

theorem led_pulse_exact:
  "unat (led_pulse period duty) = unat period * unat duty div 255 \<and>
   led_pulse period duty \<le> period \<and> led_pulse period 0 = 0 \<and> led_pulse period 255 = period \<and>
   (\<forall>duty' \<le> duty. led_pulse period duty' \<le> led_pulse period duty)"
proof -
  have "unat duty \<le> 255" by (rule unat_u8_le)
  then have "unat period * unat duty div 255 \<le> unat period"
    by (metis div_le_mono mult_le_mono2 nonzero_mult_div_cancel_right zero_neq_numeral)
  moreover have "led_pulse period 255 = period"
    by (rule word_unat_eq_iff [THEN iffD2]) (simp add: unat_led_pulse)
  moreover have "led_pulse period 0 = 0" by (simp add: led_pulse_def)
  ultimately show ?thesis
    by (auto simp: unat_led_pulse word_le_nat_alt intro!: div_le_mono mult_le_mono2)
qed

theorem led_pulse_exact_witness: "led_pulse 1000000 127 \<le> led_pulse 1000000 128"
  using led_pulse_exact [of 1000000 128] by simp

section \<open>The state message\<close>

lemma length_state_text:
  "length (state_text api duties) = 43 + length (device_name api) + length (app_version api)
     + length (show_nat (unat (plca_node_id api))) + length (show_nat (unat (duties ! 0)))
     + length (show_nat (unat (duties ! 1))) + length (show_nat (unat (duties ! 2)))"
  by (simp add: state_text_def quoted_def)

text \<open>The state message fits its buffer. As long as the device name and the version string
  have at most 65 characters together, the length that \<^verbatim>\<open>ws_send_state\<close> passes on is the
  length of the text in the 128-byte buffer, and the message is the whole JSON object.\<close>

theorem state_message_fits:
  assumes "snprintk_contract (snprintk api)"
    and "length (device_name api) + length (app_version api) \<le> 65"
  shows "state_json api 128 d = (int (length (state_text api (rgb d))), state_text api (rgb d)) \<and>
         length (state_text api (rgb d)) < 128"
proof -
  have "length (state_text api (rgb d)) < 128"
    using assms(2) show_nat_u8 [of "rgb d ! 0"] show_nat_u8 [of "rgb d ! 1"] show_nat_u8 [of "rgb d ! 2"]
      show_nat_u32 [of "plca_node_id api"]
    by (simp add: length_state_text)
  then show ?thesis
    using assms(1) by (simp add: state_json_def snprintk_contract_def)
qed

lemma demo_node_snprintk: "snprintk_contract (snprintk (demo_node nm))"
  by (simp add: snprintk_contract_def demo_node_def)

theorem state_message_fits_witness:
  "length (state_text (demo_node ''MCXA266-A'') [0, 0, 0]) < 128"
  using state_message_fits [OF demo_node_snprintk, of "''MCXA266-A''" "t1s_init ()"]
  by (simp add: demo_node_def t1s_init_def)

text \<open>Nothing else keeps the length inside the buffer: \<^verbatim>\<open>snprintk\<close> returns the length the
  text would have had, and with a device name of 82 characters or more \<^verbatim>\<open>ws_send_state\<close> asks
  for more bytes to be sent than its 128-byte buffer has.\<close>

theorem state_message_overruns:
  assumes "snprintk_contract (snprintk api)" and "82 \<le> length (device_name api)"
  shows "128 < fst (state_json api 128 d) \<and> length (snd (state_json api 128 d)) = 127"
proof -
  have "0 < length (show_nat n)" for n using show_nat_nonempty [of n] by (simp del: show_nat_nonempty)
  from this [of "unat (rgb d ! 0)"] this [of "unat (rgb d ! 1)"] this [of "unat (rgb d ! 2)"]
    this [of "unat (plca_node_id api)"] assms(2)
  have "128 < length (state_text api (rgb d))" unfolding length_state_text by linarith
  then show ?thesis
    using assms(1) by (simp add: state_json_def snprintk_contract_def)
qed

theorem state_message_overruns_witness:
  "128 < fst (state_json (demo_node (replicate 82 (CHR ''x''))) 128 (t1s_init ()))"
  using state_message_overruns [OF demo_node_snprintk, of "replicate 82 (CHR ''x'')"]
  by (simp add: demo_node_def)

section \<open>Commands\<close>

text \<open>Fields the LED and the broadcasts leave alone.\<close>

lemma call_frame [frame_simps, simp]:
  "rgb (call c d) = rgb d" "ws_clients (call c d) = ws_clients d"
  "ws_threads (call c d) = ws_threads d" "dev_world (call c d) = dev_world d"
  "calls (call c d) = c # calls d"
  by (simp_all add: call_def)

lemma channel_frame [frame_simps, simp]:
  "rgb (rgb_apply_channel api i d) = rgb d" "ws_clients (rgb_apply_channel api i d) = ws_clients d"
  "ws_threads (rgb_apply_channel api i d) = ws_threads d"
  "calls (rgb_apply_channel api i d) = Pwm i (led_pulse (led_period api i) (rgb d ! i)) # calls d"
  by (simp_all add: rgb_apply_channel_def case_prod_beta Let_def)

lemma rgb_apply_frame [frame_simps, simp]:
  "rgb (rgb_apply api d) = rgb d" "ws_clients (rgb_apply api d) = ws_clients d"
  "ws_threads (rgb_apply api d) = ws_threads d"
  "calls (rgb_apply api d) = rev (map (\<lambda>i. Pwm i (led_pulse (led_period api i) (rgb d ! i))) [0, 1, 2]) @ calls d"
  by (simp_all add: rgb_apply_def)

text \<open>The call that tells \<open>sock\<close> the state \<open>duties\<close>.\<close>

definition state_send :: "'w t1s_api \<Rightarrow> u8 list \<Rightarrow> int \<Rightarrow> t1s_call" where
  "state_send api duties sock = (case snprintk api 128 (state_text api duties) of
     (len, buf) \<Rightarrow> Ws_send sock buf len OP_TEXT)"

lemma send_state_frame [frame_simps, simp]:
  "rgb (ws_send_state api s d) = rgb d" "ws_clients (ws_send_state api s d) = ws_clients d"
  "ws_threads (ws_send_state api s d) = ws_threads d"
  "calls (ws_send_state api s d) = state_send api (rgb d) s # calls d"
  by (simp_all add: ws_send_state_def state_send_def state_json_def case_prod_beta Let_def)

definition receivers :: "int \<Rightarrow> int list \<Rightarrow> int list" where
  "receivers except clients = filter (\<lambda>c. 0 \<le> c \<and> c \<noteq> except) clients"

lemma broadcast_fold:
  "rgb (fold (ws_broadcast_slot api s) is d) = rgb d \<and>
   ws_clients (fold (ws_broadcast_slot api s) is d) = ws_clients d \<and>
   ws_threads (fold (ws_broadcast_slot api s) is d) = ws_threads d \<and>
   calls (fold (ws_broadcast_slot api s) is d) =
     rev (map (state_send api (rgb d)) (receivers s (map ((!) (ws_clients d)) is))) @ calls d"
  by (induction "is" arbitrary: d) (simp_all add: ws_broadcast_slot_def receivers_def)

lemma broadcast_frame [frame_simps, simp]:
  "rgb (ws_broadcast_state api s d) = rgb d"
  "ws_clients (ws_broadcast_state api s d) = ws_clients d"
  "ws_threads (ws_broadcast_state api s d) = ws_threads d"
  using broadcast_fold [of api s "[0, 1, 2]" d] by (simp_all add: ws_broadcast_state_def)

lemma broadcast_calls:
  assumes "length (ws_clients d) = 3"
  shows "calls (ws_broadcast_state api s d) =
     rev (map (state_send api (rgb d)) (receivers s (ws_clients d))) @ calls d"
proof -
  have "map ((!) (ws_clients d)) [0, 1, 2] = ws_clients d"
    using assms by (auto simp: numeral_3_eq_3 length_Suc_conv)
  then show ?thesis
    using broadcast_fold [of api s "[0, 1, 2]" d] by (simp add: ws_broadcast_state_def del: list.map)
qed

lemma apply_cmd_calls:
  assumes "length (ws_clients d) = 3"
    and "duties = [clamp_duty (cmd_r cmd), clamp_duty (cmd_g cmd), clamp_duty (cmd_b cmd)]"
  shows "rev (calls (apply_cmd api sock cmd d)) = rev (calls d) @ [Lock]
       @ map (\<lambda>i. Pwm i (led_pulse (led_period api i) (duties ! i))) [0, 1, 2]
       @ map (state_send api duties) (receivers sock (ws_clients d)) @ [Unlock]"
  using assms by (simp add: apply_cmd_def Let_def broadcast_calls)

text \<open>C18: the whole effect of a valid command. Under the lock, the LED state becomes the
  clamped command, the three PWM channels are set from it in order, and then every other
  connected client, in slot order, is sent exactly one message with the new state; the sender
  gets none, and the table of clients is untouched.\<close>

theorem command_effect:
  assumes "length (ws_clients d) = 3"
    and "duties = map (\<lambda>v. if v < 0 then 0 else if 255 < v then 255 else of_nat (nat v))
       [cmd_r cmd, cmd_g cmd, cmd_b cmd]"
  shows "rgb (apply_cmd api sock cmd d) = duties \<and>
     ws_clients (apply_cmd api sock cmd d) = ws_clients d \<and>
     rev (calls (apply_cmd api sock cmd d)) = rev (calls d) @ [Lock]
       @ map (\<lambda>i. Pwm i (led_pulse (led_period api i) (duties ! i))) [0, 1, 2]
       @ map (state_send api duties) (receivers sock (ws_clients d)) @ [Unlock]"
proof -
  have "clamp_duty v = (if v < 0 then 0 else if 255 < v then 255 else of_nat (nat v))" for v
    by (simp add: clamp_duty_def)
  then have "duties = [clamp_duty (cmd_r cmd), clamp_duty (cmd_g cmd), clamp_duty (cmd_b cmd)]"
    using assms(2) by simp
  from apply_cmd_calls [OF assms(1) this] this assms(1) show ?thesis by (simp add: apply_cmd_def Let_def)
qed

theorem command_effect_witness:
  "rgb (apply_cmd (demo_node ''A'') 6 demo_cmd ((t1s_init ())\<lparr>ws_clients := [5, 6, 7]\<rparr>)) = [255, 0, 128] \<and>
   receivers 6 [5, 6, 7] = [5, 7]"
  using command_effect [of "(t1s_init ())\<lparr>ws_clients := [5, 6, 7]\<rparr>" _ demo_cmd "demo_node ''A''" 6]
  by (simp add: demo_cmd_def clamp_duty_def receivers_def)

section \<open>The table of clients\<close>

text \<open>What \<^verbatim>\<open>ws_setup_cb\<close> does to the table alone: an instance of the slot table interface.\<close>

definition ws_insert :: "int \<Rightarrow> int list \<Rightarrow> int list option" where
  "ws_insert sock clients =
     (let (ret, d) = ws_setup_cb sock ((t1s_init ())\<lparr>ws_clients := clients\<rparr>)
      in if ret = 0 then Some (ws_clients d) else None)"

lemma ws_insert_eq:
  "ws_insert sock clients =
     (if first_free (\<lambda>c. c < 0) clients = length clients then None
      else Some (clients[first_free (\<lambda>c. c < 0) clients := sock]))"
  by (simp add: ws_insert_def ws_setup_cb_def Let_def)

interpretation ws_table: slot_table "\<lambda>c :: int. c < 0" "\<lambda>c. 0 \<le> c" ws_insert
proof
  fix xs :: "int list" and v
  show "\<forall>x \<in> set xs. 0 \<le> x \<Longrightarrow> ws_insert v xs = None"
    by (simp add: ws_insert_eq first_free_full not_less)
  show "first_free (\<lambda>c. c < 0) xs < length xs \<Longrightarrow>
      ws_insert v xs = Some (xs[first_free (\<lambda>c. c < 0) xs := v])"
    by (simp add: ws_insert_eq)
qed auto

lemma ws_setup_cb_table:
  "fst (ws_setup_cb s d) = (if ws_insert s (ws_clients d) = None then - ENOENT else 0)"
  "ws_insert s (ws_clients d) = None \<Longrightarrow> snd (ws_setup_cb s d) = d"
  "ws_insert s (ws_clients d) = Some cs \<Longrightarrow> ws_clients (snd (ws_setup_cb s d)) = cs"
  by (auto simp: ws_insert_eq ws_setup_cb_def Let_def split: if_splits)

text \<open>Accepting a client. The server is refused with ENOENT exactly when all slots hold a
  client, and then nothing changes; otherwise the socket goes into the lowest free slot, the
  other slots keep their clients, a thread is created for that slot, and the number of
  connected clients goes up by one.\<close>

theorem accept_client:
  assumes "0 \<le> sock" and "ws_setup_cb sock d = (ret, d')"
  shows "(ret = - ENOENT \<longleftrightarrow> (\<forall>c \<in> set (ws_clients d). 0 \<le> c)) \<and>
    (if ret = 0
     then (\<exists>slot < length (ws_clients d). ws_clients d ! slot < 0 \<and>
             (\<forall>j < slot. 0 \<le> ws_clients d ! j) \<and> ws_clients d' = (ws_clients d)[slot := sock] \<and>
             calls d' = Thread_create slot (ws_threads d ! slot) # calls d \<and>
             ws_threads d' = (ws_threads d)[slot := Created]) \<and>
          length (filter (\<lambda>c. 0 \<le> c) (ws_clients d'))
            = Suc (length (filter (\<lambda>c. 0 \<le> c) (ws_clients d)))
     else ret = - ENOENT \<and> d' = d)"
proof (cases "ws_insert sock (ws_clients d)")
  case None
  with assms(2) ws_setup_cb_table [of sock d] ws_table.insert_fails_iff [of sock "ws_clients d"]
  show ?thesis by simp
next
  case (Some cs)
  have ret: "ret = 0" "ws_clients d' = cs"
    using Some assms(2) ws_setup_cb_table(1,3) [of sock d] by simp_all
  let ?slot = "first_free (\<lambda>c. c < 0) (ws_clients d)"
  have "?slot \<noteq> length (ws_clients d)" using Some by (auto simp: ws_insert_eq)
  then have lt: "?slot < length (ws_clients d)" using first_free_le [of _ "ws_clients d"] by (simp add: le_neq_implies_less)
  have d': "d' = (call (Thread_create ?slot (ws_threads d ! ?slot)) (d\<lparr>ws_clients := (ws_clients d)[?slot := sock]\<rparr>))
      \<lparr>ws_threads := (ws_threads d)[?slot := Created]\<rparr>"
    using lt assms(2) by (simp add: ws_setup_cb_def Let_def)
  have "\<forall>j < ?slot. 0 \<le> ws_clients d ! j"
    using first_free_least [of _ "\<lambda>c. c < 0" "ws_clients d"] by (auto simp: not_less)
  moreover have "ws_clients d ! ?slot < 0" by (rule first_free_free [OF lt])
  moreover have "length (filter (\<lambda>c. 0 \<le> c) cs) = Suc (length (filter (\<lambda>c. 0 \<le> c) (ws_clients d)))"
    using Some assms(1) by (rule ws_table.insert_taken_grows)
  moreover have "\<not> (\<forall>c \<in> set (ws_clients d). 0 \<le> c)"
    using Some ws_table.insert_fails_iff [of sock "ws_clients d"] by auto
  ultimately show ?thesis
    using ret lt d' by (auto intro!: exI [of _ ?slot])
qed

theorem accept_client_witness:
  "fst (ws_setup_cb 7 (t1s_init ())) = 0 \<and>
   length (filter (\<lambda>c. 0 \<le> c) (ws_clients (snd (ws_setup_cb 7 (t1s_init ()))))) = 1"
  using accept_client [of 7 "t1s_init ()" "fst (ws_setup_cb 7 (t1s_init ()))"
      "snd (ws_setup_cb 7 (t1s_init ()))"]
  by (simp add: t1s_init_def ws_setup_cb_def Let_def)

section \<open>The running node\<close>

text \<open>What the steps leave alone.\<close>

lemma instr_frame [frame_simps, simp]:
  "ws_clients (instr api i d) = ws_clients d" "ws_threads (instr api i d) = ws_threads d"
  "length (rgb (instr api i d)) = length (rgb d)" "set (calls d) \<subseteq> set (calls (instr api i d))"
  by (cases i; auto simp: ws_broadcast_slot_def case_prod_beta Let_def)+

lemma receive_keeps_table [frame_simps, simp]:
  "rgb (snd (ws_thread_receive api s d)) = rgb d" "ws_clients (snd (ws_thread_receive api s d)) = ws_clients d"
  "ws_threads (snd (ws_thread_receive api s d)) = ws_threads d"
  by (simp_all add: ws_thread_receive_def case_prod_beta Let_def)

lemma receive_calls:
  "\<exists>new. calls (snd (ws_thread_receive api s d)) = new @ calls d \<and>
     (\<forall>c \<in> set new. \<exists>buf len op. c = Ws_send s buf len op \<and> op \<noteq> OP_TEXT)"
  by (auto simp: ws_thread_receive_def case_prod_beta Let_def)

lemma run_instr_frame [frame_simps, simp]:
  "ws_clients (dev (run_instr api t s)) = ws_clients (dev s)" "ws_threads (dev (run_instr api t s)) = ws_threads (dev s)"
  "length (rgb (dev (run_instr api t s))) = length (rgb (dev s))" "open_socks (run_instr api t s) = open_socks s"
  by (simp_all add: run_instr_def split: list.split)

lemma run_instr_calls: "set (calls (dev s)) \<subseteq> set (calls (dev (run_instr api t s)))"
  using instr_frame(4) by (auto simp: run_instr_def split: list.split)

text \<open>The invariant of the client table. A thread's socket is the one in its slot, a slot is free exactly when its
  thread is gone or past its last statement, and the descriptors that are open are those of the threads that
  have not unregistered theirs yet, one for each. The last part: who is past that call has made it.\<close>

definition serves :: "ws_thread \<Rightarrow> int \<Rightarrow> bool" where
  "serves t c = (case t of Dead \<Rightarrow> c < 0 | Returning \<Rightarrow> c < 0 | Created \<Rightarrow> 0 \<le> c
     | Polling s \<Rightarrow> c = s \<and> 0 \<le> c | Leaving s \<Rightarrow> c = s \<and> 0 \<le> c | Unregistered s \<Rightarrow> c = s \<and> 0 \<le> c)"

lemma serves_free: "serves t c \<Longrightarrow> c < 0 \<longleftrightarrow> t \<in> {Dead, Returning}"
  by (cases t) (auto simp: serves_def)

lemma serves_socket: "serves t c \<Longrightarrow> t \<in> {Polling x, Leaving x, Unregistered x} \<Longrightarrow> c = x \<and> 0 \<le> x"
  by (auto simp: serves_def)

definition registered :: "ws_thread \<Rightarrow> bool" where
  "registered t = (case t of Created \<Rightarrow> True | Polling _ \<Rightarrow> True | Leaving _ \<Rightarrow> True | _ \<Rightarrow> False)"

definition registered_slots :: "'w t1s \<Rightarrow> nat set" where
  "registered_slots d = {i. i < 3 \<and> registered (ws_threads d ! i)}"

definition table_inv :: "'w t1s_sys \<Rightarrow> bool" where
  "table_inv s \<longleftrightarrow> length (rgb (dev s)) = 3 \<and> length (ws_clients (dev s)) = 3 \<and> length (ws_threads (dev s)) = 3 \<and>
     (\<forall>i < 3. serves (ws_threads (dev s) ! i) (ws_clients (dev s) ! i)) \<and>
     open_socks s = (!) (ws_clients (dev s)) ` registered_slots (dev s) \<and>
     inj_on ((!) (ws_clients (dev s))) (registered_slots (dev s)) \<and>
     (\<forall>i < 3. \<forall>x. ws_threads (dev s) ! i = Unregistered x \<longrightarrow> Ws_unregister x \<in> set (calls (dev s)))"

text \<open>Every step changes one slot of the table and of the threads at most.\<close>

lemma table_inv_update:
  assumes inv: "table_inv s" and k: "k < 3" and new: "serves t c"
    and fresh: "registered t \<Longrightarrow> c \<in> open_socks s \<Longrightarrow> registered (ws_threads (dev s) ! k) \<and> ws_clients (dev s) ! k = c"
    and dev': "ws_clients (dev s') = (ws_clients (dev s))[k := c]" "ws_threads (dev s') = (ws_threads (dev s))[k := t]"
      "length (rgb (dev s')) = 3" "set (calls (dev s)) \<subseteq> set (calls (dev s'))"
    and unreg: "\<And>x. t = Unregistered x \<Longrightarrow> Ws_unregister x \<in> set (calls (dev s'))"
    and open': "open_socks s' = (open_socks s - (if registered (ws_threads (dev s) ! k) then {ws_clients (dev s) ! k} else {}))
      \<union> (if registered t then {c} else {})"
  shows "table_inv s'"
proof -
  let ?cl = "(!) (ws_clients (dev s))" and ?R = "registered_slots (dev s)"
  let ?cl' = "(!) (ws_clients (dev s'))" and ?R' = "registered_slots (dev s')"
  have len: "length (ws_clients (dev s)) = 3" "length (ws_threads (dev s)) = 3" and serv: "\<forall>i < 3. serves (ws_threads (dev s) ! i) (?cl i)"
    and op: "open_socks s = ?cl ` ?R" and inj: "inj_on ?cl ?R"
    using inv by (simp_all add: table_inv_def)
  have cl': "?cl' i = (if i = k then c else ?cl i)" if "i < 3" for i using that k len dev'(1) by simp
  have R': "?R' = (?R - {k}) \<union> (if registered t then {k} else {})"
    using k len dev'(2) by (auto simp: registered_slots_def nth_list_update)
  have R3: "i < 3" if "i \<in> ?R \<union> ?R'" for i using that by (auto simp: registered_slots_def)
  have others: "?cl' ` (?R - {k}) = ?cl ` (?R - {k})" using cl' R3 by (intro image_cong) auto
  have old: "open_socks s - (if registered (ws_threads (dev s) ! k) then {?cl k} else {}) = ?cl ` (?R - {k})"
    using inj k unfolding op by (auto simp: inj_on_def registered_slots_def)
  have "open_socks s' = ?cl' ` ?R'"
    unfolding open' old R' image_Un others using cl' [OF k] by auto
  moreover have "inj_on ?cl' ?R'"
  proof (rule inj_onI)
    fix i j
    assume ij: "i \<in> ?R'" "j \<in> ?R'" "?cl' i = ?cl' j"
    have "c \<notin> ?cl ` (?R - {k})" if "registered t"
      using fresh [OF that] inj k by (auto simp: op inj_on_def registered_slots_def)
    with ij inj cl' R3 [of i] R3 [of j] show "i = j"
      unfolding R' by (auto simp: inj_on_def split: if_splits)
  qed
  moreover have "\<forall>i < 3. serves (ws_threads (dev s') ! i) (?cl' i)"
    using serv new cl' k len dev'(2) by (auto simp: nth_list_update)
  moreover have "\<forall>i < 3. \<forall>x. ws_threads (dev s') ! i = Unregistered x \<longrightarrow> Ws_unregister x \<in> set (calls (dev s'))"
    using inv unreg dev'(2,4) k len by (auto simp: table_inv_def nth_list_update)
  ultimately show ?thesis using len dev'(1,2,3) by (simp add: table_inv_def)
qed

lemma table_inv_frame:
  "table_inv s \<Longrightarrow> ws_clients (dev s') = ws_clients (dev s) \<Longrightarrow> ws_threads (dev s') = ws_threads (dev s) \<Longrightarrow>
   length (rgb (dev s')) = 3 \<Longrightarrow> set (calls (dev s)) \<subseteq> set (calls (dev s')) \<Longrightarrow> open_socks s' = open_socks s \<Longrightarrow> table_inv s'"
  unfolding table_inv_def registered_slots_def by auto

text \<open>A thread that moves on in its slot and keeps its socket.\<close>

lemma table_inv_thread:
  assumes "table_inv s" "k < 3" "serves t (ws_clients (dev s) ! k)" "registered t" "registered (ws_threads (dev s) ! k)"
    and "ws_clients (dev s') = ws_clients (dev s)" "ws_threads (dev s') = (ws_threads (dev s))[k := t]"
      "length (rgb (dev s')) = 3" "set (calls (dev s)) \<subseteq> set (calls (dev s'))" "open_socks s' = open_socks s"
  shows "table_inv s'"
proof (rule table_inv_update [OF assms(1-3)])
  have k: "k \<in> registered_slots (dev s)" using assms(2,5) by (simp add: registered_slots_def)
  then have "ws_clients (dev s) ! k \<in> open_socks s" using assms(1) by (auto simp: table_inv_def)
  then show "open_socks s' = (open_socks s - (if registered (ws_threads (dev s) ! k) then {ws_clients (dev s) ! k} else {}))
      \<union> (if registered t then {ws_clients (dev s) ! k} else {})"
    using assms(4,5,10) by auto
  show "t = Unregistered x \<Longrightarrow> Ws_unregister x \<in> set (calls (dev s'))" for x
    using assms(4) by (simp add: registered_def)
qed (use assms(5-9) in simp_all)

lemma accept_table_inv:
  assumes "table_inv s" "0 \<le> sock" "sock \<notin> open_socks s"
  shows "table_inv (server_accept sock s)"
proof (cases "first_free (\<lambda>c. c < 0) (ws_clients (dev s)) = length (ws_clients (dev s))")
  case True
  with assms(1) show ?thesis
    by - (rule table_inv_frame [OF assms(1)], simp_all add: server_accept_def ws_setup_cb_def Let_def table_inv_def)
next
  case False
  let ?k = "first_free (\<lambda>c. c < 0) (ws_clients (dev s))"
  have len: "length (ws_clients (dev s)) = 3" "length (rgb (dev s)) = 3" using assms(1) by (simp_all add: table_inv_def)
  have k: "?k < 3" using False first_free_le [of "\<lambda>c. c < 0" "ws_clients (dev s)"] len by simp
  then have "ws_clients (dev s) ! ?k < 0" using first_free_free [of "\<lambda>c. c < 0" "ws_clients (dev s)"] len by simp
  moreover have "serves (ws_threads (dev s) ! ?k) (ws_clients (dev s) ! ?k)" using assms(1) k unfolding table_inv_def by metis
  ultimately have "\<not> registered (ws_threads (dev s) ! ?k)"
    by (auto simp: serves_def registered_def split: ws_thread.splits)
  then show ?thesis
    using False len assms(2,3)
    by - (rule table_inv_update [OF assms(1) k, of Created sock],
      auto simp: server_accept_def ws_setup_cb_def Let_def serves_def registered_def)
qed

lemma client_table_inv:
  assumes inv: "table_inv s"
  shows "table_inv (client_step api slot s)"
proof -
  let ?d = "dev s" and ?t = "ws_threads (dev s) ! slot" and ?c = "ws_clients (dev s) ! slot"
  have len: "length (rgb ?d) = 3" using inv by (simp add: table_inv_def)
  consider "3 \<le> slot" | "slot < 3" "code s (T_client slot) \<noteq> []" | "slot < 3" "code s (T_client slot) = []" by linarith
  then show ?thesis
  proof cases
    case 1
    then show ?thesis using inv by (simp add: client_step_def)
  next
    case 2
    then show ?thesis using inv len run_instr_calls [of s api "T_client slot"]
      by - (rule table_inv_frame [OF inv], simp_all add: client_step_def)
  next
    case 3
    have serv: "serves ?t ?c" using inv 3(1) unfolding table_inv_def by metis
    show ?thesis
    proof (cases ?t)
      case Dead
      then show ?thesis using inv 3 by (simp add: client_step_def)
    next
      case Created
      then show ?thesis using inv 3 len serv
        by - (rule table_inv_thread [OF inv 3(1), of "Polling ?c"], simp_all add: client_step_def Let_def serves_def registered_def)
    next
      case (Polling sock)
      let ?r = "ws_thread_receive api sock ?d"
      obtain new where "calls (snd ?r) = new @ calls ?d" using receive_calls by blast
      then have sub: "set (calls ?d) \<subseteq> set (calls (snd ?r))" by simp
      show ?thesis
      proof (cases "fst ?r")
        case Break
        then show ?thesis using inv 3 len serv Polling sub
          by - (rule table_inv_thread [OF inv 3(1), of "Leaving sock"],
            simp_all add: client_step_def case_prod_beta Let_def serves_def registered_def)
      next
        case Continue
        then show ?thesis using 3 len Polling sub
          by - (rule table_inv_frame [OF inv], simp_all add: client_step_def case_prod_beta Let_def)
      next
        case (Command cmd)
        then show ?thesis using 3 len Polling sub
          by - (rule table_inv_frame [OF inv], simp_all add: client_step_def case_prod_beta Let_def)
      qed
    next
      case (Leaving sock)
      then show ?thesis using inv 3 len serv
        by - (rule table_inv_update [OF inv 3(1), of "Unregistered sock" sock],
          auto simp: client_step_def ws_thread_unregister_def serves_def registered_def list_update_same_conv table_inv_def)
    next
      case (Unregistered sock)
      then show ?thesis using inv 3 len
        by - (rule table_inv_update [OF inv 3(1), of Returning "-1"],
          simp_all add: client_step_def ws_thread_clear_def serves_def registered_def)
    next
      case Returning
      then show ?thesis using inv 3 len serv
        by - (rule table_inv_update [OF inv 3(1), of Dead ?c],
          simp_all add: client_step_def ws_thread_return_def serves_def registered_def)
    qed
  qed
qed

lemma main_table_inv: "table_inv s \<Longrightarrow> table_inv (run_instr api t s)"
  by (rule table_inv_frame [of s]) (simp_all add: run_instr_calls table_inv_def)

lemma boot_table_inv: "table_inv (t1s_boot api w)"
proof -
  have "[Dead, Dead, Dead] ! i = Dead" if "i < 3" for i
    using that by (auto simp: numeral_3_eq_3 less_Suc_eq)
  then have "registered_slots (dev (t1s_boot api w)) = {}"
    by (auto simp: registered_slots_def t1s_boot_def t1s_init_def registered_def)
  then show ?thesis
    by (auto simp: table_inv_def t1s_boot_def t1s_init_def serves_def less_Suc_eq numeral_3_eq_3)
qed

lemma next_table_inv: "t1s_next api s s' \<Longrightarrow> table_inv s \<Longrightarrow> table_inv s'"
  by (cases rule: t1s_next.cases) (auto simp: main_table_inv client_table_inv accept_table_inv)

lemma reachable_table_inv: "t1s_reachable api w s \<Longrightarrow> table_inv s"
  by (induction rule: t1s_reachable.induct) (auto simp: boot_table_inv intro: next_table_inv)

text \<open>C9: the table of clients. In every interleaving of \<^verbatim>\<open>main\<close>, the client threads and the HTTP server, there
  are three slots and three LED channels; a client thread serves the socket that its slot holds;
  a slot is free exactly when its thread is gone or past its last statement; and the descriptors that have
  been handed to the program and not been closed are exactly those in the slots of the threads that have not unregistered theirs, no two of
  them the same: no descriptor is lost, closed twice or shared. A slot whose thread has unregistered
  still holds the number, which the network stack may give to a new client.\<close>

theorem client_table_consistent:
  assumes "t1s_reachable api w s" and "d = dev s"
  shows "length (ws_clients d) = 3 \<and> length (rgb d) = 3 \<and>
     (\<forall>i < 3. \<forall>sock. ws_threads d ! i \<in> {Polling sock, Leaving sock, Unregistered sock} \<longrightarrow> ws_clients d ! i = sock \<and> 0 \<le> sock) \<and>
     (\<forall>i < 3. ws_clients d ! i < 0 \<longleftrightarrow> ws_threads d ! i \<in> {Dead, Returning}) \<and>
     open_socks s = {ws_clients d ! i | i. i < 3 \<and> registered (ws_threads d ! i)} \<and>
     (\<forall>i < 3. \<forall>j < 3. i \<noteq> j \<longrightarrow> registered (ws_threads d ! i) \<longrightarrow> registered (ws_threads d ! j) \<longrightarrow> ws_clients d ! i \<noteq> ws_clients d ! j)"
proof -
  have inv: "table_inv s" using assms(1) by (rule reachable_table_inv)
  have serv: "serves (ws_threads d ! i) (ws_clients d ! i)" if "i < 3" for i
    using inv that unfolding table_inv_def assms(2) by metis
  have "open_socks s = {ws_clients d ! i | i. i < 3 \<and> registered (ws_threads d ! i)}"
    using inv by (auto simp: table_inv_def registered_slots_def assms(2))
  moreover have "\<forall>i < 3. \<forall>j < 3. i \<noteq> j \<longrightarrow> registered (ws_threads d ! i) \<longrightarrow> registered (ws_threads d ! j) \<longrightarrow> ws_clients d ! i \<noteq> ws_clients d ! j"
    using inv by (auto simp: table_inv_def registered_slots_def assms(2) inj_on_def)
  moreover have "\<forall>i < 3. \<forall>sock. ws_threads d ! i \<in> {Polling sock, Leaving sock, Unregistered sock} \<longrightarrow> ws_clients d ! i = sock \<and> 0 \<le> sock"
    using serv serves_socket by blast
  moreover have "\<forall>i < 3. ws_clients d ! i < 0 \<longleftrightarrow> ws_threads d ! i \<in> {Dead, Returning}"
    using serv serves_free by blast
  ultimately show ?thesis using inv by (simp add: table_inv_def assms(2))
qed

text \<open>A run of the concrete node: \<^verbatim>\<open>main\<close> starts the server, clients 5 and 6 connect, client 5 hangs up and its
  thread unregisters the socket, while the thread of client 6 is in the middle of a command, about to tell the first slot.\<close>

datatype t1s_event = Ev_main | Ev_client nat | Ev_accept int

fun t1s_step :: "'w t1s_api \<Rightarrow> t1s_event \<Rightarrow> 'w t1s_sys \<Rightarrow> 'w t1s_sys" where
  "t1s_step api Ev_main s = run_instr api T_main s"
| "t1s_step api (Ev_client slot) s = client_step api slot s"
| "t1s_step api (Ev_accept sock) s =
     (if server_up s \<and> 0 \<le> sock \<and> sock \<notin> open_socks s then server_accept sock s else s)"

lemma reachable_run: "t1s_reachable api w s \<Longrightarrow> t1s_reachable api w (run (t1s_step api) es s)"
proof (induction es arbitrary: s)
  case (Cons e es)
  have "t1s_reachable api w (t1s_step api e s)"
    using Cons.prems by (cases e) (auto intro: t1s_reachable.step t1s_next.intros)
  with Cons.IH show ?case by simp
qed simp

lemmas reachable_events = reachable_run [OF t1s_reachable.boot]

definition demo_connected :: "t1s_event list" where
  "demo_connected = replicate 6 Ev_main @ [Ev_accept 5, Ev_accept 6] @ replicate 5 (Ev_client 0) @ replicate 12 (Ev_client 1)"

definition demo_unregistered :: "t1s_event list" where
  "demo_unregistered = demo_connected @ [Ev_client 0]"

definition demo_state :: "t1s_event list \<Rightarrow> unit t1s_sys" where
  "demo_state es = run (t1s_step (demo_node ''A'')) es (t1s_boot (demo_node ''A'') ())"

lemma demo_reachable: "t1s_reachable (demo_node ''A'') () (demo_state es)"
  unfolding demo_state_def by (rule reachable_events)

lemma demo_unregistered_state:
  "ws_threads (dev (demo_state demo_unregistered)) = [Unregistered 5, Polling 6, Dead]"
  "ws_clients (dev (demo_state demo_unregistered)) = [5, 6, -1]"
  "code (demo_state demo_unregistered) (T_client 1) = [I_bcast 0 6, I_bcast 1 6, I_bcast 2 6, I_unlock]"
  by code_simp+

theorem client_table_consistent_witness: "open_socks (demo_state demo_unregistered) = {6}"
proof -
  have "{ws_clients (dev (demo_state demo_unregistered)) ! i | i. i < 3 \<and> registered (ws_threads (dev (demo_state demo_unregistered)) ! i)} = {6}"
    unfolding demo_unregistered_state by (auto simp: registered_def numeral_3_eq_3 less_Suc_eq intro!: exI [of _ 1])
  with client_table_consistent [OF demo_reachable refl, of demo_unregistered] show ?thesis by simp
qed

section \<open>Clients that go away\<close>

text \<open>C38: a client that is going away is still in the table between \<^verbatim>\<open>websocket_unregister\<close> and the store of
  -1. When the thread of another client is broadcasting a command at that moment and comes to its slot, it sends
  the state message to the descriptor all the same, after the call that closed it; the descriptor is then
  closed, or it already belongs to a new client of the table.\<close>

theorem broadcast_reaches_unregistered:
  assumes "t1s_reachable api w s" and "i < 3" and "ws_threads (dev s) ! i = Unregistered x"
    and "j < 3" and "code s (T_client j) = I_bcast i sock # rest" and "x \<noteq> sock"
  shows "\<exists>buf len. calls (dev (client_step api j s)) = Ws_send x buf len OP_TEXT # calls (dev s) \<and>
     Ws_unregister x \<in> set (calls (dev s)) \<and>
     (x \<notin> open_socks s \<or> (\<exists>k < 3. k \<noteq> i \<and> ws_clients (dev s) ! k = x \<and> registered (ws_threads (dev s) ! k)))"
proof -
  have inv: "table_inv s" using assms(1) by (rule reachable_table_inv)
  then have "serves (Unregistered x) (ws_clients (dev s) ! i)"
    using assms(2,3) unfolding table_inv_def by metis
  then have x: "ws_clients (dev s) ! i = x" "0 \<le> x" by (simp_all add: serves_def)
  have "calls (dev (client_step api j s)) = state_send api (rgb (dev s)) x # calls (dev s)"
    using assms(4-6) x by (simp add: client_step_def run_instr_def ws_broadcast_slot_def)
  moreover have "Ws_unregister x \<in> set (calls (dev s))"
    using inv assms(2,3) unfolding table_inv_def by metis
  moreover have "k \<noteq> i" if "k \<in> registered_slots (dev s)" for k
    using that assms(3) by (auto simp: registered_slots_def registered_def)
  then have "x \<notin> open_socks s \<or> (\<exists>k < 3. k \<noteq> i \<and> ws_clients (dev s) ! k = x \<and> registered (ws_threads (dev s) ! k))"
    using inv by (auto simp: table_inv_def registered_slots_def)
  ultimately show ?thesis by (simp add: state_send_def split: prod.splits)
qed

theorem broadcast_reaches_unregistered_witness:
  "\<exists>buf len. calls (dev (client_step (demo_node ''A'') 1 (demo_state demo_unregistered)))
     = Ws_send 5 buf len OP_TEXT # calls (dev (demo_state demo_unregistered))"
proof -
  have "ws_threads (dev (demo_state demo_unregistered)) ! 0 = Unregistered 5" by (simp add: demo_unregistered_state)
  from broadcast_reaches_unregistered [OF demo_reachable _ this _ demo_unregistered_state(3)[unfolded One_nat_def]]
  show ?thesis by auto
qed

text \<open>The slot of a client is free before its thread has returned. When the first slot's
  thread has stored -1 but not returned yet, the next client is put into that slot and
  \<^verbatim>\<open>k_thread_create\<close> is called on the thread object and the stack it still uses.\<close>

theorem thread_object_reused:
  assumes "t1s_reachable api w s" and "ws_threads (dev s) ! 0 = Returning" and "0 \<le> x"
  shows "calls (dev (server_accept x s)) = Thread_create 0 Returning # calls (dev s) \<and>
         ws_threads (dev (server_accept x s)) ! 0 = Created"
proof -
  have inv: "table_inv s" using assms(1) by (rule reachable_table_inv)
  then have "serves Returning (ws_clients (dev s) ! 0)"
    using assms(2) unfolding table_inv_def by (metis zero_less_numeral)
  then have "ws_clients (dev s) ! 0 < 0" by (simp add: serves_def)
  moreover obtain a b c t u v where "ws_clients (dev s) = [a, b, c]" "ws_threads (dev s) = [t, u, v]"
    using inv by (auto simp: table_inv_def numeral_3_eq_3 length_Suc_conv)
  ultimately show ?thesis
    using assms(2) by (simp add: server_accept_def ws_setup_cb_def Let_def)
qed

theorem thread_object_reused_witness:
  "calls (dev (server_accept 8 (demo_state (demo_unregistered @ [Ev_client 0]))))
     = Thread_create 0 Returning # calls (dev (demo_state (demo_unregistered @ [Ev_client 0])))"
proof -
  have "ws_threads (dev (demo_state (demo_unregistered @ [Ev_client 0]))) ! 0 = Returning" by code_simp
  from thread_object_reused [OF demo_reachable this, of 8] show ?thesis by simp
qed

end
