(* ===== verification/T1sFirmwareProps.thy ===== *)
theory T1sFirmwareProps
  imports T1sFirmware
begin

text \<open>
  The properties of the firmware upload: what a successful upload leaves in flash, what a
  failed one does, and that a reboot is scheduled only after the boot loader has accepted the
  upgrade. The flash and boot loader calls are constrained by their return codes, and for the bytes that a
  successful upload leaves in the slot by what the flash writer documents about its buffer (\<open>flash_writer\<close>).
\<close>

lemmas fw_ops [op_defs] =
  firmware_handler_def fw_begin_def fw_write_def fw_finish_def fw_error_def fw_abort_def

section \<open>Successful uploads\<close>

text \<open>No call of the flash writer fails.\<close>

definition flash_works :: "'w fw_api \<Rightarrow> bool" where
  "flash_works api \<longleftrightarrow> (\<forall>w. 0 \<le> fst (flash_img_init api w)) \<and>
     (\<forall>data flush w. 0 \<le> fst (flash_img_buffered_write api data flush w))"

definition writes :: "u8 list list \<Rightarrow> fw_call list" where
  "writes chunks = map (\<lambda>c. Flash_write c False) (filter (\<lambda>c. c \<noteq> []) chunks)"

lemma handler_more:
  assumes "flash_works api"
    and f': "f' = snd (firmware_handler api HTTP_SERVER_REQUEST_DATA_MORE data f)"
  shows "fw_in_progress f'"
    and "fw_received f' = (if fw_in_progress f then fw_received f else 0) + of_nat (length data)"
    and "fw_calls f' = writes [data] @ (if fw_in_progress f then [] else [Flash_init]) @ fw_calls f"
proof -
  have ok: "\<not> fst (flash_img_init api w) < 0" "\<not> fst (flash_img_buffered_write api b c w) < 0" for b c w
    using assms(1) by (simp_all add: flash_works_def not_less)
  show "fw_in_progress f'"
    and "fw_received f' = (if fw_in_progress f then fw_received f else 0) + of_nat (length data)"
    and "fw_calls f' = writes [data] @ (if fw_in_progress f then [] else [Flash_init]) @ fw_calls f"
    unfolding f'
    by (simp_all add: firmware_handler_def fw_begin_def fw_write_def case_prod_beta Let_def ok writes_def)
qed

lemma more_run:
  assumes "flash_works api" "fw_in_progress f"
    and f': "f' = fw_run api (map (\<lambda>c. (HTTP_SERVER_REQUEST_DATA_MORE, c)) chunks) f"
  shows "fw_in_progress f' \<and> fw_received f' = fw_received f + of_nat (length (concat chunks)) \<and>
         fw_calls f' = rev (writes chunks) @ fw_calls f"
  using assms(2) unfolding f'
proof (induction chunks arbitrary: f)
  case Nil
  then show ?case by (simp add: writes_def)
next
  case (Cons c chunks)
  let ?f = "snd (firmware_handler api HTTP_SERVER_REQUEST_DATA_MORE c f)"
  have "fw_in_progress ?f" "fw_received ?f = fw_received f + of_nat (length c)"
    "fw_calls ?f = writes [c] @ fw_calls f"
    using handler_more [OF assms(1) refl, of c f] Cons.prems by simp_all
  with Cons.IH [of ?f] show ?case by (simp add: writes_def)
qed

lemma fw_run_append: "fw_run api (xs @ ys) f = fw_run api ys (fw_run api xs f)"
  by (induction xs arbitrary: f) auto

lemma fw_reset [simp]: "fw_in_progress (fw_abort f) = False" "fw_received (fw_abort f) = 0"
  "fw_calls (fw_abort f) = fw_calls f" "fw_world (fw_abort f) = fw_world f"
  by (simp_all add: fw_abort_def)

text \<open>The bytes that the calls since the last initialisation handed to the flash writer, oldest byte
  first; the calls are newest first. Whether they are in the flash already or still in the buffer of the writer
  is a matter of the flush flag; see \<open>flash_writer\<close>.\<close>

fun flash_image :: "fw_call list \<Rightarrow> u8 list" where
  "flash_image [] = []"
| "flash_image (Flash_init # cs) = []"
| "flash_image (Flash_write data flush # cs) = flash_image cs @ data"
| "flash_image (_ # cs) = flash_image cs"

lemma flash_image_writes:
  "flash_image (rev (writes chunks) @ Flash_init # cs) = concat chunks"
proof (induction chunks rule: rev_induct)
  case (snoc c chunks)
  have "writes (chunks @ [c]) = writes chunks @ (if c = [] then [] else [Flash_write c False])"
    by (simp add: writes_def)
  with snoc show ?case by simp
qed (simp add: writes_def)

lemma handler_final:
  assumes "flash_works api" and "\<And>w. 0 \<le> fst (boot_request_upgrade api w)"
    and "firmware_handler api HTTP_SERVER_REQUEST_DATA_FINAL data f = (res, f')"
  shows "fw_calls f' = Schedule_reboot 2 # Request_upgrade #
      (if data = [] then [] else [Flash_write data True]) @
      (if fw_in_progress f then [] else [Flash_init]) @ fw_calls f"
    and "\<not> fw_in_progress f'" "fw_received f' = 0" "res_final_chunk res"
    and "res_body res = snd (fw_snprintk api 64
      (ok_text ((if fw_in_progress f then fw_received f else 0) + of_nat (length data))))"
proof -
  have "\<not> fst (flash_img_init api w) < 0" "\<not> fst (flash_img_buffered_write api b t w) < 0"
    "\<not> fst (boot_request_upgrade api w) < 0" for b t w
    using assms(1,2) by (simp_all add: flash_works_def not_less)
  note facts = this firmware_handler_def fw_begin_def fw_write_def fw_finish_def case_prod_beta Let_def
  show "fw_calls f' = Schedule_reboot 2 # Request_upgrade #
      (if data = [] then [] else [Flash_write data True]) @
      (if fw_in_progress f then [] else [Flash_init]) @ fw_calls f"
    using assms(3) by (auto simp: facts split: if_splits)
  show "\<not> fw_in_progress f'" "fw_received f' = 0" "res_final_chunk res"
    using assms(3) by (auto simp: facts split: if_splits)
  show "res_body res = snd (fw_snprintk api 64
      (ok_text ((if fw_in_progress f then fw_received f else 0) + of_nat (length data))))"
    using assms(3) by (auto simp: facts split: if_splits)
qed

text \<open>What any number of leading chunks leaves behind, on an idle device.\<close>

lemma leading_chunks:
  assumes "flash_works api" and "\<not> fw_in_progress f"
    and f': "f' = fw_run api (map (\<lambda>c. (HTTP_SERVER_REQUEST_DATA_MORE, c)) chunks) f"
  shows "(if fw_in_progress f' then fw_received f' else 0) = of_nat (length (concat chunks))"
    and "(if fw_in_progress f' then [] else [Flash_init]) @ fw_calls f'
           = rev (writes chunks) @ Flash_init # fw_calls f"
proof -
  have "(if fw_in_progress f' then fw_received f' else 0) = of_nat (length (concat chunks)) \<and>
      (if fw_in_progress f' then [] else [Flash_init]) @ fw_calls f'
        = rev (writes chunks) @ Flash_init # fw_calls f"
  proof (cases chunks)
    case Nil
    with assms(2) f' show ?thesis by (simp add: writes_def)
  next
    case (Cons c cs)
    let ?f = "snd (firmware_handler api HTTP_SERVER_REQUEST_DATA_MORE c f)"
    have first: "fw_in_progress ?f" "fw_received ?f = of_nat (length c)"
      "fw_calls ?f = writes [c] @ Flash_init # fw_calls f"
      using handler_more [OF assms(1) refl, of c f] assms(2) by simp_all
    have "f' = fw_run api (map (\<lambda>c. (HTTP_SERVER_REQUEST_DATA_MORE, c)) cs) ?f"
      using f' Cons by simp
    from more_run [OF assms(1) first(1) this] first(2,3) Cons show ?thesis
      by (simp add: writes_def)
  qed
  then show "(if fw_in_progress f' then fw_received f' else 0) = of_nat (length (concat chunks))"
    and "(if fw_in_progress f' then [] else [Flash_init]) @ fw_calls f'
           = rev (writes chunks) @ Flash_init # fw_calls f"
    by blast+
qed

text \<open>What the flash writer documents. \<open>slot w\<close> are the bytes in the flash since the initialisation and those still in the
  writer's buffer: the initialisation forgets both, a write that succeeds adds its data behind them, and with the flush flag it leaves the buffer empty.
  The upgrade request does not touch the image.\<close>

definition flash_writer :: "'w fw_api \<Rightarrow> ('w \<Rightarrow> u8 list \<times> u8 list) \<Rightarrow> bool" where
  "flash_writer api slot \<longleftrightarrow>
     (\<forall>w. 0 \<le> fst (flash_img_init api w) \<longrightarrow> slot (snd (flash_img_init api w)) = ([], [])) \<and>
     (\<forall>data flush w. let (flash, buf) = slot w; (r, w') = flash_img_buffered_write api data flush w; (flash', buf') = slot w'
        in 0 \<le> r \<longrightarrow> flash' @ buf' = flash @ buf @ data \<and> (flush \<longrightarrow> buf' = [])) \<and>
     (\<forall>w. slot (snd (boot_request_upgrade api w)) = slot w)"

definition slot_bytes :: "('w \<Rightarrow> u8 list \<times> u8 list) \<Rightarrow> 'w \<Rightarrow> u8 list" where
  "slot_bytes slot w = fst (slot w) @ snd (slot w)"

lemma flash_writerD:
  assumes "flash_writer api slot" "flash_works api"
  shows "slot (snd (flash_img_init api w)) = ([], [])"
    and "slot_bytes slot (snd (flash_img_buffered_write api data flush w)) = slot_bytes slot w @ data"
    and "flush \<Longrightarrow> snd (slot (snd (flash_img_buffered_write api data flush w))) = []"
    and "slot (snd (boot_request_upgrade api w)) = slot w"
  using assms by (simp_all add: flash_writer_def flash_works_def slot_bytes_def case_prod_beta Let_def)

text \<open>The bytes of the slot after one more chunk; an idle device starts with an empty slot.\<close>

definition current_bytes :: "('w \<Rightarrow> u8 list \<times> u8 list) \<Rightarrow> 'w fw \<Rightarrow> u8 list" where
  "current_bytes slot f = (if fw_in_progress f then slot_bytes slot (fw_world f) else [])"

lemma chunk_bytes:
  assumes "flash_writer api slot" "flash_works api"
    and "f' = snd (firmware_handler api HTTP_SERVER_REQUEST_DATA_MORE data f)"
  shows "current_bytes slot f' = current_bytes slot f @ data"
proof -
  have ok: "\<not> fst (flash_img_init api w) < 0" "\<not> fst (flash_img_buffered_write api b c w) < 0" for b c w
    using assms(2) by (simp_all add: flash_works_def not_less)
  have "slot_bytes slot (snd (flash_img_init api w)) = []" for w
    using flash_writerD(1) [OF assms(1,2)] by (simp add: slot_bytes_def)
  then show ?thesis
    unfolding assms(3)
    by (simp add: current_bytes_def firmware_handler_def fw_begin_def fw_write_def case_prod_beta Let_def ok
        flash_writerD(2) [OF assms(1,2)])
qed

lemma chunks_bytes:
  assumes "flash_writer api slot" "flash_works api"
  shows "current_bytes slot (fw_run api (map (\<lambda>c. (HTTP_SERVER_REQUEST_DATA_MORE, c)) chunks) f) = current_bytes slot f @ concat chunks"
proof (induction chunks arbitrary: f)
  case (Cons c chunks)
  from chunk_bytes [OF assms refl, of c f] Cons.IH [of "snd (firmware_handler api HTTP_SERVER_REQUEST_DATA_MORE c f)"]
  show ?case by simp
qed simp

lemma final_bytes:
  assumes "flash_writer api slot" "flash_works api" and "\<And>w. 0 \<le> fst (boot_request_upgrade api w)"
    and "f' = snd (firmware_handler api HTTP_SERVER_REQUEST_DATA_FINAL data f)"
  shows "slot_bytes slot (fw_world f') = current_bytes slot f @ data"
    and "data \<noteq> [] \<Longrightarrow> snd (slot (fw_world f')) = []"
proof -
  have ok: "\<not> fst (flash_img_init api w) < 0" "\<not> fst (flash_img_buffered_write api b c w) < 0"
    "\<not> fst (boot_request_upgrade api w) < 0" for b c w
    using assms(2,3) by (simp_all add: flash_works_def not_less)
  have empty: "slot_bytes slot (snd (flash_img_init api w)) = []"
    and boot: "slot_bytes slot (snd (boot_request_upgrade api w)) = slot_bytes slot w" for w
    using flash_writerD(1,4) [OF assms(1,2)] by (simp_all add: slot_bytes_def)
  note facts = firmware_handler_def fw_begin_def fw_write_def fw_finish_def case_prod_beta Let_def ok
  show "slot_bytes slot (fw_world f') = current_bytes slot f @ data"
    unfolding assms(4) by (simp add: current_bytes_def facts empty boot flash_writerD(2) [OF assms(1,2)])
  show "snd (slot (fw_world f')) = []" if "data \<noteq> []"
    unfolding assms(4) using that by (simp add: facts flash_writerD(3,4) [OF assms(1,2)])
qed

text \<open>C7: a complete upload. From an idle device, if the flash writer and the boot loader accept everything, a request of any
  number of chunks makes exactly these calls: one initialisation, one write for each chunk that is not empty, in order and
  without the flush flag, one write of the last piece with it, one upgrade request and one scheduled reboot. If the last
  piece has data, all transmitted bytes are then in the flash, in order, and nothing is left in the buffer of the
  writer; if it has none, the flush is never asked for, and all that holds is that the flash and the buffer together have the bytes. The answer to the last piece
  reports the number of bytes modulo \<open>2 ^ 32\<close>, and the device is idle again.\<close>

theorem upload_complete:
  assumes "flash_works api" and "flash_writer api slot" and "\<And>w. 0 \<le> fst (boot_request_upgrade api w)"
    and "\<not> fw_in_progress f"
    and "before = fw_run api (map (\<lambda>c. (HTTP_SERVER_REQUEST_DATA_MORE, c)) chunks) f"
    and "firmware_handler api HTTP_SERVER_REQUEST_DATA_FINAL tail before = (res, f')"
  shows "f' = fw_run api (upload chunks tail) f \<and>
    rev (fw_calls f') = rev (fw_calls f) @ [Flash_init] @ map (\<lambda>c. Flash_write c False) (filter (\<lambda>c. c \<noteq> []) chunks)
      @ (if tail = [] then [] else [Flash_write tail True]) @ [Request_upgrade, Schedule_reboot 2] \<and>
    (if tail = [] then slot_bytes slot (fw_world f') = concat chunks
     else slot (fw_world f') = (concat chunks @ tail, [])) \<and>
    \<not> fw_in_progress f' \<and> fw_received f' = 0 \<and> res_final_chunk res \<and>
    res_body res = snd (fw_snprintk api 64 (ok_text (of_nat (length (concat chunks @ tail)))))"
proof -
  let ?w = "if tail = [] then [] else [Flash_write tail True]"
  note lead = leading_chunks [OF assms(1,4,5)]
  note last = handler_final [OF assms(1,3,6)]
  have calls: "fw_calls f' = Schedule_reboot 2 # Request_upgrade # (?w @ rev (writes chunks)) @ Flash_init # fw_calls f"
    using last(1) lead(2) by simp
  have "current_bytes slot before = concat chunks"
    using chunks_bytes [OF assms(2,1), of chunks f] assms(4,5) by (simp add: current_bytes_def)
  then have bytes: "slot_bytes slot (fw_world f') = concat chunks @ tail" "tail \<noteq> [] \<Longrightarrow> snd (slot (fw_world f')) = []"
    using final_bytes [OF assms(2,1,3), of f' tail before] assms(6) by simp_all
  then have "if tail = [] then slot_bytes slot (fw_world f') = concat chunks
     else slot (fw_world f') = (concat chunks @ tail, [])"
    by (auto simp: slot_bytes_def prod_eq_iff)
  moreover have "f' = fw_run api (upload chunks tail) f"
    using assms(5,6) by (simp add: upload_def fw_run_append)
  moreover have "rev (fw_calls f') = rev (fw_calls f) @ [Flash_init] @ map (\<lambda>c. Flash_write c False) (filter (\<lambda>c. c \<noteq> []) chunks)
      @ (if tail = [] then [] else [Flash_write tail True]) @ [Request_upgrade, Schedule_reboot 2]"
    using calls by (simp add: writes_def)
  moreover have "res_body res = snd (fw_snprintk api 64 (ok_text (of_nat (length (concat chunks @ tail)))))"
    using last(5) lead(1) by simp
  ultimately show ?thesis using last(2-4) by blast
qed

text \<open>A flash writer that accepts \<open>n\<close> writes and then fails, for the witnesses.\<close>

definition demo_flash :: "nat fw_api" where
  "demo_flash = \<lparr>flash_img_init = (\<lambda>w. (0, w)),
     flash_img_buffered_write = (\<lambda>b t w. if w = 0 then (- 5, 10) else (0, w - 1)),
     boot_request_upgrade = (\<lambda>w. (0, w)),
     fw_snprintk = (\<lambda>n s. (int (length s), take (n - 1) s))\<rparr>"

definition good_flash :: "unit fw_api" where
  "good_flash = \<lparr>flash_img_init = (\<lambda>w. (0, w)), flash_img_buffered_write = (\<lambda>b t w. (0, w)),
     boot_request_upgrade = (\<lambda>w. (0, w)), fw_snprintk = (\<lambda>n s. (int (length s), take (n - 1) s))\<rparr>"

lemma good_flash_works: "flash_works good_flash" "0 \<le> fst (boot_request_upgrade good_flash w)"
  by (simp_all add: flash_works_def good_flash_def)

text \<open>A flash writer that writes blocks of four bytes and keeps the rest in its buffer.\<close>

definition block_write :: "u8 list \<Rightarrow> bool \<Rightarrow> u8 list \<times> u8 list \<Rightarrow> u8 list \<times> u8 list" where
  "block_write data flush w = (let bytes = fst w @ snd w @ data; n = (if flush then length bytes else length bytes div 4 * 4)
     in (take n bytes, drop n bytes))"

definition block_flash :: "(u8 list \<times> u8 list) fw_api" where
  "block_flash = \<lparr>flash_img_init = (\<lambda>w. (0, ([], []))), flash_img_buffered_write = (\<lambda>b t w. (0, block_write b t w)),
     boot_request_upgrade = (\<lambda>w. (0, w)), fw_snprintk = (\<lambda>n s. (int (length s), take (n - 1) s))\<rparr>"

lemma block_write_bytes: "fst (block_write d b w) @ snd (block_write d b w) = fst w @ snd w @ d"
  by (simp only: block_write_def Let_def fst_conv snd_conv append_take_drop_id)

lemma block_flash_works: "flash_works block_flash" "flash_writer block_flash (\<lambda>w. w)" "0 \<le> fst (boot_request_upgrade block_flash w)"
  using block_write_bytes
  by (simp_all add: flash_works_def flash_writer_def block_flash_def case_prod_beta Let_def) (simp add: block_write_def Let_def)

theorem upload_complete_witness:
  "fw_world (fw_run block_flash (upload [[1, 2], [], [3]] [4, 5]) (fw_init_state ([], []))) = ([1, 2, 3, 4, 5], [])"
proof -
  have idle: "\<not> fw_in_progress (fw_init_state ([], []))" by (simp add: fw_init_state_def)
  let ?b = "fw_run block_flash (map (\<lambda>c. (HTTP_SERVER_REQUEST_DATA_MORE, c)) [[1, 2], [], [3]]) (fw_init_state ([], []))"
  from upload_complete [OF block_flash_works idle refl surjective_pairing, where chunks = "[[1, 2], [], [3]]" and tail = "[4, 5]"]
  show ?thesis by auto
qed

section \<open>Every run\<close>

text \<open>A reboot is only ever scheduled right after an upgrade request (calls are newest first).\<close>

fun reboots_ok :: "fw_call list \<Rightarrow> bool" where
  "reboots_ok [] = True"
| "reboots_ok (Schedule_reboot n # cs) = (cs \<noteq> [] \<and> hd cs = Request_upgrade \<and> reboots_ok cs)"
| "reboots_ok (c # cs) = reboots_ok cs"

definition fw_inv :: "'w fw \<Rightarrow> bool" where
  "fw_inv f \<longleftrightarrow> reboots_ok (fw_calls f) \<and>
     fw_received f = (if fw_in_progress f then of_nat (length (flash_image (fw_calls f))) else 0)"

definition fw_step :: "'w fw_api \<Rightarrow> transaction_status \<times> u8 list \<Rightarrow> 'w fw \<Rightarrow> 'w fw" where
  "fw_step api req f = snd (firmware_handler api (fst req) (snd req) f)"

lemma fw_run_run: "fw_run api reqs f = run (fw_step api) reqs f"
  by (induction reqs arbitrary: f) (auto simp: fw_step_def)

lemma begin_inv:
  "fw_inv f \<Longrightarrow> reboots_ok (fw_calls (snd (fw_begin api f))) \<and>
     (fst (fw_begin api f) \<longrightarrow> fw_inv (snd (fw_begin api f)) \<and> fw_in_progress (snd (fw_begin api f)))"
  by (auto simp: fw_begin_def fw_inv_def case_prod_beta Let_def)

lemma write_inv:
  "fw_inv f \<Longrightarrow> fw_in_progress f \<Longrightarrow> reboots_ok (fw_calls (snd (fw_write api data final f))) \<and>
     (fst (fw_write api data final f) \<longrightarrow> fw_inv (snd (fw_write api data final f)))"
  by (auto simp: fw_write_def fw_inv_def case_prod_beta Let_def)

lemma error_inv: "reboots_ok (fw_calls f) \<Longrightarrow> fw_inv (snd (fw_error api res f))"
  by (simp add: fw_error_def fw_inv_def case_prod_beta Let_def)

lemma finish_inv: "fw_inv f \<Longrightarrow> fw_inv (snd (fw_finish api res f))"
  by (auto simp: fw_finish_def fw_error_def fw_inv_def case_prod_beta Let_def)

lemma handler_inv: "fw_inv f \<Longrightarrow> fw_inv (snd (firmware_handler api status data f))"
proof -
  assume inv: "fw_inv f"
  let ?final = "status = HTTP_SERVER_REQUEST_DATA_FINAL" and ?b = "fw_begin api f"
  let ?w = "fw_write api data ?final (snd ?b)"
  have b: "reboots_ok (fw_calls (snd ?b))" "fst ?b \<Longrightarrow> fw_inv (snd ?b)" "fst ?b \<Longrightarrow> fw_in_progress (snd ?b)"
    using begin_inv [OF inv, of api] by simp_all
  then have w: "fst ?b \<Longrightarrow> reboots_ok (fw_calls (snd ?w))" "fst ?b \<Longrightarrow> fst ?w \<Longrightarrow> fw_inv (snd ?w)"
    using write_inv [of "snd ?b" api data ?final] by simp_all
  have "fw_inv (fw_abort f)" using inv by (simp add: fw_inv_def)
  with inv b w show ?thesis
    by (auto simp: firmware_handler_def case_prod_beta Let_def error_inv finish_inv)
qed

interpretation firmware: machine "fw_step api" fw_inv for api
  by unfold_locales (simp add: fw_step_def handler_inv)

text \<open>C16: whatever sequence of data, abort and completion calls the HTTP server makes, and
  whatever the flash and the boot loader answer: the byte counter is the length of what was
  written since the flash was initialised (modulo \<open>2 ^ 32\<close>) while an upload is in progress and
  zero otherwise, and every scheduled reboot directly follows an upgrade request.\<close>

theorem firmware_state_consistent:
  "fw_received (fw_run api reqs (fw_init_state w)) =
     (if fw_in_progress (fw_run api reqs (fw_init_state w))
      then of_nat (length (flash_image (fw_calls (fw_run api reqs (fw_init_state w))))) else 0) \<and>
   reboots_ok (fw_calls (fw_run api reqs (fw_init_state w)))"
proof -
  have "fw_inv (fw_init_state w)" by (simp add: fw_inv_def fw_init_state_def)
  from firmware.run_inv [OF this] show ?thesis unfolding fw_run_run fw_inv_def by blast
qed

section \<open>Failures\<close>

lemma write_failure:
  assumes "status \<in> {HTTP_SERVER_REQUEST_DATA_MORE, HTTP_SERVER_REQUEST_DATA_FINAL}"
    and "fw_in_progress f" and "data \<noteq> []"
    and "fst (flash_img_buffered_write api data (status = HTTP_SERVER_REQUEST_DATA_FINAL) (fw_world f)) < 0"
    and "f' = snd (firmware_handler api status data f)"
  shows "fw_calls f' = Flash_write data (status = HTTP_SERVER_REQUEST_DATA_FINAL) # fw_calls f"
    and "\<not> fw_in_progress f'" and "fw_received f' = 0"
  using assms
  by (auto simp: firmware_handler_def fw_begin_def fw_write_def fw_error_def case_prod_beta Let_def)

text \<open>A failed write ends the upload. The call answers with the error message and closes
  the response, without the header that lets another node's dashboard read it; no upgrade is
  requested and no reboot scheduled, and the device is idle again.\<close>

theorem failed_write_aborts:
  assumes "status \<in> {HTTP_SERVER_REQUEST_DATA_MORE, HTTP_SERVER_REQUEST_DATA_FINAL}"
    and "fw_in_progress f" and "data \<noteq> []"
    and "fst (flash_img_buffered_write api data (status = HTTP_SERVER_REQUEST_DATA_FINAL) (fw_world f)) < 0"
    and "firmware_handler api status data f = (res, f')"
  shows "res_body res = snd (fw_snprintk api 64 error_text) \<and> res_final_chunk res \<and> res_headers res = [] \<and>
     fw_calls f' = Flash_write data (status = HTTP_SERVER_REQUEST_DATA_FINAL) # fw_calls f \<and>
     \<not> fw_in_progress f' \<and> fw_received f' = 0"
  using assms
  by (auto simp: firmware_handler_def fw_begin_def fw_write_def fw_error_def empty_response_def
      case_prod_beta Let_def)

theorem failed_write_aborts_witness:
  "fw_calls (snd (firmware_handler demo_flash HTTP_SERVER_REQUEST_DATA_FINAL [9]
     ((fw_init_state 0)\<lparr>fw_in_progress := True\<rparr>))) = [Flash_write [9] True]"
proof -
  let ?f = "(fw_init_state 0)\<lparr>fw_in_progress := True\<rparr> :: nat fw"
  have 1: "HTTP_SERVER_REQUEST_DATA_FINAL \<in> {HTTP_SERVER_REQUEST_DATA_MORE, HTTP_SERVER_REQUEST_DATA_FINAL}"
    by simp
  have 2: "fst (flash_img_buffered_write demo_flash [9]
      (HTTP_SERVER_REQUEST_DATA_FINAL = HTTP_SERVER_REQUEST_DATA_FINAL) (fw_world ?f)) < 0"
    by (simp add: demo_flash_def fw_init_state_def)
  from failed_write_aborts [OF 1 _ _ 2 surjective_pairing] show ?thesis
    by (simp add: fw_init_state_def)
qed

text \<open>The flush is tied to the data. When the final call carries no data, the flash writer
  is never asked to flush what it has buffered, and still the upgrade is requested and the
  reboot scheduled.\<close>

theorem empty_final_chunk_never_flushes:
  assumes "flash_works api" and "\<And>w. 0 \<le> fst (boot_request_upgrade api w)"
    and "\<not> fw_in_progress f" and "fw_calls f = []"
  shows "Request_upgrade \<in> set (fw_calls (fw_run api (upload chunks []) f)) \<and>
     (\<forall>data. Flash_write data True \<notin> set (fw_calls (fw_run api (upload chunks []) f)))"
proof -
  let ?b = "fw_run api (map (\<lambda>c. (HTTP_SERVER_REQUEST_DATA_MORE, c)) chunks) f"
  note lead = leading_chunks(2) [OF assms(1,3) refl, of chunks]
  have "fw_run api (upload chunks []) f = snd (firmware_handler api HTTP_SERVER_REQUEST_DATA_FINAL [] ?b)"
    by (simp add: upload_def fw_run_append)
  then have "fw_calls (fw_run api (upload chunks []) f)
      = Schedule_reboot 2 # Request_upgrade # rev (writes chunks) @ [Flash_init]"
    using handler_final(1) [OF assms(1,2) surjective_pairing, of "[]" ?b] lead assms(4) by simp
  then show ?thesis by (auto simp: writes_def)
qed

theorem empty_final_chunk_never_flushes_witness:
  "Request_upgrade \<in> set (fw_calls (fw_run good_flash (upload [[1, 2]] []) (fw_init_state ())))"
  using empty_final_chunk_never_flushes [OF good_flash_works, of "fw_init_state ()" "[[1, 2]]"]
  by (simp add: fw_init_state_def)

text \<open>C39: the handler does not remember a failure. If a write fails in the middle of a request
  and the server still delivers the last chunk, the handler starts over: it initialises the
  flash again, writes that chunk alone at the start of the slot, requests the upgrade and
  schedules the reboot.\<close>

theorem tail_after_failure_is_installed:
  assumes "fw_in_progress f" and "data \<noteq> []"
    and "fst (flash_img_buffered_write api data False (fw_world f)) < 0"
    and "g = snd (firmware_handler api HTTP_SERVER_REQUEST_DATA_MORE data f)"
    and "0 \<le> fst (flash_img_init api (fw_world g))"
    and "0 \<le> fst (flash_img_buffered_write api tail True (snd (flash_img_init api (fw_world g))))"
    and "\<And>w. 0 \<le> fst (boot_request_upgrade api w)" and "tail \<noteq> []"
    and "h = snd (firmware_handler api HTTP_SERVER_REQUEST_DATA_FINAL tail g)"
  shows "flash_image (fw_calls h) = tail \<and>
     fw_calls h = [Schedule_reboot 2, Request_upgrade, Flash_write tail True, Flash_init,
                   Flash_write data False] @ fw_calls f"
proof -
  have "fw_calls g = Flash_write data False # fw_calls f" "\<not> fw_in_progress g"
    using write_failure(1,2) [of HTTP_SERVER_REQUEST_DATA_MORE f data api g, OF _ assms(1,2)]
      assms(3,4) by simp_all
  moreover have "\<not> fst (flash_img_init api (fw_world g)) < 0"
    "\<not> fst (flash_img_buffered_write api tail True (snd (flash_img_init api (fw_world g)))) < 0"
    "\<not> fst (boot_request_upgrade api w) < 0" for w
    using assms(5-7) by (simp_all add: not_less)
  ultimately have "fw_calls h = [Schedule_reboot 2, Request_upgrade, Flash_write tail True, Flash_init,
      Flash_write data False] @ fw_calls f"
    using assms(8,9)
    by (simp add: firmware_handler_def fw_begin_def fw_write_def fw_finish_def case_prod_beta Let_def)
  then show ?thesis by simp
qed

theorem tail_after_failure_is_installed_witness:
  "flash_image (fw_calls (fw_run demo_flash
     [(HTTP_SERVER_REQUEST_DATA_MORE, [1, 2]), (HTTP_SERVER_REQUEST_DATA_FINAL, [3])]
     ((fw_init_state 0)\<lparr>fw_in_progress := True\<rparr>))) = [3]"
proof -
  let ?f = "(fw_init_state 0)\<lparr>fw_in_progress := True\<rparr> :: nat fw"
  have "fst (flash_img_buffered_write demo_flash [1, 2] False (fw_world ?f)) < 0"
    by (simp add: demo_flash_def fw_init_state_def)
  from tail_after_failure_is_installed [OF _ _ this refl, where tail = "[3]"] show ?thesis
    by (simp add: demo_flash_def fw_init_state_def firmware_handler_def fw_begin_def fw_write_def
        fw_error_def fw_abort_def)
qed

section \<open>What can be installed\<close>

text \<open>The data of the pieces in a list of handler calls, and a part of a request: pieces to which more belongs, and calls that report
  the end of a transaction, which the handler ignores.\<close>

definition pieces :: "(transaction_status \<times> u8 list) list \<Rightarrow> u8 list" where
  "pieces rs = concat (map snd (filter (\<lambda>r. fst r = HTTP_SERVER_REQUEST_DATA_MORE) rs))"

definition unfinished :: "(transaction_status \<times> u8 list) list \<Rightarrow> bool" where
  "unfinished rs \<longleftrightarrow> (\<forall>r \<in> set rs. fst r \<in> {HTTP_SERVER_REQUEST_DATA_MORE, HTTP_SERVER_TRANSACTION_COMPLETE})"

lemma pieces_simps [simp]: "pieces [] = []" "pieces (rs @ [(HTTP_SERVER_REQUEST_DATA_MORE, data)]) = pieces rs @ data"
  "pieces (rs @ [(HTTP_SERVER_TRANSACTION_COMPLETE, data)]) = pieces rs"
  by (simp_all add: pieces_def)

lemma unfinished_simps [simp]: "unfinished []"
  "unfinished (rs @ [(st, data)]) \<longleftrightarrow> unfinished rs \<and> st \<in> {HTTP_SERVER_REQUEST_DATA_MORE, HTTP_SERVER_TRANSACTION_COMPLETE}"
  by (auto simp: unfinished_def)

text \<open>While an upload is in progress, the bytes handed to the writer are those of the last calls.\<close>

definition upload_inv :: "(transaction_status \<times> u8 list) list \<Rightarrow> 'w fw \<Rightarrow> bool" where
  "upload_inv reqs f \<longleftrightarrow> (fw_in_progress f \<longrightarrow>
     (\<exists>early ps. reqs = early @ ps \<and> unfinished ps \<and> flash_image (fw_calls f) = pieces ps))"

lemma fw_run_snoc: "fw_run api (reqs @ [r]) f = snd (firmware_handler api (fst r) (snd r) (fw_run api reqs f))"
  by (cases r) (simp add: fw_run_append)

text \<open>After the start of a call, the bytes are those of the last calls in any case.\<close>

lemma begin_image:
  assumes "upload_inv reqs f" "fst (fw_begin api f)"
  shows "\<exists>early ps. reqs = early @ ps \<and> unfinished ps \<and> flash_image (fw_calls (snd (fw_begin api f))) = pieces ps"
proof (cases "fw_in_progress f")
  case True
  then show ?thesis using assms(1) by (simp add: upload_inv_def fw_begin_def)
next
  case False
  then have "flash_image (fw_calls (snd (fw_begin api f))) = pieces []"
    by (simp add: fw_begin_def case_prod_beta Let_def)
  then show ?thesis by (intro exI [of _ reqs] exI [of _ "[]"]) simp
qed

lemma write_image: "fst (fw_write api data final f) \<Longrightarrow> flash_image (fw_calls (snd (fw_write api data final f))) = flash_image (fw_calls f) @ data"
  by (auto simp: fw_write_def case_prod_beta Let_def split: if_splits)

lemma handler_upload_inv:
  assumes "upload_inv reqs f"
  shows "upload_inv (reqs @ [(st, data)]) (snd (firmware_handler api st data f))"
proof -
  have idle: "upload_inv (reqs @ [(st, data)]) g" if "\<not> fw_in_progress g" for g :: "'a fw"
    using that by (simp add: upload_inv_def)
  show ?thesis
  proof (cases st)
    case HTTP_SERVER_REQUEST_DATA_MORE
    let ?b = "fw_begin api f" and ?w = "fw_write api data False (snd (fw_begin api f))"
    show ?thesis
    proof (cases "fst ?b \<and> fst ?w")
      case True
      then obtain early ps where e: "reqs = early @ ps" "unfinished ps" "flash_image (fw_calls (snd ?b)) = pieces ps"
        using begin_image [OF assms] by blast
      have "flash_image (fw_calls (snd ?w)) = pieces (ps @ [(st, data)])"
        using True e(3) HTTP_SERVER_REQUEST_DATA_MORE by (simp add: write_image)
      then have "upload_inv (reqs @ [(st, data)]) (snd ?w)"
        using e(1,2) HTTP_SERVER_REQUEST_DATA_MORE unfolding upload_inv_def
        by (intro impI exI [of _ early] exI [of _ "ps @ [(st, data)]"]) simp
      then show ?thesis using True HTTP_SERVER_REQUEST_DATA_MORE
        by (simp add: firmware_handler_def case_prod_beta Let_def)
    next
      case False
      then show ?thesis using HTTP_SERVER_REQUEST_DATA_MORE
        by (intro idle) (auto simp: firmware_handler_def fw_error_def case_prod_beta Let_def)
    qed
  next
    case HTTP_SERVER_REQUEST_DATA_FINAL
    then show ?thesis
      by (intro idle) (auto simp: firmware_handler_def fw_error_def fw_finish_def case_prod_beta Let_def)
  next
    case HTTP_SERVER_TRANSACTION_ABORTED
    then show ?thesis by (intro idle) (simp add: firmware_handler_def)
  next
    case HTTP_SERVER_TRANSACTION_COMPLETE
    show ?thesis
    proof (cases "fw_in_progress f")
      case True
      then obtain early ps where "reqs = early @ ps" "unfinished ps" "flash_image (fw_calls f) = pieces ps"
        using assms by (auto simp: upload_inv_def)
      then show ?thesis using HTTP_SERVER_TRANSACTION_COMPLETE unfolding upload_inv_def
        by (intro impI exI [of _ early] exI [of _ "ps @ [(st, data)]"]) (simp add: firmware_handler_def)
    next
      case False
      then show ?thesis using HTTP_SERVER_TRANSACTION_COMPLETE by (intro idle) (simp add: firmware_handler_def)
    qed
  qed
qed

lemma run_upload_inv: "upload_inv reqs (fw_run api reqs (fw_init_state w))"
proof (induction reqs rule: rev_induct)
  case Nil
  show ?case by (simp add: upload_inv_def fw_init_state_def)
next
  case (snoc r reqs)
  from handler_upload_inv [OF snoc.IH, of "fst r" "snd r" api] show ?case by (simp add: fw_run_snoc)
qed

text \<open>A reboot is only scheduled by the last piece of a request, right after the boot loader has accepted the
  upgrade, and the bytes handed over until then are those of the calls in a row that end with it.\<close>

lemma final_schedules:
  assumes "upload_inv reqs f" "f' = snd (firmware_handler api st data f)" "Schedule_reboot n \<in> set (fw_calls f')" "Schedule_reboot n \<notin> set (fw_calls f)"
  shows "st = HTTP_SERVER_REQUEST_DATA_FINAL \<and> (\<exists>cs. fw_calls f' = Schedule_reboot 2 # Request_upgrade # cs) \<and>
    (\<exists>early ps. reqs = early @ ps \<and> unfinished ps \<and> flash_image (fw_calls f') = pieces ps @ data)"
proof -
  let ?b = "fw_begin api f" and ?w = "fw_write api data (st = HTTP_SERVER_REQUEST_DATA_FINAL) (snd (fw_begin api f))"
  have quiet: "Schedule_reboot n \<notin> set (fw_calls (snd ?b))" "Schedule_reboot n \<notin> set (fw_calls (snd ?w))"
    using assms(4) by (auto simp: fw_begin_def fw_write_def case_prod_beta Let_def)
  then have ok: "st = HTTP_SERVER_REQUEST_DATA_FINAL" "fst ?b" "fst ?w" "f' = snd (fw_finish api empty_response (snd ?w))"
    using assms(2-4) by (auto simp: firmware_handler_def fw_error_def case_prod_beta Let_def split: if_splits)
  then have calls: "fw_calls f' = Schedule_reboot 2 # Request_upgrade # fw_calls (snd ?w)"
    using assms(3) quiet(2) by (auto simp: fw_finish_def fw_error_def case_prod_beta Let_def split: if_splits)
  obtain early ps where "reqs = early @ ps" "unfinished ps" "flash_image (fw_calls (snd ?b)) = pieces ps"
    using begin_image [OF assms(1) ok(2)] by blast
  then show ?thesis using ok(1) calls write_image [OF ok(3)] by auto
qed

lemma scheduled_image:
  assumes "Schedule_reboot n \<in> set (fw_calls (fw_run api reqs (fw_init_state w)))"
  shows "\<exists>early ps tail later. reqs = early @ ps @ (HTTP_SERVER_REQUEST_DATA_FINAL, tail) # later \<and> unfinished ps \<and>
    (let cs = fw_calls (fw_run api (early @ ps @ [(HTTP_SERVER_REQUEST_DATA_FINAL, tail)]) (fw_init_state w))
     in (\<exists>cs'. cs = Schedule_reboot 2 # Request_upgrade # cs') \<and> flash_image cs = pieces ps @ tail)"
  using assms
proof (induction reqs rule: rev_induct)
  case Nil
  then show ?case by (simp add: fw_init_state_def)
next
  case (snoc r reqs)
  let ?f = "fw_run api reqs (fw_init_state w)" and ?f' = "fw_run api (reqs @ [r]) (fw_init_state w)"
  show ?case
  proof (cases "Schedule_reboot n \<in> set (fw_calls ?f)")
    case True
    from snoc.IH [OF this] obtain early ps tail later where
      "reqs = early @ ps @ (HTTP_SERVER_REQUEST_DATA_FINAL, tail) # later" "unfinished ps"
      "let cs = fw_calls (fw_run api (early @ ps @ [(HTTP_SERVER_REQUEST_DATA_FINAL, tail)]) (fw_init_state w))
       in (\<exists>cs'. cs = Schedule_reboot 2 # Request_upgrade # cs') \<and> flash_image cs = pieces ps @ tail"
      by blast
    then show ?thesis by (intro exI [of _ early] exI [of _ ps] exI [of _ tail] exI [of _ "later @ [r]"]) simp
  next
    case False
    from final_schedules [OF run_upload_inv fw_run_snoc [symmetric, THEN sym] snoc.prems False]
    obtain early ps where e: "fst r = HTTP_SERVER_REQUEST_DATA_FINAL" "\<exists>cs. fw_calls ?f' = Schedule_reboot 2 # Request_upgrade # cs"
      "reqs = early @ ps" "unfinished ps" "flash_image (fw_calls ?f') = pieces ps @ snd r"
      by blast
    then have "r = (HTTP_SERVER_REQUEST_DATA_FINAL, snd r)" by (cases r) simp
    with e show ?thesis
      by (intro exI [of _ early] exI [of _ ps] exI [of _ "snd r"] exI [of _ "[]"]) (simp add: Let_def)
  qed
qed

end
