(* ===== verification/T1sNode.thy ===== *)
theory T1sNode
  imports T1sLocking T1sFirmwareProps
begin

text \<open>
  The whole T1S node, \<^verbatim>\<open>app/demos/ethernet_bridge/t1s_device/src/main.c\<close>: the table of HTTP
  resources, and the client threads, the firmware upload and the delayed reboot behind it as one system.

  The HTTP server is not part of the sources. It is the parameter \<open>dispatch\<close>: the resource of a table
  for which it calls the application on a request, if any. \<open>t1s_node_step\<close> is one callback of the server, which runs
  once \<^verbatim>\<open>main\<close> has started it, one instruction of \<^verbatim>\<open>main\<close>, one
  step of a client thread or the expiry of the reboot timer; after a reboot nothing happens any more.
  The page itself is a file that the build generates, an argument of the table.
\<close>

section \<open>The resources\<close>

datatype http_method = HTTP_GET | HTTP_POST | HTTP_OTHER nat






definition http_port :: u16 where
  "http_port = 80"


section \<open>The node\<close>








section \<open>Requests\<close>



















end
