(* ===== verification/Bridge.thy ===== *)
theory Bridge
  imports Prelude
begin

text \<open>
  The Ethernet bridge, \<^verbatim>\<open>app/demos/ethernet_bridge/bridge/src/main.c\<close>.

  A pointer to a network interface is a \<open>nat option\<close>, \<open>None\<close> for \<^verbatim>\<open>NULL\<close>. The network stack is
  the record \<open>net_env\<close>: the properties of interfaces it reports, the results of its calls, and the
  address parser. The effects are recorded in \<open>br_calls\<close>, newest first. \<^verbatim>\<open>main\<close> ends in an idle
  loop, which is not modelled.
\<close>

datatype dsa_port = DSA_USER_PORT | NON_DSA_PORT | DSA_PORT_OTHER nat

datatype br_call =
    Found_bridge net_if
  | Found_iface net_if
  | Bridge_iface_add net_if net_if
  | Add_failed int
  | Net_if_up net_if
  | Register_if_up
  | Dhcpv4_restart net_if
  | Null_interface
  | Invalid_address string string
  | Addr_failed string
  | Addr_add net_if u32
  | Set_netmask net_if u32 u32
  | Set_gw net_if u32
  | Static_done net_if string string string

record net_env =
  is_ethernet :: "net_if \<Rightarrow> bool"
  dsa_port_of :: "(net_if \<Rightarrow> dsa_port) option"    \<comment> \<open>\<open>None\<close> without \<^verbatim>\<open>CONFIG_NET_DSA\<close>\<close>
  iface_add_ret :: "net_if \<Rightarrow> net_if \<Rightarrow> int"
  mgmt_events :: bool
  is_bridged :: "net_if \<Rightarrow> bool"
  bridge_of :: "net_if \<Rightarrow> net_if"
  addr_pton :: "string \<Rightarrow> int \<times> u32"
  addr_add_ok :: "net_if \<Rightarrow> u32 \<Rightarrow> bool"

record ud =
  bridge :: net_if
  ifaces :: "net_if list"
  br_calls :: "br_call list"

definition ud_init :: "nat \<Rightarrow> ud" where
  "ud_init n = \<lparr>bridge = None, ifaces = replicate n None, br_calls = []\<rparr>"

definition note_call :: "br_call \<Rightarrow> ud \<Rightarrow> ud" where
  "note_call c u = u\<lparr>br_calls := c # br_calls u\<rparr>"

definition bridge_find_cb :: "net_if \<Rightarrow> ud \<Rightarrow> ud" where
  "bridge_find_cb br u = (if bridge u = None then note_call (Found_bridge br) (u\<lparr>bridge := br\<rparr>) else u)"

definition stored_port :: "net_env \<Rightarrow> net_if \<Rightarrow> bool" where
  "stored_port env iface = (case dsa_port_of env of None \<Rightarrow> True
     | Some port \<Rightarrow> port iface = DSA_USER_PORT \<or> port iface = NON_DSA_PORT)"

definition bridge_add_iface_cb :: "net_env \<Rightarrow> net_if \<Rightarrow> ud \<Rightarrow> ud" where
  "bridge_add_iface_cb env iface u =
     (let i = first_free (\<lambda>p. p = None) (ifaces u)
      in if i = length (ifaces u) then u
         else if \<not> is_ethernet env iface then u
         else let u = (if stored_port env iface then u\<lparr>ifaces := (ifaces u)[i := iface]\<rparr> else u);
                  u = note_call (Bridge_iface_add (bridge u) iface) (note_call (Found_iface iface) u);
                  ret = iface_add_ret env (bridge u) iface
              in if ret < 0 then note_call (Add_failed ret) u else u)"

definition event_handler :: "net_env \<Rightarrow> bool \<Rightarrow> net_if \<Rightarrow> ud \<Rightarrow> ud" where
  "event_handler env if_up iface u =
     (if \<not> is_ethernet env iface then u
      else if is_bridged env iface \<and> if_up then note_call (Dhcpv4_restart (bridge_of env iface)) u
      else u)"

definition iface_set_static :: "net_env \<Rightarrow> net_if \<Rightarrow> string \<Rightarrow> string \<Rightarrow> string option \<Rightarrow> ud \<Rightarrow> int \<times> ud" where
  "iface_set_static env iface ip msk gw u =
     (if iface = None then (- ENODEV, note_call Null_interface u)
      else let (r, a) = addr_pton env ip; (r', m) = addr_pton env msk
      in if r < 0 \<or> r' < 0 then (- EINVAL, note_call (Invalid_address ip msk) u)
      else let u = note_call (Addr_add iface a) u
      in if \<not> addr_add_ok env iface a then (- ENOMEM, note_call (Addr_failed ip) u)
      else let u = note_call (Set_netmask iface a m) u;
               u = (case gw of None \<Rightarrow> u
                    | Some g \<Rightarrow> if fst (addr_pton env g) = 0 then note_call (Set_gw iface (snd (addr_pton env g))) u else u)
      in (0, note_call (Static_done iface ip msk (case gw of None \<Rightarrow> ''(none)'' | Some g \<Rightarrow> g)) u))"

definition bridge_main :: "net_env \<Rightarrow> net_if list \<Rightarrow> net_if list \<Rightarrow> ud \<Rightarrow> ud" where
  "bridge_main env bridges all_ifaces u =
     (let u = fold bridge_find_cb bridges u;
          u = fold (bridge_add_iface_cb env) all_ifaces u;
          u = note_call (Net_if_up (bridge u)) u;
          u = (if mgmt_events env then note_call Register_if_up u else u)
      in snd (iface_set_static env (bridge u) ''2.2.2.5'' ''255.255.255.0'' None u))"

section \<open>The table of interfaces\<close>

lemma note_simps [simp]:
  "bridge (note_call c u) = bridge u" "ifaces (note_call c u) = ifaces u"
  "br_calls (note_call c u) = c # br_calls u"
  by (simp_all add: note_call_def)

text \<open>The table alone, for an interface that is stored: an instance of the slot table.\<close>

definition plain_env :: net_env where
  "plain_env = \<lparr>is_ethernet = (\<lambda>_. True), dsa_port_of = None, iface_add_ret = (\<lambda>_ _. 0),
     mgmt_events = False, is_bridged = (\<lambda>_. False), bridge_of = (\<lambda>_. None),
     addr_pton = (\<lambda>s. (0, of_nat (length s))), addr_add_ok = (\<lambda>_ _. True)\<rparr>"

definition iface_insert :: "net_if \<Rightarrow> net_if list \<Rightarrow> net_if list option" where
  "iface_insert iface xs =
     (let u = bridge_add_iface_cb plain_env iface \<lparr>bridge = None, ifaces = xs, br_calls = []\<rparr>
      in if br_calls u = [] then None else Some (ifaces u))"

interpretation iface_table: slot_table "\<lambda>p. p = None" "\<lambda>p. p \<noteq> None" iface_insert
proof
  fix xs :: "net_if list" and v
  show "\<forall>x \<in> set xs. x \<noteq> None \<Longrightarrow> iface_insert v xs = None"
    using first_free_full [of "\<lambda>p. p = None" xs] by (simp add: iface_insert_def bridge_add_iface_cb_def)
  show "first_free (\<lambda>p. p = None) xs < length xs \<Longrightarrow>
      iface_insert v xs = Some (xs[first_free (\<lambda>p. p = None) xs := v])"
    by (simp add: iface_insert_def bridge_add_iface_cb_def plain_env_def stored_port_def Let_def)
qed simp

lemma add_stores:
  assumes "is_ethernet env iface"
  shows "ifaces (bridge_add_iface_cb env iface u) =
    (if stored_port env iface then (case iface_insert iface (ifaces u) of None \<Rightarrow> ifaces u | Some xs \<Rightarrow> xs) else ifaces u)"
  using assms iface_table.insert_full [of "ifaces u" iface] iface_table.insert_room [of "ifaces u" iface]
    first_free_full [of "\<lambda>p. p = None" "ifaces u"] first_free_le [of "\<lambda>p. p = None" "ifaces u"]
  by (auto simp: bridge_add_iface_cb_def Let_def)

section \<open>What the enumeration does\<close>

text \<open>The interfaces that go into the bridge: the Ethernet interfaces in the order of the
  enumeration until \<open>n\<close> of them have been stored.\<close>

fun bridged :: "net_env \<Rightarrow> nat \<Rightarrow> net_if list \<Rightarrow> net_if list" where
  "bridged env 0 js = []"
| "bridged env (Suc n) [] = []"
| "bridged env (Suc n) (i # js) =
     (if \<not> is_ethernet env i then bridged env (Suc n) js
      else i # bridged env (if stored_port env i then n else Suc n) js)"

definition add_calls :: "net_env \<Rightarrow> net_if \<Rightarrow> net_if \<Rightarrow> br_call list" where
  "add_calls env b i = [Found_iface i, Bridge_iface_add b i] @
     (if iface_add_ret env b i < 0 then [Add_failed (iface_add_ret env b i)] else [])"

lemma bridged_stored_le: "length (filter (stored_port env) (bridged env n js)) \<le> n"
  by (induction env n js rule: bridged.induct) auto

lemma first_free_prefix:
  "None \<notin> set xs \<Longrightarrow> first_free (\<lambda>p. p = None) (xs @ replicate n None) = length xs"
proof (induction xs)
  case Nil
  then show ?case by (cases n) simp_all
next
  case (Cons a xs)
  then show ?case by (cases a) auto
qed

lemma add_step:
  assumes "None \<notin> set xs" "ifaces u = xs @ replicate (Suc n) None" "is_ethernet env (Some i)"
    and u': "u' = bridge_add_iface_cb env (Some i) u"
  shows "ifaces u' = (if stored_port env (Some i) then (xs @ [Some i]) @ replicate n None else ifaces u)"
    and "bridge u' = bridge u" and "rev (br_calls u') = rev (br_calls u) @ add_calls env (bridge u) (Some i)"
  using assms first_free_prefix [OF assms(1), of "Suc n"]
  by (auto simp: bridge_add_iface_cb_def add_calls_def Let_def list_update_append)

lemma enumeration:
  assumes "None \<notin> set xs" "ifaces u = xs @ replicate n None" "None \<notin> set js"
  shows "bridge (fold (bridge_add_iface_cb env) js u) = bridge u \<and>
    ifaces (fold (bridge_add_iface_cb env) js u) =
      xs @ filter (stored_port env) (bridged env n js) @
        replicate (n - length (filter (stored_port env) (bridged env n js))) None \<and>
    rev (br_calls (fold (bridge_add_iface_cb env) js u)) =
      rev (br_calls u) @ concat (map (add_calls env (bridge u)) (bridged env n js))"
  using assms
proof (induction js arbitrary: xs u n)
  case Nil
  then show ?case by (cases n) auto
next
  case (Cons p js)
  show ?case
  proof (cases n)
    case 0
    then have "bridge_add_iface_cb env p u = u"
      using Cons.prems first_free_prefix [of xs 0] by (simp add: bridge_add_iface_cb_def)
    then show ?thesis using Cons.IH [of xs u 0] Cons.prems 0 by simp
  next
    case (Suc m)
    obtain i where p: "p = Some i" using Cons.prems(3) by (cases p) auto
    show ?thesis
    proof (cases "is_ethernet env p")
      case False
      then have "bridge_add_iface_cb env p u = u" by (simp add: bridge_add_iface_cb_def Let_def)
      then show ?thesis using Cons.IH [of xs u n] Cons.prems False Suc by simp
    next
      case True
      let ?u = "bridge_add_iface_cb env p u"
      note step = add_step [OF Cons.prems(1) _ True [unfolded p] refl, of u m]
      show ?thesis
        using Cons.IH [of "if stored_port env p then xs @ [p] else xs" ?u "if stored_port env p then m else n"]
          Cons.prems step True Suc p by auto
    qed
  qed
qed

lemma find_first:
  assumes "None \<notin> set bs"
  shows "bridge u = None \<Longrightarrow> bs = b # bs' \<Longrightarrow> fold bridge_find_cb bs u = note_call (Found_bridge b) (u\<lparr>bridge := b\<rparr>)"
    and "bridge u \<noteq> None \<Longrightarrow> fold bridge_find_cb bs u = u"
proof -
  have keep: "bridge u \<noteq> None \<Longrightarrow> fold bridge_find_cb bs u = u" for u bs
    by (induction bs) (auto simp: bridge_find_cb_def)
  then show "bridge u \<noteq> None \<Longrightarrow> fold bridge_find_cb bs u = u" .
  show "fold bridge_find_cb bs u = note_call (Found_bridge b) (u\<lparr>bridge := b\<rparr>)" if "bridge u = None" "bs = b # bs'"
    using that keep [of "note_call (Found_bridge b) (u\<lparr>bridge := b\<rparr>)" bs'] assms
    by (cases b) (auto simp: bridge_find_cb_def)
qed

lemma bridged_plain:
  "dsa_port_of env = None \<Longrightarrow> bridged env n js = take n (filter (is_ethernet env) js)"
  by (induction env n js rule: bridged.induct) (simp_all add: stored_port_def)

text \<open>C29: building the bridge. With at least one bridge, the first one found is used, and the
  program's calls are, in order: for each interface that goes into the bridge its addition to
  that bridge (and the report of a failure); bringing the bridge up, once; the registration
  for interface events where the build has them; and then one address, with its netmask and
  without a gateway, on the bridge alone. The table ends up with the stored interfaces in the order found and is never
  overrun; without switch ports these are the first Ethernet interfaces, as many as fit, and
  exactly these are added.\<close>

theorem bridge_built:
  assumes "None \<notin> set bs" and "bs = b # bs'" and "None \<notin> set js"
    and "addr_pton env ''2.2.2.5'' = (0, a)" and "addr_pton env ''255.255.255.0'' = (0, m)"
    and "addr_add_ok env b a" and "u = bridge_main env bs js (ud_init n)"
  shows "bridge u = b \<and> length (ifaces u) = n \<and>
    ifaces u = filter (stored_port env) (bridged env n js) @
      replicate (n - length (filter (stored_port env) (bridged env n js))) None \<and>
    rev (br_calls u) = [Found_bridge b] @ concat (map (add_calls env b) (bridged env n js)) @ [Net_if_up b] @
      (if mgmt_events env then [Register_if_up] else []) @
      [Addr_add b a, Set_netmask b a m, Static_done b ''2.2.2.5'' ''255.255.255.0'' ''(none)''] \<and>
    (dsa_port_of env = None \<longrightarrow> bridged env n js = take n (filter (is_ethernet env) js))"
proof -
  let ?u = "note_call (Found_bridge b) ((ud_init n)\<lparr>bridge := b\<rparr>)"
  have find: "fold bridge_find_cb bs (ud_init n) = ?u"
    by (rule find_first(1) [OF assms(1) _ assms(2)]) (simp add: ud_init_def)
  have b: "b \<noteq> None" using assms(1,2) by (cases b) auto
  have "ifaces ?u = [] @ replicate n None" "bridge ?u = b" "br_calls ?u = [Found_bridge b]"
    by (simp_all add: ud_init_def)
  with enumeration [of "[]" ?u n js env] assms(3)
  have enum: "bridge (fold (bridge_add_iface_cb env) js ?u) = b"
    "ifaces (fold (bridge_add_iface_cb env) js ?u) = filter (stored_port env) (bridged env n js) @
      replicate (n - length (filter (stored_port env) (bridged env n js))) None"
    "rev (br_calls (fold (bridge_add_iface_cb env) js ?u)) =
      [Found_bridge b] @ concat (map (add_calls env b) (bridged env n js))" by simp_all
  then show ?thesis
    using b assms(4-7) bridged_plain [of env n js] bridged_stored_le [of env n js]
    by (simp add: bridge_main_def iface_set_static_def Let_def find)
qed

text \<open>A board with a switch: interface 1 is the port towards the switch, 2 and 3 are user ports.\<close>

definition switch_env :: net_env where
  "switch_env = plain_env\<lparr>dsa_port_of := Some (\<lambda>p. if p = Some 1 then DSA_PORT_OTHER 0 else DSA_USER_PORT)\<rparr>"

theorem bridge_built_witness:
  "ifaces (bridge_main switch_env [Some 9] [Some 1, Some 2, Some 3] (ud_init 2)) = [Some 2, Some 3] \<and>
   Bridge_iface_add (Some 9) (Some 1) \<in> set (br_calls (bridge_main switch_env [Some 9] [Some 1, Some 2, Some 3] (ud_init 2)))"
proof -
  let ?u = "bridge_main switch_env [Some 9] [Some 1, Some 2, Some 3] (ud_init 2)"
  have p: "addr_pton switch_env ''2.2.2.5'' = (0, 7)" "addr_pton switch_env ''255.255.255.0'' = (0, 13)"
    "addr_add_ok switch_env (Some 9) 7" by (simp_all add: switch_env_def plain_env_def)
  have b: "bridged switch_env 2 [Some 1, Some 2, Some 3] = [Some 1, Some 2, Some 3]"
    by (simp add: eval_nat_numeral switch_env_def plain_env_def stored_port_def)
  note built = bridge_built [of "[Some 9]" "Some 9" "[]" "[Some 1, Some 2, Some 3]" switch_env 7 13 ?u 2, OF _ _ _ p refl]
  have "ifaces ?u = [Some 2, Some 3]" using built b
    by (simp add: switch_env_def plain_env_def stored_port_def)
  moreover have "Bridge_iface_add (Some 9) (Some 1) \<in> set (rev (br_calls ?u))"
    using built b by (simp add: add_calls_def)
  ultimately show ?thesis by simp
qed


end
