(* ===== verification/Littlefs.thy ===== *)
theory Littlefs
  imports Prelude
begin

text \<open>
  The littlefs sample, \<^verbatim>\<open>app/demos/littlefs/src/main.c\<close>.

  The file-scope variables \<^verbatim>\<open>file_test_pattern\<close> and (inside \<^verbatim>\<open>lsdir\<close>) \<^verbatim>\<open>entry\<close> are fields
  of the record \<open>lfs\<close>. The file system, the flash map and the mount table are not part of the
  sources: they are the functions of the record \<open>fs_api\<close> on a world of type \<open>'w\<close>. The sample
  has at most one file and one directory open at a time, so the world also carries the
  position in the open \<^verbatim>\<open>fs_file_t\<close> and \<^verbatim>\<open>fs_dir_t\<close>. A call that fills a buffer returns the
  bytes it stored; the caller's buffer keeps its other bytes. The constructor of \<open>lfs_msg\<close>
  names the print statement and carries the values it prints; the list is newest first.

  \<^verbatim>\<open>lsdir\<close> has a loop without a bound, so it is a partial function: \<open>None\<close> means that the loop
  does not end.
\<close>

section \<open>State and parameters\<close>

abbreviation MAX_PATH_LEN :: nat where "MAX_PATH_LEN \<equiv> 255"
abbreviation TEST_FILE_SIZE :: nat where "TEST_FILE_SIZE \<equiv> 547"

datatype fs_dir_entry_type = FS_DIR_ENTRY_FILE | FS_DIR_ENTRY_DIR

record fs_dirent =
  ent_type :: fs_dir_entry_type
  ent_name :: string
  ent_size :: nat

record flash_area =
  fa_off :: u32
  fa_dev_name :: string
  fa_size :: nat

record fs_mount_t =
  storage_dev :: nat
  disk_dev :: string
  mnt_point :: string

datatype lfs_msg =
    Opendir_failed string int
  | Listing string
  | Readdir_failed int
  | Dir_line string
  | File_line string nat
  | Fs_open_failed string int
  | Fs_read_failed string int
  | Read_count string u8 int
  | Fs_seek_failed string int
  | Fs_write_failed string int
  | Wrote_count string u8 int
  | Fs_close_failed string int
  | Bytes "u8 list"
  | Bytes_line "u8 list"
  | Newline
  | Fs_stat_failed string int
  | Not_found_create string
  | File_banner string
  | No_flash_area nat int
  | Area nat u32 string nat
  | Erasing int
  | Mount_failed nat string int
  | Mounted string int
  | Automounted string
  | Sample_banner
  | Statvfs_failed int
  | Statvfs string nat nat nat nat
  | Lsdir_failed string int
  | Unmounted string int

record 'w fs_api =
  fs_opendir :: "string \<Rightarrow> 'w \<Rightarrow> int \<times> 'w"
  fs_readdir :: "'w \<Rightarrow> int \<times> fs_dirent \<times> 'w"
  fs_closedir :: "'w \<Rightarrow> 'w"
  fs_open :: "string \<Rightarrow> 'w \<Rightarrow> int \<times> 'w"
  fs_stat :: "string \<Rightarrow> 'w \<Rightarrow> int \<times> fs_dirent"
  fs_read :: "nat \<Rightarrow> 'w \<Rightarrow> int \<times> u8 list \<times> 'w"
  fs_seek :: "nat \<Rightarrow> 'w \<Rightarrow> int \<times> 'w"
  fs_write :: "u8 list \<Rightarrow> 'w \<Rightarrow> int \<times> 'w"
  fs_close :: "'w \<Rightarrow> int \<times> 'w"
  fs_mount :: "fs_mount_t \<Rightarrow> 'w \<Rightarrow> int \<times> 'w"
  fs_unmount :: "fs_mount_t \<Rightarrow> 'w \<Rightarrow> int \<times> 'w"
  fs_statvfs :: "string \<Rightarrow> 'w \<Rightarrow> int \<times> nat \<times> nat \<times> nat \<times> nat"
  flash_area_open :: "nat \<Rightarrow> 'w \<Rightarrow> int \<times> flash_area \<times> 'w"
  flash_area_flatten :: "flash_area \<Rightarrow> nat \<Rightarrow> nat \<Rightarrow> 'w \<Rightarrow> int \<times> 'w"
  flash_area_close :: "flash_area \<Rightarrow> 'w \<Rightarrow> 'w"

record 'w lfs =
  file_test_pattern :: "u8 list"
  dir_entry :: fs_dirent
  fs_world :: 'w
  lfs_log :: "lfs_msg list"

definition lfs_init :: "'w \<Rightarrow> 'w lfs" where
  "lfs_init w = \<lparr>file_test_pattern = replicate TEST_FILE_SIZE 0,
     dir_entry = \<lparr>ent_type = FS_DIR_ENTRY_FILE, ent_name = [], ent_size = 0\<rparr>,
     fs_world = w, lfs_log = []\<rparr>"

definition say :: "lfs_msg \<Rightarrow> 'w lfs \<Rightarrow> 'w lfs" where
  "say m s = s\<lparr>lfs_log := m # lfs_log s\<rparr>"

text \<open>What a read leaves in a buffer: the bytes read, then the old bytes behind them.\<close>

definition into_buffer :: "u8 list \<Rightarrow> u8 list \<Rightarrow> u8 list" where
  "into_buffer data buf = take (length buf) data @ drop (length data) buf"

section \<open>Listing a directory\<close>

partial_function (option) lsdir_loop :: "'w fs_api \<Rightarrow> 'w lfs \<Rightarrow> (int \<times> 'w lfs) option" where
  "lsdir_loop api s =
     (let (res, ent, w) = fs_readdir api (fs_world s);
          s = s\<lparr>dir_entry := ent, fs_world := w\<rparr>
      in if res \<noteq> 0 \<or> ent_name ent = []
         then Some (res, if res < 0 then say (Readdir_failed res) s else s)
         else lsdir_loop api
           (say (if ent_type ent = FS_DIR_ENTRY_DIR then Dir_line (ent_name ent)
                 else File_line (ent_name ent) (ent_size ent)) s))"

definition lsdir :: "'w fs_api \<Rightarrow> string \<Rightarrow> 'w lfs \<Rightarrow> (int \<times> 'w lfs) option" where
  "lsdir api path s =
     (let (res, w) = fs_opendir api path (fs_world s);
          s = s\<lparr>fs_world := w\<rparr>
      in if res \<noteq> 0 then Some (res, say (Opendir_failed path res) s)
         else case lsdir_loop api (say (Listing path) s) of
           None \<Rightarrow> None
         | Some (res, s) \<Rightarrow> Some (res, s\<lparr>fs_world := fs_closedir api (fs_world s)\<rparr>))"

section \<open>The boot counter\<close>

text \<open>The label \<^verbatim>\<open>out\<close>, which both file operations share: close the file, whose error wins over
  the code \<open>rc\<close> of the operation.\<close>

definition close_file :: "'w fs_api \<Rightarrow> string \<Rightarrow> int \<Rightarrow> 'w lfs \<Rightarrow> int \<times> 'w lfs" where
  "close_file api fname rc s =
     (let (ret, w) = fs_close api (fs_world s);
          s = s\<lparr>fs_world := w\<rparr>
      in if ret < 0 then (ret, say (Fs_close_failed fname ret) s)
         else (if rc < 0 then rc else 0, s))"

definition littlefs_increase_infile_value :: "'w fs_api \<Rightarrow> string \<Rightarrow> 'w lfs \<Rightarrow> int \<times> 'w lfs" where
  "littlefs_increase_infile_value api fname s =
     (let (rc, w) = fs_open api fname (fs_world s); s = s\<lparr>fs_world := w\<rparr>
      in if rc < 0 then (rc, say (Fs_open_failed fname rc) s) else
      let (rc, data, w) = fs_read api 1 (fs_world s); s = s\<lparr>fs_world := w\<rparr>;
          boot_count = into_buffer data [0] ! 0
      in if rc < 0 then close_file api fname rc (say (Fs_read_failed fname rc) s) else
      let s = say (Read_count fname boot_count rc) s;
          (rc, w) = fs_seek api 0 (fs_world s); s = s\<lparr>fs_world := w\<rparr>
      in if rc < 0 then close_file api fname rc (say (Fs_seek_failed fname rc) s) else
      let boot_count = boot_count + 1;
          (rc, w) = fs_write api [boot_count] (fs_world s); s = s\<lparr>fs_world := w\<rparr>
      in if rc < 0 then close_file api fname rc (say (Fs_write_failed fname rc) s)
         else close_file api fname rc (say (Wrote_count fname boot_count rc) s))"

section \<open>The test pattern\<close>

text \<open>Both functions are called with a positive size that is at most the length of the buffer.\<close>

definition incr_byte :: "u8 \<Rightarrow> u8 \<Rightarrow> nat \<Rightarrow> u8 list \<Rightarrow> u8 list" where
  "incr_byte inc fill i p = (if i mod 8 = 0 then p[i := p ! i + inc] else p[i := fill])"

definition incr_pattern :: "u8 list \<Rightarrow> nat \<Rightarrow> u8 \<Rightarrow> u8 list" where
  "incr_pattern p sz inc =
     (let fill = (if unat (p ! 0) mod 2 = 0 then 0xAA else 0x55);
          p = fold (incr_byte inc fill) [0..<sz - 1] p
      in p[sz - 1 := p ! (sz - 1) + inc])"

function init_loop :: "nat \<Rightarrow> nat \<Rightarrow> u8 \<Rightarrow> u8 list \<Rightarrow> u8 list" where
  "init_loop sz i v p = (if i < sz then init_loop sz (i + 8) (v + 1) (p[i := v]) else p)"
  by auto
termination by (relation "measure (\<lambda>(sz, i, v, p). sz - i)") auto

declare init_loop.simps [simp del]

definition init_pattern :: "u8 list \<Rightarrow> nat \<Rightarrow> u8 list" where
  "init_pattern p sz = (init_loop sz 0 1 (replicate sz 0x55 @ drop sz p))[sz - 1 := 0xAA]"

text \<open>The rows of 16 bytes (index \<open>i\<close>, row \<open>k\<close> of \<open>j\<close>), then the remaining bytes.\<close>

function print_rows :: "u8 list \<Rightarrow> nat \<Rightarrow> nat \<Rightarrow> nat \<Rightarrow> 'w lfs \<Rightarrow> nat \<times> 'w lfs" where
  "print_rows p k j i s =
     (if k < j
      then let s = say (Bytes (map (\<lambda>n. p ! (i + n)) [0..<8])) s;
               s = say (Bytes_line (map (\<lambda>n. p ! (i + n)) [8..<16])) s;
               s = (if (k + 1) mod 32 = 0 then say Newline s else s)
           in print_rows p (k + 1) j (i + 16) s
      else (i, s))"
  by auto
termination by (relation "measure (\<lambda>(p, k, j, i, s). j - k)") auto

declare print_rows.simps [simp del]

definition print_pattern :: "u8 list \<Rightarrow> nat \<Rightarrow> 'w lfs \<Rightarrow> 'w lfs" where
  "print_pattern p sz s =
     (let (i, s) = print_rows p 0 (sz div 16) 0 s
      in say Newline (fold (\<lambda>i. say (Bytes [p ! i])) [i..<sz] s))"

definition littlefs_binary_file_adj :: "'w fs_api \<Rightarrow> string \<Rightarrow> 'w lfs \<Rightarrow> int \<times> 'w lfs" where
  "littlefs_binary_file_adj api fname s =
     (let (rc, w) = fs_open api fname (fs_world s); s = s\<lparr>fs_world := w\<rparr>
      in if rc < 0 then (rc, say (Fs_open_failed fname rc) s) else
      let (rc, dirent) = fs_stat api fname (fs_world s)
      in if rc < 0 then close_file api fname rc (say (Fs_stat_failed fname rc) s) else
      let (rc, s) =
        (if rc = 0 \<and> ent_type dirent = FS_DIR_ENTRY_FILE \<and> ent_size dirent = 0
         then (rc, (say (Not_found_create fname) s)
                \<lparr>file_test_pattern := init_pattern (file_test_pattern s) TEST_FILE_SIZE\<rparr>)
         else let (rc, data, w) = fs_read api TEST_FILE_SIZE (fs_world s);
                  s = s\<lparr>fs_world := w, file_test_pattern := into_buffer data (file_test_pattern s)\<rparr>
              in if rc < 0 then (rc, say (Fs_read_failed fname rc) s)
                 else (rc, s\<lparr>file_test_pattern := incr_pattern (file_test_pattern s) TEST_FILE_SIZE 1\<rparr>))
      in if rc < 0 then close_file api fname rc s else
      let s = print_pattern (file_test_pattern s) TEST_FILE_SIZE (say (File_banner fname) s);
          (rc, w) = fs_seek api 0 (fs_world s); s = s\<lparr>fs_world := w\<rparr>
      in if rc < 0 then close_file api fname rc (say (Fs_seek_failed fname rc) s) else
      let (rc, w) = fs_write api (file_test_pattern s) (fs_world s); s = s\<lparr>fs_world := w\<rparr>
      in close_file api fname rc (if rc < 0 then say (Fs_write_failed fname rc) s else s))"

section \<open>Mounting and the main program\<close>

text \<open>The build options: the storage (a flash partition, or a disk with its volume name), and
  for the flash partition whether it is wiped and whether it is mounted automatically.\<close>

datatype storage = Storage_flash (wipe: bool) (automount: bool) | Storage_disk (disk_name: string)

definition littlefs_flash_erase :: "'w fs_api \<Rightarrow> bool \<Rightarrow> nat \<Rightarrow> 'w lfs \<Rightarrow> int \<times> 'w lfs" where
  "littlefs_flash_erase api wipe_storage area_id s =
     (let (rc, pfa, w) = flash_area_open api area_id (fs_world s); s = s\<lparr>fs_world := w\<rparr>
      in if rc < 0 then (rc, say (No_flash_area area_id rc) s) else
      let s = say (Area area_id (fa_off pfa) (fa_dev_name pfa) (fa_size pfa)) s;
          (rc, s) = (if wipe_storage
             then let (rc, w) = flash_area_flatten api pfa 0 (fa_size pfa) (fs_world s)
                  in (rc, say (Erasing rc) (s\<lparr>fs_world := w\<rparr>))
             else (rc, s))
      in (rc, s\<lparr>fs_world := flash_area_close api pfa (fs_world s)\<rparr>))"

definition littlefs_mount_flash ::
  "'w fs_api \<Rightarrow> bool \<Rightarrow> bool \<Rightarrow> fs_mount_t \<Rightarrow> 'w lfs \<Rightarrow> int \<times> 'w lfs" where
  "littlefs_mount_flash api wipe_storage auto mp s =
     (let (rc, s) = littlefs_flash_erase api wipe_storage (storage_dev mp) s
      in if rc < 0 then (rc, s)
         else if auto then (0, say (Automounted (mnt_point mp)) s)
         else let (rc, w) = fs_mount api mp (fs_world s); s = s\<lparr>fs_world := w\<rparr>
              in if rc < 0 then (rc, say (Mount_failed (storage_dev mp) (mnt_point mp) rc) s)
                 else (0, say (Mounted (mnt_point mp) rc) s))"

definition littlefs_mount_disk :: "'w fs_api \<Rightarrow> fs_mount_t \<Rightarrow> 'w lfs \<Rightarrow> int \<times> 'w lfs" where
  "littlefs_mount_disk api mp s =
     (let (rc, w) = fs_mount api mp (fs_world s) in (rc, s\<lparr>fs_world := w\<rparr>))"

definition mountpoint :: "storage \<Rightarrow> fs_mount_t \<Rightarrow> fs_mount_t" where
  "mountpoint st mp = (case st of Storage_flash _ _ \<Rightarrow> mp
     | Storage_disk name \<Rightarrow> mp\<lparr>disk_dev := name, mnt_point := ''/'' @ name @ '':''\<rparr>)"

definition littlefs_mount :: "'w fs_api \<Rightarrow> storage \<Rightarrow> fs_mount_t \<Rightarrow> 'w lfs \<Rightarrow> int \<times> 'w lfs" where
  "littlefs_mount api st mp s = (case st of
     Storage_flash wipe_storage auto \<Rightarrow> littlefs_mount_flash api wipe_storage auto (mountpoint st mp) s
   | Storage_disk _ \<Rightarrow> littlefs_mount_disk api (mountpoint st mp) s)"

text \<open>\<^verbatim>\<open>snprintf\<close> into a buffer of \<open>MAX_PATH_LEN\<close> bytes.\<close>

definition file_name :: "fs_mount_t \<Rightarrow> string \<Rightarrow> string" where
  "file_name mp name = take (MAX_PATH_LEN - 1) (mnt_point mp @ name)"

text \<open>The part of \<^verbatim>\<open>main\<close> between the mount and the label \<^verbatim>\<open>out\<close>.\<close>

definition main_files :: "'w fs_api \<Rightarrow> fs_mount_t \<Rightarrow> 'w lfs \<Rightarrow> 'w lfs option" where
  "main_files api mp s =
     (let (rc, f_bsize, f_frsize, f_blocks, f_bfree) = fs_statvfs api (mnt_point mp) (fs_world s)
      in if rc < 0 then Some (say (Statvfs_failed rc) s)
         else case lsdir api (mnt_point mp) (say (Statvfs (mnt_point mp) f_bsize f_frsize f_blocks f_bfree) s) of
           None \<Rightarrow> None
         | Some (rc, s) \<Rightarrow>
             if rc < 0 then Some (say (Lsdir_failed (mnt_point mp) rc) s)
             else let (rc, s) = littlefs_increase_infile_value api (file_name mp ''/boot_count'') s
                  in if rc \<noteq> 0 then Some s
                     else Some (snd (littlefs_binary_file_adj api (file_name mp ''/pattern.bin'') s)))"

definition lfs_main :: "'w fs_api \<Rightarrow> storage \<Rightarrow> fs_mount_t \<Rightarrow> 'w \<Rightarrow> 'w lfs option" where
  "lfs_main api st mp0 w =
     (let (rc, s) = littlefs_mount api st mp0 (say Sample_banner (lfs_init w));
          mp = mountpoint st mp0
      in if rc < 0 then Some s
         else case main_files api mp s of
           None \<Rightarrow> None
         | Some s \<Rightarrow> let (rc, w) = fs_unmount api mp (fs_world s)
                     in Some (say (Unmounted (mnt_point mp) rc) (s\<lparr>fs_world := w\<rparr>)))"

end
