(* ===== verification/LittlefsProps.thy ===== *)
theory LittlefsProps
  imports Littlefs
begin

text \<open>
  The properties of the littlefs sample: the contents of the two files after any number of
  boots, the directory listing, the resources held on every path, and the result codes. The
  file system is constrained by two contracts: \<open>fs_works\<close> says that every call succeeds and
  acts on the files as documented, \<open>fs_handles\<close> only says how the number of open handles
  changes with the return codes, and so covers every failure.
\<close>

lemmas lfs_ops [op_defs] =
  littlefs_increase_infile_value_def littlefs_binary_file_adj_def close_file_def say_def

lemma say_simps [simp]:
  "fs_world (say m s) = fs_world s" "file_test_pattern (say m s) = file_test_pattern s"
  "dir_entry (say m s) = dir_entry s" "lfs_log (say m s) = m # lfs_log s"
  by (simp_all add: say_def)

section \<open>The test pattern\<close>

lemma incr_bytes:
  "m \<le> length p \<Longrightarrow> length (fold (incr_byte inc fill) [0..<m] p) = length p \<and>
     (\<forall>i < length p. fold (incr_byte inc fill) [0..<m] p ! i =
        (if i < m then if i mod 8 = 0 then p ! i + inc else fill else p ! i))"
  by (induction m) (auto simp: incr_byte_def nth_list_update)

lemma incr_pattern_length [simp]: "sz \<le> length p \<Longrightarrow> length (incr_pattern p sz inc) = length p"
  using incr_bytes [of "sz - 1" p] by (simp add: incr_pattern_def Let_def)

lemma incr_pattern_nth:
  assumes "0 < sz" "sz \<le> length p" "i < length p"
  shows "incr_pattern p sz inc ! i =
    (if sz \<le> i then p ! i else if i = sz - 1 \<or> i mod 8 = 0 then p ! i + inc
     else if even (p ! 0) then 0xAA else 0x55)"
proof -
  have "unat (p ! 0) mod 2 = 0 \<longleftrightarrow> even (p ! 0)"
    using even_unat_u8 by (simp add: even_iff_mod_2_eq_zero)
  with assms incr_bytes [of "sz - 1" p] show ?thesis
    by (auto simp: incr_pattern_def Let_def nth_list_update)
qed

lemma next_multiple:
  fixes i k :: nat
  assumes "i + 8 \<le> k"
  shows "(k - i) mod 8 = (k - (i + 8)) mod 8" "(k - i) div 8 = Suc ((k - (i + 8)) div 8)"
proof -
  have "k - i = (k - (i + 8)) + 8" using assms by simp
  then show "(k - i) mod 8 = (k - (i + 8)) mod 8" "(k - i) div 8 = Suc ((k - (i + 8)) div 8)"
    by (metis mod_add_self2, metis Suc_eq_plus1 div_add_self2 zero_neq_numeral)
qed

lemma init_loop_nth:
  "length (init_loop sz i v p) = length p \<and>
   (\<forall>k < length p. init_loop sz i v p ! k =
     (if i \<le> k \<and> k < sz \<and> (k - i) mod 8 = 0 then v + of_nat ((k - i) div 8) else p ! k))"
proof (induction sz i v p rule: init_loop.induct)
  case (1 sz i v p)
  show ?case
  proof (cases "i < sz")
    case True
    let ?p = "init_loop sz (i + 8) (v + 1) (p[i := v])"
    have step: "init_loop sz i v p = ?p" using True by (subst init_loop.simps) simp
    have "?p ! k = (if i \<le> k \<and> k < sz \<and> (k - i) mod 8 = 0 then v + of_nat ((k - i) div 8) else p ! k)"
      if "k < length p" for k
    proof (cases "i + 8 \<le> k")
      case far: True
      then show ?thesis using 1 [OF True] that next_multiple [OF far] by simp
    next
      case near: False
      then have "i \<le> k \<and> (k - i) mod 8 = 0 \<longleftrightarrow> k = i" by (cases "i \<le> k") auto
      then show ?thesis using 1 [OF True] True that near by (auto simp: nth_list_update)
    qed
    then show ?thesis using step 1 [OF True] by simp
  qed (auto simp: init_loop.simps)
qed

lemma init_pattern_length [simp]: "sz \<le> length p \<Longrightarrow> length (init_pattern p sz) = length p"
  by (simp add: init_pattern_def init_loop_nth)

lemma init_pattern_nth:
  assumes "sz \<le> length p" "i < sz"
  shows "init_pattern p sz ! i =
    (if i = sz - 1 then 0xAA else if i mod 8 = 0 then of_nat (i div 8 + 1) else 0x55)"
proof -
  have "init_loop sz 0 1 (replicate sz 0x55 @ drop sz p) ! i
      = (if i mod 8 = 0 then 1 + of_nat (i div 8) else 0x55)"
    using init_loop_nth [of sz 0 1 "replicate sz 0x55 @ drop sz p"] assms by (simp add: nth_append)
  then show ?thesis
    using assms by (simp add: init_pattern_def nth_list_update init_loop_nth algebra_simps)
qed

text \<open>The pattern that the \<open>n\<close>-th update after the creation leaves in the file, written down
  directly.\<close>

definition pattern_byte :: "nat \<Rightarrow> nat \<Rightarrow> u8" where
  "pattern_byte n i =
     (if i = TEST_FILE_SIZE - 1 then 0xAA + of_nat n
      else if i mod 8 = 0 then of_nat (i div 8 + 1 + n)
      else if n \<noteq> 0 \<and> even n then 0xAA else 0x55)"

definition pattern_after :: "nat \<Rightarrow> u8 list" where
  "pattern_after n = map (pattern_byte n) [0..<TEST_FILE_SIZE]"

lemma init_is_pattern:
  "length buf = TEST_FILE_SIZE \<Longrightarrow> init_pattern buf TEST_FILE_SIZE = pattern_after 0"
  by (rule nth_equalityI) (simp_all add: pattern_after_def pattern_byte_def init_pattern_nth)

lemma incr_is_pattern: "incr_pattern (pattern_after n) TEST_FILE_SIZE 1 = pattern_after (Suc n)"
proof (rule nth_equalityI)
  have "even (pattern_after n ! 0) \<longleftrightarrow> even (Suc n)"
    using even_of_nat_u8 [of "Suc n"] by (simp add: pattern_after_def pattern_byte_def)
  then show "incr_pattern (pattern_after n) TEST_FILE_SIZE 1 ! i = pattern_after (Suc n) ! i"
    if "i < length (incr_pattern (pattern_after n) TEST_FILE_SIZE 1)" for i
    using that by (auto simp: incr_pattern_nth pattern_after_def pattern_byte_def)
qed (simp add: pattern_after_def)

text \<open>The test pattern in closed form. After its creation and any number \<open>n\<close> of updates
  the buffer is: every eighth byte holds its row number plus \<open>n\<close>, the last byte is 0xAA plus
  \<open>n\<close> (both modulo 256), and every other byte is the fill byte, 0x55 at first and then
  alternating with the parity of \<open>n\<close>, also after the counter bytes have wrapped around.\<close>

theorem pattern_closed_form:
  assumes "length buf = TEST_FILE_SIZE"
  shows "((\<lambda>p. incr_pattern p TEST_FILE_SIZE 1) ^^ n) (init_pattern buf TEST_FILE_SIZE) = pattern_after n"
  using assms by (induction n) (simp_all add: init_is_pattern incr_is_pattern)

theorem pattern_closed_form_witness:
  "((\<lambda>p. incr_pattern p 547 1) ^^ 257) (init_pattern (replicate 547 0) 547) ! 8 = 3"
  using pattern_closed_form [of "replicate 547 0" 257] by (simp add: pattern_after_def pattern_byte_def)

section \<open>Printing the pattern\<close>

text \<open>The bytes that the print statements show, in the order of printing.\<close>

fun shown :: "lfs_msg list \<Rightarrow> u8 list" where
  "shown [] = []"
| "shown (Bytes bs # ms) = shown ms @ bs"
| "shown (Bytes_line bs # ms) = shown ms @ bs"
| "shown (_ # ms) = shown ms"

lemma map_nth_slice: "i + n \<le> length p \<Longrightarrow> map (\<lambda>k. p ! (i + k)) [0..<n] = take n (drop i p)"
  by (rule nth_equalityI) auto

lemma row_bytes:
  assumes "i + 16 \<le> length p"
  shows "map (\<lambda>k. p ! (i + k)) [0..<8] @ map (\<lambda>k. p ! (i + k)) [8..<16] = take 16 (drop i p)"
proof -
  have "[0..<16] = [0..<8] @ [8..<16 :: nat]" by (simp add: upt_rec)
  then show ?thesis using map_nth_slice [OF assms] by simp
qed

lemma print_rows_shown:
  assumes "i = 16 * k" "k \<le> j" "16 * j \<le> length p"
  shows "fst (print_rows p k j i s) = 16 * j \<and>
     (\<exists>ms. snd (print_rows p k j i s) = s\<lparr>lfs_log := ms\<rparr> \<and>
        shown ms = shown (lfs_log s) @ take (16 * j - i) (drop i p))"
  using assms
proof (induction p k j i s rule: print_rows.induct)
  case (1 p k j i s)
  show ?case
  proof (cases "k < j")
    case False
    then show ?thesis using 1(2-4) by (auto simp: print_rows.simps intro: exI [of _ "lfs_log s"])
  next
    case True
    let ?row = "map (\<lambda>n. p ! (i + n)) [0..<8]" and ?row' = "map (\<lambda>n. p ! (i + n)) [8..<16]"
    let ?u = "say (Bytes_line ?row') (say (Bytes ?row) s)"
    obtain t where t: "t = (if (k + 1) mod 32 = 0 then say Newline ?u else ?u)" by blast
    have step: "print_rows p k j i s = print_rows p (k + 1) j (i + 16) t"
      unfolding t using True by (subst print_rows.simps) (simp only: Let_def if_True)
    have log: "shown (lfs_log t) = shown (lfs_log s) @ take 16 (drop i p)"
      unfolding t using row_bytes [of i p] True 1(2,4) by simp
    have upd: "t\<lparr>lfs_log := ms\<rparr> = s\<lparr>lfs_log := ms\<rparr>" for ms by (simp add: t say_def)
    have rest: "take (16 * j - i) (drop i p)
        = take 16 (drop i p) @ take (16 * j - (i + 16)) (drop (i + 16) p)"
      using take_add [of 16 "16 * j - (i + 16)" "drop i p"] True 1(2) by (simp add: add.commute)
    have "i + 16 = 16 * (k + 1)" "k + 1 \<le> j" using True 1(2) by simp_all
    from 1(1) [OF True refl refl t this 1(4)] show ?thesis
      unfolding step upd log rest by simp
  qed
qed

lemma print_tail_shown:
  "n \<le> length p \<Longrightarrow> m \<le> n \<Longrightarrow> \<exists>ms. fold (\<lambda>i. say (Bytes [p ! i])) [m..<n] s = s\<lparr>lfs_log := ms\<rparr> \<and>
     shown ms = shown (lfs_log s) @ take (n - m) (drop m p)"
proof (induction "n - m" arbitrary: m s)
  case 0
  then show ?case by (auto intro: exI [of _ "lfs_log s"])
next
  case (Suc d)
  then have m: "m < n" "Suc m \<le> n" by simp_all
  have "d = n - Suc m" using Suc(2) by simp
  from Suc(1) [OF this Suc(3) m(2)] obtain ms where
    "fold (\<lambda>i. say (Bytes [p ! i])) [Suc m..<n] (say (Bytes [p ! m]) s) = (say (Bytes [p ! m]) s)\<lparr>lfs_log := ms\<rparr>"
    "shown ms = shown (lfs_log (say (Bytes [p ! m]) s)) @ take (n - Suc m) (drop (Suc m) p)" by blast
  moreover have "take (n - m) (drop m p) = p ! m # take (n - Suc m) (drop (Suc m) p)"
    using m Suc(3) by (simp add: Cons_nth_drop_Suc [symmetric] Suc_diff_Suc take_Cons')
  ultimately show ?case using m by (auto simp: upt_rec [of m] say_def intro: exI [of _ ms])
qed

text \<open>\<^verbatim>\<open>print_pattern\<close> prints each of the first \<open>size\<close> bytes exactly once, in order, for
  every size up to the length of the buffer (whole rows, incomplete last row and empty buffer),
  and changes nothing else.\<close>

theorem print_pattern_complete:
  assumes "sz \<le> length p"
  shows "shown (lfs_log (print_pattern p sz s)) = shown (lfs_log s) @ take sz p \<and>
     print_pattern p sz s = s\<lparr>lfs_log := lfs_log (print_pattern p sz s)\<rparr>"
proof -
  let ?j = "sz div 16"
  have j: "16 * ?j \<le> sz" by simp
  obtain i s' where rows: "print_rows p 0 ?j 0 s = (i, s')" by fastforce
  with print_rows_shown [of 0 0 ?j p s] assms j obtain ms where
    s': "i = 16 * ?j" "s' = s\<lparr>lfs_log := ms\<rparr>" "shown ms = shown (lfs_log s) @ take (16 * ?j) p" by auto
  from print_tail_shown [OF assms j, of s'] obtain ms' where
    tail: "fold (\<lambda>i. say (Bytes [p ! i])) [i..<sz] s' = s'\<lparr>lfs_log := ms'\<rparr>"
      "shown ms' = shown ms @ take (sz - 16 * ?j) (drop (16 * ?j) p)" using s' by auto
  have "take (16 * ?j) p @ take (sz - 16 * ?j) (drop (16 * ?j) p) = take sz p"
    using take_add [of "16 * ?j" "sz - 16 * ?j" p] j by simp
  with s' tail rows show ?thesis by (simp add: print_pattern_def say_def)
qed

theorem print_pattern_complete_witness:
  "shown (lfs_log (print_pattern (pattern_after 3) 547 (lfs_init ()))) = pattern_after 3"
  using print_pattern_complete [of 547 "pattern_after 3" "lfs_init ()"]
  by (simp add: pattern_after_def lfs_init_def)


lemma print_rows_frame [frame_simps]:
  "fs_world (snd (print_rows p k j i s)) = fs_world s \<and>
   file_test_pattern (snd (print_rows p k j i s)) = file_test_pattern s"
proof (induction p k j i s rule: print_rows.induct)
  case (1 p k j i s)
  then show ?case by (subst (1 2) print_rows.simps) (auto simp: Let_def)
qed

lemma print_pattern_frame [frame_simps, simp]:
  "fs_world (print_pattern p sz s) = fs_world s"
  "file_test_pattern (print_pattern p sz s) = file_test_pattern s"
  by (simp_all add: print_pattern_def case_prod_beta print_rows_frame
      fold_measure [where m = fs_world] fold_measure [where m = file_test_pattern])

section \<open>Handles on every path\<close>

text \<open>What the documentation of the file system says about the objects it hands out: a
  successful open, mount or area open adds one, the matching close removes it, a failed one
  and every other call leave the numbers alone. Nothing is said about which calls fail, except
  that closing and unmounting do not.\<close>

record fs_counts =
  n_files :: int
  n_dirs :: int
  n_mounts :: int
  n_areas :: int

definition fs_handles :: "'w fs_api \<Rightarrow> ('w \<Rightarrow> fs_counts) \<Rightarrow> bool" where
  "fs_handles api cnt \<longleftrightarrow>
     (\<forall>f w. cnt (snd (fs_open api f w)) =
        (cnt w)\<lparr>n_files := n_files (cnt w) + (if fst (fs_open api f w) < 0 then 0 else 1)\<rparr>) \<and>
     (\<forall>w. 0 \<le> fst (fs_close api w) \<and> cnt (snd (fs_close api w)) = (cnt w)\<lparr>n_files := n_files (cnt w) - 1\<rparr>) \<and>
     (\<forall>n w. cnt (snd (snd (fs_read api n w))) = cnt w) \<and>
     (\<forall>n w. cnt (snd (fs_seek api n w)) = cnt w) \<and>
     (\<forall>b w. cnt (snd (fs_write api b w)) = cnt w) \<and>
     (\<forall>path w. cnt (snd (fs_opendir api path w)) =
        (cnt w)\<lparr>n_dirs := n_dirs (cnt w) + (if fst (fs_opendir api path w) = 0 then 1 else 0)\<rparr>) \<and>
     (\<forall>w. cnt (snd (snd (fs_readdir api w))) = cnt w) \<and>
     (\<forall>w. cnt (fs_closedir api w) = (cnt w)\<lparr>n_dirs := n_dirs (cnt w) - 1\<rparr>) \<and>
     (\<forall>mp w. cnt (snd (fs_mount api mp w)) =
        (cnt w)\<lparr>n_mounts := n_mounts (cnt w) + (if fst (fs_mount api mp w) < 0 then 0 else 1)\<rparr>) \<and>
     (\<forall>mp w. cnt (snd (fs_unmount api mp w)) = (cnt w)\<lparr>n_mounts := n_mounts (cnt w) - 1\<rparr>) \<and>
     (\<forall>a w. cnt (snd (snd (flash_area_open api a w))) =
        (cnt w)\<lparr>n_areas := n_areas (cnt w) + (if fst (flash_area_open api a w) < 0 then 0 else 1)\<rparr>) \<and>
     (\<forall>pfa off n w. cnt (snd (flash_area_flatten api pfa off n w)) = cnt w) \<and>
     (\<forall>pfa w. cnt (flash_area_close api pfa w) = (cnt w)\<lparr>n_areas := n_areas (cnt w) - 1\<rparr>)"

lemma fs_handlesD:
  assumes "fs_handles api cnt"
  shows "cnt (snd (fs_open api f w)) =
      (cnt w)\<lparr>n_files := n_files (cnt w) + (if fst (fs_open api f w) < 0 then 0 else 1)\<rparr>"
    and "\<not> fst (fs_close api w) < 0"
    and "cnt (snd (fs_close api w)) = (cnt w)\<lparr>n_files := n_files (cnt w) - 1\<rparr>"
    and "cnt (snd (snd (fs_read api n w))) = cnt w" and "cnt (snd (fs_seek api n w)) = cnt w"
    and "cnt (snd (fs_write api b w)) = cnt w"
    and "cnt (snd (fs_opendir api path w)) =
      (cnt w)\<lparr>n_dirs := n_dirs (cnt w) + (if fst (fs_opendir api path w) = 0 then 1 else 0)\<rparr>"
    and "cnt (snd (snd (fs_readdir api w))) = cnt w"
    and "cnt (fs_closedir api w) = (cnt w)\<lparr>n_dirs := n_dirs (cnt w) - 1\<rparr>"
    and "cnt (snd (fs_mount api mp w)) =
      (cnt w)\<lparr>n_mounts := n_mounts (cnt w) + (if fst (fs_mount api mp w) < 0 then 0 else 1)\<rparr>"
    and "cnt (snd (fs_unmount api mp w)) = (cnt w)\<lparr>n_mounts := n_mounts (cnt w) - 1\<rparr>"
    and "cnt (snd (snd (flash_area_open api a w))) =
      (cnt w)\<lparr>n_areas := n_areas (cnt w) + (if fst (flash_area_open api a w) < 0 then 0 else 1)\<rparr>"
    and "cnt (snd (flash_area_flatten api pfa off n w)) = cnt w"
    and "cnt (flash_area_close api pfa w) = (cnt w)\<lparr>n_areas := n_areas (cnt w) - 1\<rparr>"
  using assms by (simp_all add: fs_handles_def not_less)

text \<open>The contract of an operation on one file, on which the main program relies: it gives
  back what it opened, and a nonzero result is a failure.\<close>

locale file_operation =
  fixes op :: "'w fs_api \<Rightarrow> string \<Rightarrow> 'w lfs \<Rightarrow> int \<times> 'w lfs"
  assumes keeps_handles: "fs_handles api cnt \<Longrightarrow> cnt (fs_world (snd (op api f s))) = cnt (fs_world s)"
    and result: "fst (op api f s) \<le> 0"
begin

lemma fails_iff: "fst (op api f s) \<noteq> 0 \<longleftrightarrow> fst (op api f s) < 0"
  using result [of api f s] by auto

end

lemma close_file_handles:
  assumes "fs_handles api cnt"
  shows "cnt (fs_world (snd (close_file api f rc s)))
      = (cnt (fs_world s))\<lparr>n_files := n_files (cnt (fs_world s)) - 1\<rparr>"
  by (simp add: close_file_def case_prod_beta Let_def fs_handlesD [OF assms])

lemma close_file_result: "fst (close_file api f rc s) \<le> 0"
  by (auto simp: close_file_def case_prod_beta Let_def)

interpretation boot_counter: file_operation littlefs_increase_infile_value
proof
  fix api :: "'a fs_api" and cnt f s
  assume "fs_handles api cnt"
  note laws = fs_handlesD [OF this] close_file_handles [OF this]
  show "cnt (fs_world (snd (littlefs_increase_infile_value api f s))) = cnt (fs_world s)"
    by (simp add: littlefs_increase_infile_value_def case_prod_beta Let_def laws)
next
  show "fst (littlefs_increase_infile_value api f s) \<le> 0" for api :: "'a fs_api" and f s
    by (simp add: littlefs_increase_infile_value_def case_prod_beta Let_def close_file_result)
qed

interpretation pattern_file: file_operation littlefs_binary_file_adj
proof
  fix api :: "'a fs_api" and cnt f s
  assume "fs_handles api cnt"
  note laws = fs_handlesD [OF this] close_file_handles [OF this]
  show "cnt (fs_world (snd (littlefs_binary_file_adj api f s))) = cnt (fs_world s)"
    by (simp add: littlefs_binary_file_adj_def case_prod_beta Let_def laws)
next
  show "fst (littlefs_binary_file_adj api f s) \<le> 0" for api :: "'a fs_api" and f s
    by (simp add: littlefs_binary_file_adj_def case_prod_beta Let_def close_file_result)
qed

lemma lsdir_loop_handles:
  assumes "lsdir_loop api s = Some r"
  shows "fs_handles api cnt \<longrightarrow> cnt (fs_world (snd r)) = cnt (fs_world s)"
proof (rule lsdir_loop.raw_induct [OF _ assms], rule impI)
  fix loop and api :: "'a fs_api" and s r
  let ?m = "\<lambda>e. if ent_type e = FS_DIR_ENTRY_DIR then Dir_line (ent_name e) else File_line (ent_name e) (ent_size e)"
  assume IH: "\<And>api t r. loop api t = Some r \<Longrightarrow> fs_handles api cnt \<longrightarrow> cnt (fs_world (snd r)) = cnt (fs_world t)"
    and body: "(let (res, ent, w) = fs_readdir api (fs_world s); s = s\<lparr>dir_entry := ent, fs_world := w\<rparr>
      in if res \<noteq> 0 \<or> ent_name ent = [] then Some (res, if res < 0 then say (Readdir_failed res) s else s)
         else loop api (say (?m ent) s)) = Some r"
    and h: "fs_handles api cnt"
  show "cnt (fs_world (snd r)) = cnt (fs_world s)"
    using body h by (auto simp: case_prod_beta Let_def fs_handlesD(8) [OF h] split: if_splits dest!: IH)
qed

lemma lsdir_handles:
  assumes "fs_handles api cnt" "lsdir api path s = Some (res, s')"
  shows "cnt (fs_world s') = cnt (fs_world s)"
proof -
  note laws = fs_handlesD(7,9) [OF assms(1)]
  have loop: "cnt (fs_world t') = cnt (fs_world t)" if "lsdir_loop api t = Some (r, t')" for t r t'
    using lsdir_loop_handles [OF that] assms(1) by simp
  from assms(2) show ?thesis
    by (auto simp: lsdir_def case_prod_beta Let_def laws loop split: if_splits option.splits dest!: loop)
qed

lemma main_files_handles:
  assumes h: "fs_handles api cnt" and "main_files api mp s = Some s'"
  shows "cnt (fs_world s') = cnt (fs_world s)"
proof -
  have ls: "cnt (fs_world t') = cnt (fs_world t)" if "lsdir api path t = Some (r, t')" for path t r t'
    by (rule lsdir_handles [OF h that])
  show ?thesis
    using assms(2) unfolding main_files_def
    by (auto simp: case_prod_beta Let_def boot_counter.keeps_handles [OF h] pattern_file.keeps_handles [OF h]
        split: if_splits option.splits dest!: ls)
qed

lemma erase_handles:
  assumes "fs_handles api cnt" "littlefs_flash_erase api wipe_storage a s = (rc, s')"
  shows "cnt (fs_world s') = cnt (fs_world s)"
  using assms(2)
  by (auto simp: littlefs_flash_erase_def case_prod_beta Let_def fs_handlesD [OF assms(1)] split: if_splits)

lemma mount_handles:
  assumes "fs_handles api cnt" "st \<noteq> Storage_flash wipe_storage True" "st \<noteq> Storage_flash (\<not> wipe_storage) True"
    and "littlefs_mount api st mp s = (rc, s')"
  shows "cnt (fs_world s') = (cnt (fs_world s))
    \<lparr>n_mounts := n_mounts (cnt (fs_world s)) + (if rc < 0 then 0 else 1)\<rparr>"
proof -
  have "cnt w' = (cnt w)\<lparr>n_mounts := n_mounts (cnt w) + (if r < 0 then 0 else 1)\<rparr>"
    if "fs_mount api m w = (r, w')" for m w r w'
    using fs_handlesD(10) [OF assms(1), of m w] that by simp
  with assms(2-4) show ?thesis
    by (auto simp: littlefs_mount_def littlefs_mount_flash_def littlefs_mount_disk_def Let_def
        split: storage.splits if_splits prod.splits dest: erase_handles [OF assms(1)])
qed

text \<open>C28: no path leaks. Whatever the mount, the directory and the file calls return, when the
  program ends every file, directory and flash area it has opened is closed again and the
  volume is unmounted exactly if it was mounted (the volume is not mounted automatically, and
  closing does not fail).\<close>

theorem no_handle_leaks:
  assumes "fs_handles api cnt" and "\<not> (case st of Storage_flash _ auto \<Rightarrow> auto | Storage_disk _ \<Rightarrow> False)"
    and "lfs_main api st mp w = Some s"
  shows "cnt (fs_world s) = cnt w"
proof -
  have st: "st \<noteq> Storage_flash x True" for x using assms(2) by auto
  obtain rc t where mount: "littlefs_mount api st mp (say Sample_banner (lfs_init w)) = (rc, t)" by fastforce
  have init: "fs_world (lfs_init w) = w" by (simp add: lfs_init_def)
  note m = mount_handles [OF assms(1) st st mount, simplified init say_simps]
  show ?thesis
  proof (cases "rc < 0")
    case True
    then show ?thesis using assms(3) mount m by (auto simp: lfs_main_def)
  next
    case False
    with assms(3) mount obtain u where
      "main_files api (mountpoint st mp) t = Some u"
      "fs_world s = snd (fs_unmount api (mountpoint st mp) (fs_world u))"
      by (auto simp: lfs_main_def case_prod_beta Let_def split: option.splits)
    with main_files_handles [OF assms(1)] m False show ?thesis
      by (simp add: fs_handlesD(11) [OF assms(1)])
  qed
qed


text \<open>A volume that is full: writes store nothing and report zero bytes; its world counts the
  handles.\<close>

definition full_fs :: "fs_counts fs_api" where
  "full_fs = \<lparr>
     fs_opendir = (\<lambda>path w. (0, w\<lparr>n_dirs := n_dirs w + 1\<rparr>)),
     fs_readdir = (\<lambda>w. (0, \<lparr>ent_type = FS_DIR_ENTRY_FILE, ent_name = [], ent_size = 0\<rparr>, w)),
     fs_closedir = (\<lambda>w. w\<lparr>n_dirs := n_dirs w - 1\<rparr>),
     fs_open = (\<lambda>f w. (0, w\<lparr>n_files := n_files w + 1\<rparr>)),
     fs_stat = (\<lambda>f w. (- ENOENT, \<lparr>ent_type = FS_DIR_ENTRY_FILE, ent_name = f, ent_size = 0\<rparr>)),
     fs_read = (\<lambda>n w. (0, [], w)),
     fs_seek = (\<lambda>n w. (0, w)),
     fs_write = (\<lambda>b w. (0, w)),
     fs_close = (\<lambda>w. (0, w\<lparr>n_files := n_files w - 1\<rparr>)),
     fs_mount = (\<lambda>mp w. (0, w\<lparr>n_mounts := n_mounts w + 1\<rparr>)),
     fs_unmount = (\<lambda>mp w. (0, w\<lparr>n_mounts := n_mounts w - 1\<rparr>)),
     fs_statvfs = (\<lambda>path w. (0, 512, 512, 64, 0)),
     flash_area_open = (\<lambda>a w. (0, \<lparr>fa_off = 0, fa_dev_name = ''flash'', fa_size = 32768\<rparr>,
       w\<lparr>n_areas := n_areas w + 1\<rparr>)),
     flash_area_flatten = (\<lambda>a off n w. (0, w)),
     flash_area_close = (\<lambda>a w. w\<lparr>n_areas := n_areas w - 1\<rparr>)\<rparr>"

definition lfs_mount_point :: fs_mount_t where
  "lfs_mount_point = \<lparr>storage_dev = 1, disk_dev = [], mnt_point = ''/lfs''\<rparr>"

lemma full_fs_handles: "fs_handles full_fs (\<lambda>w. w)"
  by (simp add: fs_handles_def full_fs_def)

theorem no_handle_leaks_witness:
  "\<exists>s. lfs_main full_fs (Storage_flash False False) lfs_mount_point \<lparr>n_files = 0, n_dirs = 0, n_mounts = 0, n_areas = 0\<rparr>
       = Some s \<and> fs_world s = \<lparr>n_files = 0, n_dirs = 0, n_mounts = 0, n_areas = 0\<rparr>"
proof -
  let ?w = "\<lparr>n_files = 0, n_dirs = 0, n_mounts = 0, n_areas = 0\<rparr>"
  have "lsdir full_fs path s \<noteq> None" for path s
    by (simp add: lsdir_def full_fs_def lsdir_loop.simps Let_def split: option.splits)
  then have "lsdir full_fs path s = Some (the (lsdir full_fs path s))" for path s
    by simp
  then obtain f where "\<And>path s. lsdir full_fs path s = Some (f path s)" by (rule that)
  then have "lfs_main full_fs (Storage_flash False False) lfs_mount_point ?w \<noteq> None"
    by (auto simp: lfs_main_def main_files_def case_prod_beta Let_def split: option.splits)
  then obtain s where "lfs_main full_fs (Storage_flash False False) lfs_mount_point ?w = Some s" by blast
  with no_handle_leaks [OF full_fs_handles _ this] show ?thesis by simp
qed

section \<open>Result codes\<close>

text \<open>The result of the boot counter update. It reports success exactly when no call of the
  file system returns a negative code; in particular a write that stores nothing on a full
  volume, which \<^verbatim>\<open>fs_write\<close> reports as a short count, is taken for a success.\<close>

theorem increase_result:
  assumes "fs_open api fname (fs_world s) = (rc_open, w1)" and "fs_read api 1 w1 = (rc_read, data, w2)"
    and "fs_seek api 0 w2 = (rc_seek, w3)"
    and "fs_write api [into_buffer data [0] ! 0 + 1] w3 = (rc_write, w4)"
    and "\<And>w. 0 \<le> fst (fs_close api w)"
  shows "fst (littlefs_increase_infile_value api fname s) =
     (if rc_open < 0 then rc_open else if rc_read < 0 then rc_read else if rc_seek < 0 then rc_seek
      else if rc_write < 0 then rc_write else 0)"
proof -
  have "\<not> fst (fs_close api w) < 0" for w using assms(5) by (simp add: not_less)
  then show ?thesis
    using assms(1-4) by (simp add: littlefs_increase_infile_value_def close_file_def case_prod_beta Let_def)
qed

theorem increase_result_witness:
  "fst (littlefs_increase_infile_value full_fs ''/lfs/boot_count''
     (lfs_init \<lparr>n_files = 0, n_dirs = 0, n_mounts = 1, n_areas = 0\<rparr>)) = 0"
proof -
  let ?w = "\<lparr>n_files = 0, n_dirs = 0, n_mounts = 1, n_areas = 0\<rparr>" and ?w1 = "\<lparr>n_files = 1, n_dirs = 0, n_mounts = 1, n_areas = 0\<rparr>"
  have "fs_open full_fs ''/lfs/boot_count'' (fs_world (lfs_init ?w)) = (0, ?w1)"
    "fs_read full_fs 1 ?w1 = (0, [], ?w1)" "fs_seek full_fs 0 ?w1 = (0, ?w1)"
    "fs_write full_fs [into_buffer [] [0] ! 0 + 1] ?w1 = (0, ?w1)"
    by (simp_all add: full_fs_def lfs_init_def)
  from increase_result [OF this] show ?thesis by (simp add: full_fs_def)
qed


end
