(* ===== verification/LittlefsBoot.thy ===== *)
theory LittlefsBoot
  imports LittlefsProps
begin

text \<open>
  What the littlefs sample does over any number of boots on a file system that works. The
  contract \<open>fs_works\<close> is stated on a view of the world: the files of the volume with their
  contents, the open file with its position, and the entries left in the open directory. It is
  the documented behaviour of \<^verbatim>\<open>fs_open\<close>, \<^verbatim>\<open>fs_stat\<close>, \<^verbatim>\<open>fs_read\<close>, \<^verbatim>\<open>fs_seek\<close>, \<^verbatim>\<open>fs_write\<close>,
  \<^verbatim>\<open>fs_close\<close>, \<^verbatim>\<open>fs_opendir\<close>, \<^verbatim>\<open>fs_readdir\<close> and \<^verbatim>\<open>fs_closedir\<close> in the case of success.
\<close>

section \<open>The contract\<close>

record fs_view =
  v_files :: "string \<Rightarrow> u8 list option"
  v_open :: "(string \<times> nat) option"
  v_dir :: "fs_dirent list"

definition file_contract :: "'w fs_api \<Rightarrow> ('w \<Rightarrow> fs_view) \<Rightarrow> bool" where
  "file_contract api view \<longleftrightarrow>
     (\<forall>w f. v_open (view w) = None \<longrightarrow> fst (fs_open api f w) = 0 \<and>
        view (snd (fs_open api f w)) = (view w)\<lparr>v_open := Some (f, 0),
          v_files := (v_files (view w))(f := Some (case v_files (view w) f of None \<Rightarrow> [] | Some d \<Rightarrow> d))\<rparr>) \<and>
     (\<forall>w f d. v_files (view w) f = Some d \<longrightarrow> fst (fs_stat api f w) = 0 \<and>
        ent_type (snd (fs_stat api f w)) = FS_DIR_ENTRY_FILE \<and> ent_size (snd (fs_stat api f w)) = length d) \<and>
     (\<forall>w f pos d n. v_open (view w) = Some (f, pos) \<longrightarrow> v_files (view w) f = Some d \<longrightarrow>
        fst (fs_read api n w) = int (length (take n (drop pos d))) \<and>
        fst (snd (fs_read api n w)) = take n (drop pos d) \<and>
        view (snd (snd (fs_read api n w))) = (view w)\<lparr>v_open := Some (f, pos + length (take n (drop pos d)))\<rparr>) \<and>
     (\<forall>w f pos n. v_open (view w) = Some (f, pos) \<longrightarrow> fst (fs_seek api n w) = 0 \<and>
        view (snd (fs_seek api n w)) = (view w)\<lparr>v_open := Some (f, n)\<rparr>) \<and>
     (\<forall>w f pos d b. v_open (view w) = Some (f, pos) \<longrightarrow> v_files (view w) f = Some d \<longrightarrow>
        fst (fs_write api b w) = int (length b) \<and>
        view (snd (fs_write api b w)) = (view w)\<lparr>v_open := Some (f, pos + length b),
          v_files := (v_files (view w))(f := Some (take pos d @ b @ drop (pos + length b) d))\<rparr>) \<and>
     (\<forall>w x. v_open (view w) = Some x \<longrightarrow> fst (fs_close api w) = 0 \<and>
        view (snd (fs_close api w)) = (view w)\<lparr>v_open := None\<rparr>)"

definition dir_contract :: "'w fs_api \<Rightarrow> ('w \<Rightarrow> fs_view) \<Rightarrow> bool" where
  "dir_contract api view \<longleftrightarrow>
     (\<forall>w path. fst (fs_opendir api path w) = 0 \<and>
        (\<exists>es. view (snd (fs_opendir api path w)) = (view w)\<lparr>v_dir := es\<rparr>) \<and>
        (\<forall>e \<in> set (v_dir (view (snd (fs_opendir api path w)))). ent_name e \<noteq> [])) \<and>
     (\<forall>w. fst (fs_readdir api w) = 0 \<and>
        view (snd (snd (fs_readdir api w))) = (view w)\<lparr>v_dir := tl (v_dir (view w))\<rparr> \<and>
        (v_dir (view w) = [] \<longrightarrow> ent_name (fst (snd (fs_readdir api w))) = []) \<and>
        (v_dir (view w) \<noteq> [] \<longrightarrow> fst (snd (fs_readdir api w)) = hd (v_dir (view w)))) \<and>
     (\<forall>w. view (fs_closedir api w) = (view w)\<lparr>v_dir := []\<rparr>)"

definition mount_contract :: "'w fs_api \<Rightarrow> ('w \<Rightarrow> fs_view) \<Rightarrow> bool" where
  "mount_contract api view \<longleftrightarrow>
     (\<forall>mp w. 0 \<le> fst (fs_mount api mp w) \<and> view (snd (fs_mount api mp w)) = view w) \<and>
     (\<forall>mp w. view (snd (fs_unmount api mp w)) = view w) \<and>
     (\<forall>path w. 0 \<le> fst (fs_statvfs api path w)) \<and>
     (\<forall>a w. 0 \<le> fst (flash_area_open api a w) \<and> view (snd (snd (flash_area_open api a w))) = view w) \<and>
     (\<forall>a w. view (flash_area_close api a w) = view w)"

definition fs_works :: "'w fs_api \<Rightarrow> ('w \<Rightarrow> fs_view) \<Rightarrow> bool" where
  "fs_works api view \<longleftrightarrow> file_contract api view \<and> dir_contract api view \<and> mount_contract api view"

section \<open>The two file operations\<close>

lemma file_contractD:
  assumes "file_contract api view"
  shows "v_open (view w) = None \<Longrightarrow> fst (fs_open api f w) = 0"
    and "v_open (view w) = None \<Longrightarrow> view (snd (fs_open api f w)) = (view w)\<lparr>v_open := Some (f, 0),
      v_files := (v_files (view w))(f := Some (case v_files (view w) f of None \<Rightarrow> [] | Some d \<Rightarrow> d))\<rparr>"
    and "v_files (view w) f = Some d \<Longrightarrow> fst (fs_stat api f w) = 0"
    and "v_files (view w) f = Some d \<Longrightarrow> ent_type (snd (fs_stat api f w)) = FS_DIR_ENTRY_FILE"
    and "v_files (view w) f = Some d \<Longrightarrow> ent_size (snd (fs_stat api f w)) = length d"
    and "v_open (view w) = Some (f, pos) \<Longrightarrow> v_files (view w) f = Some d \<Longrightarrow>
      fst (fs_read api n w) = int (length (take n (drop pos d)))"
    and "v_open (view w) = Some (f, pos) \<Longrightarrow> v_files (view w) f = Some d \<Longrightarrow>
      fst (snd (fs_read api n w)) = take n (drop pos d)"
    and "v_open (view w) = Some (f, pos) \<Longrightarrow> v_files (view w) f = Some d \<Longrightarrow>
      view (snd (snd (fs_read api n w))) = (view w)\<lparr>v_open := Some (f, pos + length (take n (drop pos d)))\<rparr>"
    and "v_open (view w) = Some (f, pos) \<Longrightarrow> fst (fs_seek api n w) = 0"
    and "v_open (view w) = Some (f, pos) \<Longrightarrow> view (snd (fs_seek api n w)) = (view w)\<lparr>v_open := Some (f, n)\<rparr>"
    and "v_open (view w) = Some (f, pos) \<Longrightarrow> v_files (view w) f = Some d \<Longrightarrow>
      fst (fs_write api b w) = int (length b)"
    and "v_open (view w) = Some (f, pos) \<Longrightarrow> v_files (view w) f = Some d \<Longrightarrow>
      view (snd (fs_write api b w)) = (view w)\<lparr>v_open := Some (f, pos + length b),
        v_files := (v_files (view w))(f := Some (take pos d @ b @ drop (pos + length b) d))\<rparr>"
    and "v_open (view w) = Some x \<Longrightarrow> fst (fs_close api w) = 0"
    and "v_open (view w) = Some x \<Longrightarrow> view (snd (fs_close api w)) = (view w)\<lparr>v_open := None\<rparr>"
  using assms by (simp_all add: file_contract_def)

text \<open>The count a file holds: its first byte, or zero when the file is missing or empty.\<close>

definition stored_count :: "u8 list option \<Rightarrow> u8" where
  "stored_count f = (case f of Some (b # _) \<Rightarrow> b | _ \<Rightarrow> 0)"

lemma increase_effect:
  assumes "file_contract api view" "v_open (view (fs_world s)) = None"
    and "v_files (view (fs_world s)) fname = fc"
    and "littlefs_increase_infile_value api fname s = (rc, s')"
  shows "rc = 0 \<and> file_test_pattern s' = file_test_pattern s \<and>
    view (fs_world s') = (view (fs_world s))\<lparr>v_open := None, v_files := (v_files (view (fs_world s)))
      (fname := Some ((stored_count fc + 1) # (case fc of None \<Rightarrow> [] | Some d \<Rightarrow> tl d)))\<rparr>"
proof -
  note laws = file_contractD [OF assms(1)]
  let ?d = "case fc of None \<Rightarrow> [] | Some d \<Rightarrow> d"
  have "into_buffer (take 1 ?d) [0] ! 0 = stored_count fc"
    by (auto simp: into_buffer_def stored_count_def split: option.splits list.splits)
  moreover have "drop (Suc 0) ?d = (case fc of None \<Rightarrow> [] | Some d \<Rightarrow> tl d)"
    by (auto simp: drop_Suc split: option.splits)
  ultimately show ?thesis
    using assms(2-4)
    by (auto simp: littlefs_increase_infile_value_def close_file_def case_prod_beta Let_def laws)
qed

lemma adjust_effect:
  assumes "file_contract api view" "v_open (view (fs_world s)) = None"
    and "length (file_test_pattern s) = TEST_FILE_SIZE"
    and "v_files (view (fs_world s)) fname = fc"
    and "fc = None \<and> p' = pattern_after 0 \<or>
         fc = Some (pattern_after n) \<and> p' = pattern_after (Suc n)"
    and "littlefs_binary_file_adj api fname s = (rc, s')"
  shows "rc = 0 \<and> view (fs_world s') = (view (fs_world s))\<lparr>v_open := None,
    v_files := (v_files (view (fs_world s)))(fname := Some p')\<rparr>"
proof -
  note laws = file_contractD [OF assms(1)]
  have len: "length (pattern_after k) = TEST_FILE_SIZE" for k by (simp add: pattern_after_def)
  have buf: "into_buffer (pattern_after k) (file_test_pattern s) = pattern_after k" for k
    using assms(3) by (simp add: into_buffer_def len)
  note facts = littlefs_binary_file_adj_def close_file_def case_prod_beta Let_def laws len buf
  from assms(5) show ?thesis
  proof
    assume "fc = None \<and> p' = pattern_after 0"
    with assms(2,3,4,6) show ?thesis by (auto simp: facts init_is_pattern)
  next
    assume "fc = Some (pattern_after n) \<and> p' = pattern_after (Suc n)"
    with assms(2,3,4,6) show ?thesis by (auto simp: facts incr_is_pattern)
  qed
qed

section \<open>The listing\<close>

definition entry_line :: "fs_dirent \<Rightarrow> lfs_msg" where
  "entry_line e = (if ent_type e = FS_DIR_ENTRY_DIR then Dir_line (ent_name e)
     else File_line (ent_name e) (ent_size e))"

lemma dir_contractD:
  assumes "dir_contract api view"
  shows "fst (fs_opendir api path w) = 0"
    and "\<exists>es. view (snd (fs_opendir api path w)) = (view w)\<lparr>v_dir := es\<rparr>"
    and "e \<in> set (v_dir (view (snd (fs_opendir api path w)))) \<Longrightarrow> ent_name e \<noteq> []"
    and "fst (fs_readdir api w) = 0"
    and "view (snd (snd (fs_readdir api w))) = (view w)\<lparr>v_dir := tl (v_dir (view w))\<rparr>"
    and "v_dir (view w) = [] \<Longrightarrow> ent_name (fst (snd (fs_readdir api w))) = []"
    and "v_dir (view w) = d # ds \<Longrightarrow> fst (snd (fs_readdir api w)) = d"
    and "view (fs_closedir api w) = (view w)\<lparr>v_dir := []\<rparr>"
  using assms by (simp_all add: dir_contract_def)

lemma lsdir_loop_effect:
  assumes "dir_contract api view" "v_dir (view (fs_world s)) = es" "\<forall>e \<in> set es. ent_name e \<noteq> []"
  shows "\<exists>s'. lsdir_loop api s = Some (0, s') \<and>
     lfs_log s' = rev (map entry_line es) @ lfs_log s \<and>
     file_test_pattern s' = file_test_pattern s \<and>
     view (fs_world s') = (view (fs_world s))\<lparr>v_dir := []\<rparr>"
  using assms(2,3)
proof (induction es arbitrary: s)
  case Nil
  then show ?case
    by (subst lsdir_loop.simps) (simp add: case_prod_beta Let_def dir_contractD [OF assms(1)])
next
  case (Cons e es)
  obtain w' where read: "fs_readdir api (fs_world s) = (0, e, w')" "view w' = (view (fs_world s))\<lparr>v_dir := es\<rparr>"
    using dir_contractD(4,5,7) [OF assms(1), of "fs_world s"] Cons.prems(1)
    by (metis prod.collapse list.sel(3))
  let ?s = "say (entry_line e) (s\<lparr>dir_entry := e, fs_world := w'\<rparr>)"
  have "lsdir_loop api s = lsdir_loop api ?s"
    using Cons.prems(2) by (subst lsdir_loop.simps) (simp add: read entry_line_def)
  moreover have "v_dir (view (fs_world ?s)) = es" "\<forall>e \<in> set es. ent_name e \<noteq> []"
    using read(2) Cons.prems(2) by simp_all
  note Cons.IH [OF this]
  ultimately show ?case using read(2) by auto
qed

lemma lsdir_effect:
  assumes "dir_contract api view"
    and "es = v_dir (view (snd (fs_opendir api path (fs_world s))))"
  shows "\<exists>s'. lsdir api path s = Some (0, s') \<and>
     lfs_log s' = rev (map entry_line es) @ Listing path # lfs_log s \<and>
     file_test_pattern s' = file_test_pattern s \<and>
     view (fs_world s') = (view (fs_world s))\<lparr>v_dir := []\<rparr>"
proof -
  let ?w = "snd (fs_opendir api path (fs_world s))"
  let ?s = "say (Listing path) (s\<lparr>fs_world := ?w\<rparr>)"
  obtain ds where view: "view ?w = (view (fs_world s))\<lparr>v_dir := ds\<rparr>"
    using dir_contractD(2) [OF assms(1)] by blast
  have "\<forall>e \<in> set es. ent_name e \<noteq> []" using assms dir_contractD(3) [OF assms(1)] by blast
  moreover have "v_dir (view (fs_world ?s)) = es" by (simp add: assms(2))
  ultimately obtain s' where "lsdir_loop api ?s = Some (0, s')"
     "lfs_log s' = rev (map entry_line es) @ Listing path # lfs_log s"
     "file_test_pattern s' = file_test_pattern s" "view (fs_world s') = (view ?w)\<lparr>v_dir := []\<rparr>"
    using lsdir_loop_effect [OF assms(1), of ?s es] by auto
  then show ?thesis
    by (simp add: lsdir_def case_prod_beta Let_def dir_contractD(1,8) [OF assms(1)] view)
qed

text \<open>C37: on a working file system \<^verbatim>\<open>lsdir\<close> returns, reports success and prints the banner and
  then one line for each entry of the directory, in the order in which the file system yields
  them, directories and files each in their format.\<close>

theorem lsdir_lists_all:
  assumes "dir_contract api view"
    and "es = v_dir (view (snd (fs_opendir api path (fs_world s))))"
  shows "\<exists>s'. lsdir api path s = Some (0, s') \<and>
     lfs_log s' = rev (map entry_line es) @ Listing path # lfs_log s"
  using lsdir_effect [OF assms] by blast


section \<open>Boots\<close>

definition boot :: "'w fs_api \<Rightarrow> storage \<Rightarrow> fs_mount_t \<Rightarrow> 'w \<Rightarrow> 'w option" where
  "boot api st mp w = map_option fs_world (lfs_main api st mp w)"

primrec boots :: "'w fs_api \<Rightarrow> storage \<Rightarrow> fs_mount_t \<Rightarrow> nat \<Rightarrow> 'w \<Rightarrow> 'w option" where
  "boots api st mp 0 w = Some w"
| "boots api st mp (Suc n) w = (case boots api st mp n w of None \<Rightarrow> None | Some w' \<Rightarrow> boot api st mp w')"

text \<open>The storage is not wiped at the start.\<close>

definition keeps_data :: "storage \<Rightarrow> bool" where
  "keeps_data st = (case st of Storage_flash wipe_storage _ \<Rightarrow> \<not> wipe_storage | Storage_disk _ \<Rightarrow> True)"

lemma mount_contractD:
  assumes "mount_contract api view"
  shows "\<not> fst (fs_mount api mp w) < 0" and "view (snd (fs_mount api mp w)) = view w"
    and "view (snd (fs_unmount api mp w)) = view w" and "\<not> fst (fs_statvfs api path w) < 0"
    and "\<not> fst (flash_area_open api a w) < 0" and "view (snd (snd (flash_area_open api a w))) = view w"
    and "view (flash_area_close api pfa w) = view w"
  using assms by (simp_all add: mount_contract_def not_less)

lemma mount_effect:
  assumes "mount_contract api view" "keeps_data st" "littlefs_mount api st mp s = (rc, s')"
  shows "0 \<le> rc \<and> view (fs_world s') = view (fs_world s) \<and> file_test_pattern s' = file_test_pattern s"
  using assms(2,3)
  by (auto simp: littlefs_mount_def littlefs_mount_flash_def littlefs_mount_disk_def keeps_data_def
      littlefs_flash_erase_def case_prod_beta Let_def mount_contractD [OF assms(1)] not_less [symmetric]
      split: storage.splits if_splits)

text \<open>What one run of the program does to the two files.\<close>

lemma boot_effect:
  assumes works: "fs_works api view" and "keeps_data st" and closed: "v_open (view w) = None"
    and names: "bf = file_name (mountpoint st mp) ''/boot_count''" "pf = file_name (mountpoint st mp) ''/pattern.bin''"
      "bf \<noteq> pf"
    and pat: "v_files (view w) pf = None \<and> p' = pattern_after 0 \<or>
      v_files (view w) pf = Some (pattern_after n) \<and> p' = pattern_after (Suc n)"
  shows "\<exists>w'. boot api st mp w = Some w' \<and> v_open (view w') = None \<and>
    v_files (view w') = (v_files (view w))(
      bf := Some ((stored_count (v_files (view w) bf) + 1) #
                  (case v_files (view w) bf of None \<Rightarrow> [] | Some d \<Rightarrow> tl d)),
      pf := Some p')"
proof -
  let ?mp = "mountpoint st mp"
  have fc: "file_contract api view" and dc: "dir_contract api view" and mc: "mount_contract api view"
    using works by (simp_all add: fs_works_def)
  obtain rc s where mount: "littlefs_mount api st mp (say Sample_banner (lfs_init w)) = (rc, s)" by fastforce
  then have s: "\<not> rc < 0" "view (fs_world s) = view w" "length (file_test_pattern s) = TEST_FILE_SIZE"
    using mount_effect [OF mc assms(2) mount] by (simp_all add: lfs_init_def)
  obtain c f_bsize f_frsize f_blocks f_bfree where
    stat: "fs_statvfs api (mnt_point ?mp) (fs_world s) = (c, f_bsize, f_frsize, f_blocks, f_bfree)" "\<not> c < 0"
    using mount_contractD(4) [OF mc, of "mnt_point ?mp" "fs_world s"] by (metis prod.collapse fst_conv)
  let ?s = "say (Statvfs (mnt_point ?mp) f_bsize f_frsize f_blocks f_bfree) s"
  obtain s1 where ls: "lsdir api (mnt_point ?mp) ?s = Some (0, s1)"
    and s1: "file_test_pattern s1 = file_test_pattern s" "view (fs_world s1) = (view w)\<lparr>v_dir := []\<rparr>"
    using lsdir_effect [OF dc refl, of "mnt_point ?mp" ?s] s(2) by auto
  obtain r2 s2 where inc: "littlefs_increase_infile_value api bf s1 = (r2, s2)" by fastforce
  have s2: "r2 = 0" "file_test_pattern s2 = file_test_pattern s"
    "view (fs_world s2) = (view w)\<lparr>v_dir := [], v_files := (v_files (view w))(bf := Some
      ((stored_count (v_files (view w) bf) + 1) # (case v_files (view w) bf of None \<Rightarrow> [] | Some d \<Rightarrow> tl d)))\<rparr>"
    using increase_effect [OF fc _ refl inc] s1 closed by simp_all
  obtain r3 s3 where adj: "littlefs_binary_file_adj api pf s2 = (r3, s3)" by fastforce
  have s3: "view (fs_world s3) = (view (fs_world s2))\<lparr>v_files := (v_files (view (fs_world s2)))(pf := Some p')\<rparr>"
    using adjust_effect [OF fc _ _ refl _ adj, of p' n] s2 s(3) closed names(3) pat by simp
  have "main_files api ?mp s = Some s3"
    using stat ls inc s2(1) adj by (simp add: main_files_def names)
  then have "boot api st mp w = Some (snd (fs_unmount api ?mp (fs_world s3)))"
    using mount s(1) by (simp add: boot_def lfs_main_def case_prod_beta Let_def)
  then show ?thesis
    using s3 s2(3) closed by (simp add: mount_contractD(3) [OF mc])
qed

text \<open>C6: the boot counter and the pattern over any number of boots. On a file system that
  works, starting without the two files, with a storage that is not wiped and a mount point
  short enough for the path buffer, \<open>n\<close> boots all return; afterwards \<^verbatim>\<open>boot_count\<close> holds the
  single byte \<open>n\<close> modulo 256 and \<^verbatim>\<open>pattern.bin\<close> the pattern after \<open>n - 1\<close> updates, and every
  other file is as before.\<close>

theorem files_after_boots:
  assumes "fs_works api view" and "keeps_data st" and "v_open (view w) = None"
    and "bf = file_name (mountpoint st mp) ''/boot_count''"
    and "pf = file_name (mountpoint st mp) ''/pattern.bin''"
    and "length (mnt_point (mountpoint st mp)) \<le> 242"
    and "v_files (view w) bf = None" and "v_files (view w) pf = None"
  shows "\<exists>w'. boots api st mp n w = Some w' \<and> v_open (view w') = None \<and>
    (v_files (view w') = (if n = 0 then v_files (view w) else
       (v_files (view w))(bf := Some [of_nat n], pf := Some (pattern_after (n - 1)))))"
proof (induction n)
  case 0
  show ?case using assms(3) by simp
next
  case (Suc n)
  then obtain w' where w': "boots api st mp n w = Some w'" "v_open (view w') = None"
    "v_files (view w') = (if n = 0 then v_files (view w) else
       (v_files (view w))(bf := Some [of_nat n], pf := Some (pattern_after (n - 1))))" by blast
  have ne: "bf \<noteq> pf" using assms(6) by (simp add: assms(4,5) file_name_def)
  have "v_files (view w') pf = None \<and> pattern_after n = pattern_after 0 \<or>
      v_files (view w') pf = Some (pattern_after (n - 1)) \<and> pattern_after n = pattern_after (Suc (n - 1))"
    using w'(3) assms(8) by (cases n) auto
  from boot_effect [OF assms(1,2) w'(2) assms(4,5) ne this] w'(1,3) assms(7) ne show ?case
    by (cases n) (auto simp: stored_count_def add.commute fun_eq_iff)
qed

text \<open>A file system in memory, for the witnesses; its root directory holds one directory.\<close>

definition ramfs :: "fs_view fs_api" where
  "ramfs = \<lparr>
     fs_opendir = (\<lambda>path w. (0, w\<lparr>v_dir := [\<lparr>ent_type = FS_DIR_ENTRY_DIR, ent_name = ''d'', ent_size = 0\<rparr>]\<rparr>)),
     fs_readdir = (\<lambda>w. (0, case v_dir w of [] \<Rightarrow> \<lparr>ent_type = FS_DIR_ENTRY_FILE, ent_name = [], ent_size = 0\<rparr>
       | e # _ \<Rightarrow> e, w\<lparr>v_dir := tl (v_dir w)\<rparr>)),
     fs_closedir = (\<lambda>w. w\<lparr>v_dir := []\<rparr>),
     fs_open = (\<lambda>f w. (0, w\<lparr>v_open := Some (f, 0),
       v_files := (v_files w)(f := Some (case v_files w f of None \<Rightarrow> [] | Some d \<Rightarrow> d))\<rparr>)),
     fs_stat = (\<lambda>f w. case v_files w f of
         None \<Rightarrow> (- ENOENT, \<lparr>ent_type = FS_DIR_ENTRY_FILE, ent_name = f, ent_size = 0\<rparr>)
       | Some d \<Rightarrow> (0, \<lparr>ent_type = FS_DIR_ENTRY_FILE, ent_name = f, ent_size = length d\<rparr>)),
     fs_read = (\<lambda>n w. case v_open w of None \<Rightarrow> (- EINVAL, [], w) | Some (f, pos) \<Rightarrow>
       let b = take n (drop pos (the (v_files w f))) in (int (length b), b, w\<lparr>v_open := Some (f, pos + length b)\<rparr>)),
     fs_seek = (\<lambda>n w. case v_open w of None \<Rightarrow> (- EINVAL, w) | Some (f, _) \<Rightarrow> (0, w\<lparr>v_open := Some (f, n)\<rparr>)),
     fs_write = (\<lambda>b w. case v_open w of None \<Rightarrow> (- EINVAL, w) | Some (f, pos) \<Rightarrow>
       let d = the (v_files w f) in (int (length b), w\<lparr>v_open := Some (f, pos + length b),
         v_files := (v_files w)(f := Some (take pos d @ b @ drop (pos + length b) d))\<rparr>)),
     fs_close = (\<lambda>w. (0, w\<lparr>v_open := None\<rparr>)),
     fs_mount = (\<lambda>mp w. (0, w)), fs_unmount = (\<lambda>mp w. (0, w)),
     fs_statvfs = (\<lambda>path w. (0, 512, 512, 64, 60)),
     flash_area_open = (\<lambda>a w. (0, \<lparr>fa_off = 0, fa_dev_name = ''flash'', fa_size = 32768\<rparr>, w)),
     flash_area_flatten = (\<lambda>a off n w. (0, w)), flash_area_close = (\<lambda>a w. w)\<rparr>"

lemma ramfs_works: "file_contract ramfs (\<lambda>v. v)" "dir_contract ramfs (\<lambda>v. v)" "fs_works ramfs (\<lambda>v. v)"
proof -
  show 1: "file_contract ramfs (\<lambda>v. v)"
    by (simp add: file_contract_def ramfs_def Let_def)
  show 2: "dir_contract ramfs (\<lambda>v. v)"
    by (auto simp: dir_contract_def ramfs_def split: list.splits)
  have "mount_contract ramfs (\<lambda>v. v)" by (simp add: mount_contract_def ramfs_def)
  with 1 2 show "fs_works ramfs (\<lambda>v. v)" by (simp add: fs_works_def)
qed

definition empty_volume :: fs_view where
  "empty_volume = \<lparr>v_files = (\<lambda>_. None), v_open = None, v_dir = []\<rparr>"

definition sd_mount :: fs_mount_t where
  "sd_mount = \<lparr>storage_dev = 0, disk_dev = [], mnt_point = []\<rparr>"

theorem lsdir_lists_all_witness:
  "\<exists>s'. lsdir ramfs ''/SD:'' (lfs_init empty_volume) = Some (0, s') \<and>
     lfs_log s' = [Dir_line ''d'', Listing ''/SD:'']"
  using lsdir_lists_all [OF ramfs_works(2) refl, of "''/SD:''" "lfs_init empty_volume"]
  by (simp add: ramfs_def lfs_init_def entry_line_def)

theorem files_after_boots_witness:
  "\<exists>w'. boots ramfs (Storage_disk ''SD'') sd_mount 300 empty_volume = Some w' \<and>
     v_files w' ''/SD:/boot_count'' = Some [44] \<and>
     v_files w' ''/SD:/pattern.bin'' = Some (pattern_after 299) \<and> v_files w' ''/SD:/foo.txt'' = None"
  using files_after_boots [OF ramfs_works(3), of "Storage_disk ''SD''" empty_volume
      "''/SD:/boot_count''" sd_mount "''/SD:/pattern.bin''" 300]
  by (auto simp: keeps_data_def mountpoint_def sd_mount_def file_name_def empty_volume_def)


end
