(* ===== verification/Display.thy ===== *)
theory Display
  imports Prelude
begin

unbundle bit_operations_syntax

text \<open>
  The display sample, \<^verbatim>\<open>app/demos/display/src/main.c\<close>.

  The buffer from \<^verbatim>\<open>k_malloc\<close> is a list of bytes; a store outside of it is undefined in C and
  makes the fill functions return \<open>None\<close>. \<^verbatim>\<open>size_t\<close> has 32 bits; its values are natural numbers
  with the wrap-around of products and differences written out (\<open>size_mult\<close>, \<open>size_minus\<close>), and
  the arguments of \<^verbatim>\<open>display_write\<close> and the fields of its descriptor are truncated to their 16
  bits. Words are stored little-endian, as on the targets. The display driver only
  receives calls whose results are ignored, so the model records the calls, newest first.

  The loop over the background strips does not end when its step is zero: it is a partial
  function. The loop over the grey shades does not end unless \<^verbatim>\<open>CONFIG_TEST\<close> is set:
  \<open>display_main\<close> takes the number of rounds after which the run is observed.
\<close>

section \<open>Filling a buffer\<close>

datatype corner = TOP_LEFT | TOP_RIGHT | BOTTOM_RIGHT | BOTTOM_LEFT

definition store_bytes :: "nat \<Rightarrow> u8 list \<Rightarrow> u8 list \<Rightarrow> u8 list option" where
  "store_bytes i bs buf =
     (if i + length bs \<le> length buf then Some (take i buf @ bs @ drop (i + length bs) buf) else None)"

text \<open>The loop \<^verbatim>\<open>for (idx = 0; idx < buf_size; idx += n)\<close> that stores the \<open>n > 0\<close> bytes of a pixel
  at each index.\<close>

function fill_loop :: "u8 list \<Rightarrow> nat \<Rightarrow> nat \<Rightarrow> u8 list \<Rightarrow> u8 list option" where
  "fill_loop px idx buf_size buf =
     (if idx < buf_size \<and> px \<noteq> []
      then case store_bytes idx px buf of None \<Rightarrow> None
           | Some buf \<Rightarrow> fill_loop px (idx + length px) buf_size buf
      else Some buf)"
  by auto
termination
  by (relation "measure (\<lambda>(px, idx, buf_size, buf). buf_size - idx)") (auto simp: diff_less_mono2)

declare fill_loop.simps [simp del]

definition le32 :: "u32 \<Rightarrow> u8 list" where
  "le32 v = [ucast v, ucast (drop_bit 8 v), ucast (drop_bit 16 v), ucast (drop_bit 24 v)]"

definition le16 :: "u16 \<Rightarrow> u8 list" where
  "le16 v = [ucast v, ucast (drop_bit 8 v)]"

text \<open>The \<^verbatim>\<open>switch\<close> that \<^verbatim>\<open>fill_buffer_argb8888\<close> and \<^verbatim>\<open>fill_buffer_rgb888\<close> have in common.\<close>

definition rgb_color :: "corner \<Rightarrow> u8 \<Rightarrow> u32" where
  "rgb_color c grey = (case c of
     TOP_LEFT \<Rightarrow> 0x00FF0000
   | TOP_RIGHT \<Rightarrow> 0x0000FF00
   | BOTTOM_RIGHT \<Rightarrow> 0x000000FF
   | BOTTOM_LEFT \<Rightarrow> push_bit 16 (ucast grey) OR push_bit 8 (ucast grey) OR ucast grey)"

definition fill_buffer_argb8888 :: "corner \<Rightarrow> u8 \<Rightarrow> u8 list \<Rightarrow> nat \<Rightarrow> u8 list option" where
  "fill_buffer_argb8888 c grey buf buf_size = fill_loop (le32 (rgb_color c grey)) 0 buf_size buf"

definition fill_buffer_rgb888 :: "corner \<Rightarrow> u8 \<Rightarrow> u8 list \<Rightarrow> nat \<Rightarrow> u8 list option" where
  "fill_buffer_rgb888 c grey buf buf_size =
     (let color = rgb_color c grey
      in fill_loop [ucast (drop_bit 16 color), ucast (drop_bit 8 color), ucast color] 0 buf_size buf)"

definition get_rgb565_color :: "corner \<Rightarrow> u8 \<Rightarrow> u16" where
  "get_rgb565_color c grey = (case c of
     TOP_LEFT \<Rightarrow> 0xF800
   | TOP_RIGHT \<Rightarrow> 0x07E0
   | BOTTOM_RIGHT \<Rightarrow> 0x001F
   | BOTTOM_LEFT \<Rightarrow> (let grey_5bit = ucast (grey AND 0x1F)
       in push_bit 11 grey_5bit OR push_bit (5 + 1) grey_5bit OR grey_5bit))"

definition fill_buffer_rgb565 :: "corner \<Rightarrow> u8 \<Rightarrow> u8 list \<Rightarrow> nat \<Rightarrow> u8 list option" where
  "fill_buffer_rgb565 c grey buf buf_size =
     (let color = get_rgb565_color c grey
      in fill_loop [ucast (drop_bit 8 color AND 0xFF), ucast (color AND 0xFF)] 0 buf_size buf)"

definition fill_buffer_bgr565 :: "corner \<Rightarrow> u8 \<Rightarrow> u8 list \<Rightarrow> nat \<Rightarrow> u8 list option" where
  "fill_buffer_bgr565 c grey buf buf_size = fill_loop (le16 (get_rgb565_color c grey)) 0 buf_size buf"

definition fill_buffer_mono ::
  "corner \<Rightarrow> u8 \<Rightarrow> u8 \<Rightarrow> u8 \<Rightarrow> u8 list \<Rightarrow> nat \<Rightarrow> u8 list option" where
  "fill_buffer_mono c grey black white buf buf_size =
     (let color = (case c of BOTTOM_LEFT \<Rightarrow> if grey AND 1 \<noteq> 0 then white else black | _ \<Rightarrow> black)
      in store_bytes 0 (replicate buf_size color) buf)"

definition fill_buffer_mono01 :: "corner \<Rightarrow> u8 \<Rightarrow> u8 list \<Rightarrow> nat \<Rightarrow> u8 list option" where
  "fill_buffer_mono01 c grey buf buf_size = fill_buffer_mono c grey 0x00 0xFF buf buf_size"

definition fill_buffer_mono10 :: "corner \<Rightarrow> u8 \<Rightarrow> u8 list \<Rightarrow> nat \<Rightarrow> u8 list option" where
  "fill_buffer_mono10 c grey buf buf_size = fill_buffer_mono c grey 0xFF 0x00 buf buf_size"

section \<open>Geometry\<close>

datatype pixel_format =
    PIXEL_FORMAT_ARGB_8888
  | PIXEL_FORMAT_RGB_888
  | PIXEL_FORMAT_RGB_565
  | PIXEL_FORMAT_BGR_565
  | PIXEL_FORMAT_MONO01
  | PIXEL_FORMAT_MONO10
  | PIXEL_FORMAT_OTHER u32

record display_capabilities =
  x_resolution :: u16
  y_resolution :: u16
  mono_vtiled :: bool
  epd :: bool
  current_pixel_format :: pixel_format

definition size_mult :: "nat \<Rightarrow> nat \<Rightarrow> nat" where
  "size_mult a b = a * b mod 2 ^ 32"

definition size_minus :: "nat \<Rightarrow> nat \<Rightarrow> nat" where
  "size_minus a b = (a + 2 ^ 32 - b) mod 2 ^ 32"

record geometry =
  rect_w :: nat
  rect_h :: nat
  h_step :: nat

definition display_geometry :: "display_capabilities \<Rightarrow> geometry" where
  "display_geometry caps =
     (let x_res = unat (x_resolution caps); y_res = unat (y_resolution caps);
          rw = (if mono_vtiled caps then 16 else 2);
          rh = (if mono_vtiled caps then 8 else 1);
          (rw, rh, step, scale) =
            (if x_res < 3 * rw \<or> y_res < 3 * rh \<or> x_res < 8 * rh
             then (x_res * 40 div 100, y_res * 40 div 100, y_res * 20 div 100, 1)
             else (rw, rh, rh, (x_res div 8) div rh))
      in \<lparr>rect_w = size_mult rw scale, rect_h = size_mult rh scale, h_step = step\<rparr>)"

text \<open>The number of pixels the buffer has to hold, before it is converted to bytes.\<close>

definition buffer_pixels :: "display_capabilities \<Rightarrow> geometry \<Rightarrow> nat" where
  "buffer_pixels caps g =
     (let buf_size = size_mult (rect_w g) (rect_h g);
          strip = size_mult (unat (x_resolution caps)) (h_step g)
      in if buf_size < strip then strip else buf_size)"

type_synonym fill_buffer = "corner \<Rightarrow> u8 \<Rightarrow> u8 list \<Rightarrow> nat \<Rightarrow> u8 list option"

text \<open>The \<^verbatim>\<open>switch\<close> on the pixel format: background, fill function and buffer size in bytes. The
  case of \<^verbatim>\<open>PIXEL_FORMAT_BGR_565\<close> is only compiled when a macro of that name is defined.\<close>

definition format_setup :: "bool \<Rightarrow> pixel_format \<Rightarrow> nat \<Rightarrow> (u8 \<times> fill_buffer \<times> nat) option" where
  "format_setup bgr_macro fmt buf_size = (case fmt of
     PIXEL_FORMAT_ARGB_8888 \<Rightarrow> Some (0xFF, fill_buffer_argb8888, size_mult buf_size 4)
   | PIXEL_FORMAT_RGB_888 \<Rightarrow> Some (0xFF, fill_buffer_rgb888, size_mult buf_size 3)
   | PIXEL_FORMAT_RGB_565 \<Rightarrow> Some (0xFF, fill_buffer_rgb565, size_mult buf_size 2)
   | PIXEL_FORMAT_BGR_565 \<Rightarrow>
       if bgr_macro then Some (0xFF, fill_buffer_bgr565, size_mult buf_size 2) else None
   | PIXEL_FORMAT_MONO01 \<Rightarrow> Some (0xFF, fill_buffer_mono01, (buf_size + 7) mod 2 ^ 32 div 8)
   | PIXEL_FORMAT_MONO10 \<Rightarrow> Some (0x00, fill_buffer_mono10, (buf_size + 7) mod 2 ^ 32 div 8)
   | PIXEL_FORMAT_OTHER _ \<Rightarrow> None)"

section \<open>The main program\<close>

record buf_desc =
  desc_buf_size :: nat
  desc_width :: nat
  desc_height :: nat
  desc_pitch :: nat

datatype display_call =
    Display_write nat nat buf_desc "u8 list"
  | Blanking_off
  | Msleep nat

text \<open>Calls pass \<^verbatim>\<open>uint16_t\<close> coordinates.\<close>

definition display_write :: "nat \<Rightarrow> nat \<Rightarrow> buf_desc \<Rightarrow> u8 list \<Rightarrow> display_call" where
  "display_write x y d buf = Display_write (x mod 2 ^ 16) (y mod 2 ^ 16) d buf"

definition make_desc :: "nat \<Rightarrow> nat \<Rightarrow> nat \<Rightarrow> buf_desc" where
  "make_desc buf_size w h = \<lparr>desc_buf_size = buf_size, desc_width = w mod 2 ^ 16,
     desc_height = h mod 2 ^ 16, desc_pitch = w mod 2 ^ 16\<rparr>"

partial_function (option) strips ::
  "nat \<Rightarrow> nat \<Rightarrow> u8 list \<Rightarrow> nat \<Rightarrow> buf_desc \<Rightarrow> display_call list \<Rightarrow> display_call list option" where
  "strips y_res step buf idx d cs =
     (if idx < y_res
      then let d = (if y_res - idx < step then d\<lparr>desc_height := (y_res - idx) mod 2 ^ 16\<rparr> else d)
           in strips y_res step buf (idx + step) d (display_write 0 idx d buf # cs)
      else Some cs)"

datatype display_result =
    Not_found                    \<comment> \<open>no display, or not ready\<close>
  | Unsupported                  \<comment> \<open>unsupported pixel format\<close>
  | No_memory
  | Out_of_bounds                \<comment> \<open>a store outside of the buffer\<close>
  | Stuck                        \<comment> \<open>the loop over the strips does not end\<close>
  | Drawn "display_call list"    \<comment> \<open>the calls so far, newest first\<close>

text \<open>The loop over the grey shades: \<open>rounds\<close> of it, fewer if the test build stops. The size of the
  buffer is in the descriptor, where \<^verbatim>\<open>main\<close> has put it.\<close>

fun grey_loop :: "bool \<Rightarrow> fill_buffer \<Rightarrow> nat \<Rightarrow> nat \<Rightarrow> buf_desc \<Rightarrow> nat \<Rightarrow> nat \<Rightarrow> u8 list
    \<Rightarrow> display_call list \<Rightarrow> display_result" where
  "grey_loop test fill sleep y d 0 grey_count buf cs = Drawn cs"
| "grey_loop test fill sleep y d (Suc rounds) grey_count buf cs =
     (case fill BOTTOM_LEFT (of_nat grey_count) buf (desc_buf_size d) of
       None \<Rightarrow> Out_of_bounds
     | Some buf \<Rightarrow>
         (let cs = Msleep sleep # display_write 0 y d buf # cs; grey_count = (grey_count + 1) mod 2 ^ 32
          in if test \<and> 1024 \<le> grey_count then Drawn cs
             else grey_loop test fill sleep y d rounds grey_count buf cs))"

definition display_main ::
  "bool \<Rightarrow> bool \<Rightarrow> bool \<Rightarrow> (nat \<Rightarrow> bool) \<Rightarrow> display_capabilities \<Rightarrow> nat \<Rightarrow> display_result" where
  "display_main ready bgr_macro test malloc_ok caps rounds =
     (if \<not> ready then Not_found else
      let g = display_geometry caps;
          x_res = unat (x_resolution caps); y_res = unat (y_resolution caps);
          sleep = (if epd caps then 10000 else 100)
      in case format_setup bgr_macro (current_pixel_format caps) (buffer_pixels caps g) of
        None \<Rightarrow> Unsupported
      | Some (bg_color, fill, buf_size) \<Rightarrow>
          if \<not> malloc_ok buf_size then No_memory else
          let buf = replicate buf_size bg_color
          in case strips y_res (h_step g) buf 0 (make_desc buf_size x_res (h_step g)) [] of
            None \<Rightarrow> Stuck
          | Some cs \<Rightarrow>
              (let d = make_desc buf_size (rect_w g) (rect_h g)
               in case fill BOTTOM_RIGHT 0 buf buf_size of
                 None \<Rightarrow> Out_of_bounds
               | Some buf \<Rightarrow>
                   (let cs = Blanking_off # display_write (size_minus x_res (rect_w g))
                               (size_minus y_res (rect_h g)) d buf # cs
                    in grey_loop test fill sleep (size_minus y_res (rect_h g)) d rounds 0 buf cs)))"

end
