(* ===== verification/DisplayProps.thy ===== *)
theory DisplayProps
  imports Display
begin

text \<open>
  The properties of the display sample: the fill functions write uniform pixels and never
  leave the buffer (the interface \<open>pixel_filler\<close>, interpreted for the six of them), the strips
  cover the screen, the rectangles lie inside of it on displays that are not too wide, and
  what happens on displays that are too wide or too low.
\<close>

section \<open>Fill functions\<close>

lemma fill_loop_eq:
  assumes "px \<noteq> []" "length px dvd length buf - idx" "idx \<le> length buf"
  shows "fill_loop px idx (length buf) buf =
     Some (take idx buf @ concat (replicate ((length buf - idx) div length px) px))"
  using assms
proof (induction "length buf - idx" arbitrary: idx buf rule: less_induct)
  case less
  show ?case
  proof (cases "idx < length buf")
    case False
    with less.prems show ?thesis by (simp add: fill_loop.simps)
  next
    case True
    have fits: "length px \<le> length buf - idx" using less.prems(2) True by (simp add: dvd_imp_le)
    have le: "idx + length px \<le> length buf" using fits True by simp
    let ?b = "take idx buf @ px @ drop (idx + length px) buf" and ?i = "idx + length px"
    have len: "length ?b = length buf" using fits True by simp
    have "length buf - ?i = (length buf - idx) - length px" by simp
    then have "length px dvd length buf - ?i" using less.prems(2) by (metis dvd_diff_nat dvd_refl)
    moreover have "length ?b - ?i < length buf - idx"
      using less.prems(1) True unfolding len by (simp add: diff_less_mono2)
    ultimately have "fill_loop px ?i (length ?b) ?b =
        Some (take ?i ?b @ concat (replicate ((length ?b - ?i) div length px) px))"
      using less.hyps [of ?b ?i] less.prems(1) fits len by simp
    moreover have "(length buf - idx) div length px = Suc ((length buf - ?i) div length px)"
      using fits less.prems(1) by (simp add: le_div_geq)
    moreover have "fill_loop px idx (length buf) buf = fill_loop px ?i (length buf) ?b"
      using True le less.prems(1) by (subst fill_loop.simps) (simp add: store_bytes_def)
    ultimately show ?thesis using fits True len by simp
  qed
qed

text \<open>The interface: a fill function with the bytes of a pixel. Filling a buffer that holds a
  whole number of pixels overwrites all of it with that pixel.\<close>

locale pixel_filler =
  fixes fill :: fill_buffer
    and pixel :: "corner \<Rightarrow> u8 \<Rightarrow> u8 list"
    and bytes :: nat
  assumes pixel_length: "length (pixel c grey) = bytes" and bytes_pos: "0 < bytes"
    and fill_eq: "bytes dvd length buf \<Longrightarrow>
      fill c grey buf (length buf) = Some (concat (replicate (length buf div bytes) (pixel c grey)))"
begin

lemma fill_length:
  assumes "bytes dvd length buf" "fill c grey buf (length buf) = Some buf'"
  shows "length buf' = length buf"
  using assms fill_eq [OF assms(1), of c grey] by (auto simp: length_concat pixel_length sum_list_replicate)

lemma refill:
  assumes "bytes dvd length buf" "fill c grey buf (length buf) = Some buf'"
  shows "fill c' grey' buf' (length buf) = fill c' grey' buf (length buf)"
  using fill_eq [of buf c' grey'] fill_eq [of buf' c' grey'] fill_length [OF assms] assms(1) by simp

lemma fill_pixel:
  assumes "bytes dvd length buf" "fill c grey buf (length buf) = Some buf'" "k < length buf div bytes"
  shows "take bytes (drop (k * bytes) buf') = pixel c grey"
proof -
  let ?p = "pixel c grey" and ?n = "length buf div bytes"
  have "replicate ?n ?p = replicate k ?p @ ?p # replicate (?n - Suc k) ?p"
    using assms(3) by (metis add_diff_inverse_nat less_imp_le_nat Suc_diff_Suc leD replicate_Suc replicate_add)
  moreover have "length (concat (replicate k ?p)) = k * bytes"
    by (simp add: length_concat pixel_length sum_list_replicate)
  ultimately show ?thesis
    using assms(2) fill_eq [OF assms(1), of c grey] pixel_length [of c grey] by auto
qed

end

text \<open>The bytes of a pixel, format by format.\<close>

definition argb8888_pixel :: "corner \<Rightarrow> u8 \<Rightarrow> u8 list" where
  "argb8888_pixel c grey = (case c of TOP_LEFT \<Rightarrow> [0, 0, 0xFF, 0] | TOP_RIGHT \<Rightarrow> [0, 0xFF, 0, 0]
     | BOTTOM_RIGHT \<Rightarrow> [0xFF, 0, 0, 0] | BOTTOM_LEFT \<Rightarrow> [grey, grey, grey, 0])"

definition rgb888_pixel :: "corner \<Rightarrow> u8 \<Rightarrow> u8 list" where
  "rgb888_pixel c grey = (case c of TOP_LEFT \<Rightarrow> [0xFF, 0, 0] | TOP_RIGHT \<Rightarrow> [0, 0xFF, 0]
     | BOTTOM_RIGHT \<Rightarrow> [0, 0, 0xFF] | BOTTOM_LEFT \<Rightarrow> [grey, grey, grey])"

definition rgb565_pixel :: "corner \<Rightarrow> u8 \<Rightarrow> u8 list" where
  "rgb565_pixel c grey = (let g = grey AND 0x1F in case c of TOP_LEFT \<Rightarrow> [0xF8, 0] | TOP_RIGHT \<Rightarrow> [0x07, 0xE0]
     | BOTTOM_RIGHT \<Rightarrow> [0, 0x1F]
     | BOTTOM_LEFT \<Rightarrow> [push_bit 3 g OR drop_bit 2 g, push_bit 6 g OR g])"

definition mono_pixel :: "u8 \<Rightarrow> corner \<Rightarrow> u8 \<Rightarrow> u8 list" where
  "mono_pixel black c grey = [if c = BOTTOM_LEFT \<and> odd grey then NOT black else black]"

lemma grey_bytes:
  fixes grey :: u8
  defines "v \<equiv> push_bit 16 (ucast grey) OR push_bit 8 (ucast grey) OR ucast grey :: u32"
  shows "ucast v = grey" "ucast (drop_bit 8 v) = grey" "ucast (drop_bit 16 v) = grey"
    "ucast (drop_bit 24 v) = (0 :: u8)"
  unfolding v_def
  by (rule bit_word_eqI; auto simp: bit_simps dest: bit_imp_le_length)+


lemma grey_bytes_565:
  fixes g :: u8
  defines "v \<equiv> push_bit 11 (ucast g) OR push_bit 6 (ucast g) OR ucast g :: u16"
  shows "ucast (drop_bit 8 v) = push_bit 3 g OR drop_bit 2 g" "ucast v = push_bit 6 g OR g"
  unfolding v_def
  by (rule bit_word_eqI; auto simp: bit_simps dest: bit_imp_le_length)+

lemmas pixel_defs = argb8888_pixel_def rgb888_pixel_def rgb565_pixel_def mono_pixel_def

lemma fill_loop_pixels:
  "length px = n \<Longrightarrow> 0 < n \<Longrightarrow> n dvd length buf \<Longrightarrow>
     fill_loop px 0 (length buf) buf = Some (concat (replicate (length buf div n) px))"
  using fill_loop_eq [of px buf 0] by auto

lemma argb8888_pixel_eq: "le32 (rgb_color c grey) = argb8888_pixel c grey"
  using grey_bytes [of grey] by (simp add: le32_def rgb_color_def pixel_defs split: corner.split)

lemma rgb888_pixel_eq:
  "[ucast (drop_bit 16 (rgb_color c grey)), ucast (drop_bit 8 (rgb_color c grey)), ucast (rgb_color c grey)]
     = rgb888_pixel c grey"
  using grey_bytes [of grey] by (simp add: rgb_color_def pixel_defs split: corner.split)

lemma rgb565_pixel_eq:
  "[ucast (drop_bit 8 (get_rgb565_color c grey)), ucast (get_rgb565_color c grey)] = rgb565_pixel c grey"
  using grey_bytes_565 [of "grey AND 0x1F"]
  by (simp add: get_rgb565_color_def pixel_defs Let_def split: corner.split)

lemma ucast_and_255: "ucast (v AND 0xFF :: u16) = (ucast v :: u8)"
proof -
  have "ucast (v AND mask 8) = (ucast v :: u8)" by (rule bit_word_eqI) (auto simp: bit_simps)
  moreover have "(mask 8 :: u16) = 0xFF" by (simp add: mask_eq_exp_minus_1)
  ultimately show ?thesis by simp
qed

lemma rgb565_pixel_length [simp]: "length (rgb565_pixel c grey) = 2"
  by (simp flip: rgb565_pixel_eq)

interpretation argb8888: pixel_filler fill_buffer_argb8888 argb8888_pixel 4
  by unfold_locales (auto simp: pixel_defs fill_buffer_argb8888_def argb8888_pixel_eq fill_loop_pixels
      split: corner.split)

interpretation rgb888: pixel_filler fill_buffer_rgb888 rgb888_pixel 3
  by unfold_locales (auto simp: pixel_defs fill_buffer_rgb888_def rgb888_pixel_eq Let_def fill_loop_pixels
      split: corner.split)

interpretation rgb565: pixel_filler fill_buffer_rgb565 rgb565_pixel 2
  by unfold_locales (auto simp: pixel_defs fill_buffer_rgb565_def rgb565_pixel_eq Let_def ucast_and_255
      fill_loop_pixels split: corner.split)

interpretation bgr565: pixel_filler fill_buffer_bgr565 "\<lambda>c grey. rev (rgb565_pixel c grey)" 2
  by unfold_locales (auto simp: fill_buffer_bgr565_def rgb565_pixel_eq [symmetric] le16_def fill_loop_pixels)

interpretation mono01: pixel_filler fill_buffer_mono01 "mono_pixel 0" 1
  by unfold_locales (auto simp: pixel_defs fill_buffer_mono01_def fill_buffer_mono_def store_bytes_def
      and_one_eq odd_iff_mod_2_eq_one split: corner.split)

interpretation mono10: pixel_filler fill_buffer_mono10 "mono_pixel 0xFF" 1
  by unfold_locales (auto simp: pixel_defs fill_buffer_mono10_def fill_buffer_mono_def store_bytes_def
      and_one_eq odd_iff_mod_2_eq_one split: corner.split)

definition pixel_of :: "pixel_format \<Rightarrow> corner \<Rightarrow> u8 \<Rightarrow> u8 list" where
  "pixel_of fmt c grey = (case fmt of
     PIXEL_FORMAT_ARGB_8888 \<Rightarrow> argb8888_pixel c grey
   | PIXEL_FORMAT_RGB_888 \<Rightarrow> rgb888_pixel c grey
   | PIXEL_FORMAT_RGB_565 \<Rightarrow> rgb565_pixel c grey
   | PIXEL_FORMAT_BGR_565 \<Rightarrow> rev (rgb565_pixel c grey)
   | PIXEL_FORMAT_MONO01 \<Rightarrow> mono_pixel 0 c grey
   | PIXEL_FORMAT_MONO10 \<Rightarrow> mono_pixel 0xFF c grey
   | PIXEL_FORMAT_OTHER _ \<Rightarrow> [])"

definition filled :: "pixel_format \<Rightarrow> corner \<Rightarrow> u8 \<Rightarrow> nat \<Rightarrow> u8 list" where
  "filled fmt c grey n = concat (replicate (n div length (pixel_of fmt c grey)) (pixel_of fmt c grey))"

lemmas pixel_lengths = argb8888.pixel_length rgb888.pixel_length rgb565.pixel_length
  mono01.pixel_length mono10.pixel_length

lemma fill_filled:
  assumes "format_setup bgr fmt px = Some (bg, fill, n)" "px < 2 ^ 30" "length buf = n"
  shows "fill c grey buf n = Some (filled fmt c grey n)" and "length (filled fmt c grey n) = n"
proof -
  have small: "px * 4 < 2 ^ 32" "px * 3 < 2 ^ 32" "px * 2 < 2 ^ 32" using assms(2) by simp_all
  have n: "size_mult px 4 = px * 4" "size_mult px 3 = px * 3" "size_mult px 2 = px * 2"
    using small by (simp_all add: size_mult_def)
  have dvd: "px * k = length buf \<Longrightarrow> k dvd length buf" for k by (metis dvd_triv_right)
  show "fill c grey buf n = Some (filled fmt c grey n)"
    using assms(1,3) dvd [of 4] dvd [of 3] dvd [of 2] argb8888.fill_eq [of buf c grey] rgb888.fill_eq [of buf c grey] rgb565.fill_eq [of buf c grey]
      bgr565.fill_eq [of buf c grey] mono01.fill_eq [of buf c grey] mono10.fill_eq [of buf c grey]
    by (auto simp: format_setup_def n filled_def pixel_of_def pixel_lengths split: pixel_format.splits if_splits)
  show "length (filled fmt c grey n) = n"
    using assms(1)
    by (auto simp: format_setup_def n filled_def pixel_of_def pixel_lengths length_concat sum_list_replicate
        split: pixel_format.splits if_splits)
qed

text \<open>Filling. For every supported pixel format and every buffer size the main program can
  compute, the selected fill function stays inside the buffer, keeps its size and leaves
  nothing but copies of the pixel of that corner and shade in the byte order of the format.\<close>

theorem fill_writes_pixels:
  assumes "format_setup bgr fmt px = Some (bg, fill, n)" and "px < 2 ^ 30" and "length buf = n"
  shows "\<exists>k. fill c grey buf n = Some (concat (replicate k (pixel_of fmt c grey))) \<and>
     k * length (pixel_of fmt c grey) = n"
proof -
  have "filled fmt c grey n = concat (replicate (n div length (pixel_of fmt c grey)) (pixel_of fmt c grey))"
    by (simp add: filled_def)
  moreover have "n div length (pixel_of fmt c grey) * length (pixel_of fmt c grey) = n"
    using fill_filled(2) [OF assms] by (simp add: filled_def length_concat sum_list_replicate)
  ultimately show ?thesis using fill_filled(1) [OF assms] by metis
qed

theorem fill_writes_pixels_witness:
  "fill_buffer_rgb565 TOP_LEFT 0 [1, 2, 3, 4] 4 = Some [0xF8, 0, 0xF8, 0]"
proof -
  have "format_setup False PIXEL_FORMAT_RGB_565 2 = Some (0xFF, fill_buffer_rgb565, 4)"
    by (simp add: format_setup_def size_mult_def)
  from fill_writes_pixels [OF this, of "[1, 2, 3, 4]" TOP_LEFT 0] obtain k where
    k: "fill_buffer_rgb565 TOP_LEFT 0 [1, 2, 3, 4] 4 = Some (concat (replicate k [0xF8, 0]))" "k + k = 4"
    by (simp add: pixel_of_def rgb565_pixel_def) blast
  then have "k = Suc (Suc 0)" by simp
  with k(1) show ?thesis by simp
qed

section \<open>Geometry\<close>

lemma geometry_bounds:
  assumes "g = display_geometry caps"
  shows "rect_w g \<le> unat (x_resolution caps)" "rect_w g \<le> 26214" "rect_h g \<le> 26214" "h_step g \<le> 13107"
proof -
  have x: "unat (x_resolution caps) < 65536" and y: "unat (y_resolution caps) < 65536"
    by (rule unat_u16_less)+
  have d: "16 * (unat (x_resolution caps) div 8 div 8) \<le> unat (x_resolution caps)"
    "2 * (unat (x_resolution caps) div 8) \<le> unat (x_resolution caps)"
    "8 * (unat (x_resolution caps) div 8 div 8) \<le> 8192" using x by auto
  show "rect_w g \<le> unat (x_resolution caps)" "rect_w g \<le> 26214" "rect_h g \<le> 26214" "h_step g \<le> 13107"
    using x y d by (auto simp: assms display_geometry_def size_mult_def Let_def)
qed

lemma buffer_pixels_eq:
  assumes "g = display_geometry caps"
  shows "buffer_pixels caps g = max (rect_w g * rect_h g) (unat (x_resolution caps) * h_step g)"
    and "buffer_pixels caps g < 2 ^ 30"
proof -
  note b = geometry_bounds [OF assms]
  have "rect_w g * rect_h g \<le> 26214 * 26214" using b(2,3) by (rule mult_le_mono)
  then have 1: "rect_w g * rect_h g < 2 ^ 30" by simp
  have "unat (x_resolution caps) \<le> 65535" using unat_u16_less [of "x_resolution caps"] by simp
  then have "unat (x_resolution caps) * h_step g \<le> 65535 * 13107" using b(4) by (rule mult_le_mono)
  then have 2: "unat (x_resolution caps) * h_step g < 2 ^ 30" by simp
  from 1 2 show "buffer_pixels caps g = max (rect_w g * rect_h g) (unat (x_resolution caps) * h_step g)"
    "buffer_pixels caps g < 2 ^ 30"
    by (simp_all add: buffer_pixels_def size_mult_def Let_def max_def)
qed


section \<open>The background\<close>

text \<open>The strips as first row and height.\<close>

definition strip_rows :: "nat \<Rightarrow> nat \<Rightarrow> (nat \<times> nat) list" where
  "strip_rows y step = map (\<lambda>k. (k * step, min step (y - k * step))) [0..<(y + step - 1) div step]"

lemma strip_count: "0 < step \<Longrightarrow> k < (y + step - 1) div step \<longleftrightarrow> k * step < (y :: nat)"
  by (auto simp: less_eq_div_iff_mult_less_eq Suc_le_eq [symmetric])

lemma strips_eq:
  assumes "0 < step" "y < 2 ^ 16" "k \<le> (y + step - 1) div step" "desc_height d = step mod 2 ^ 16"
    and "step < 2 ^ 16"
  shows "strips y step buf (k * step) d cs =
    Some (rev (map (\<lambda>k. Display_write 0 (k * step) (d\<lparr>desc_height := min step (y - k * step)\<rparr>) buf)
      [k..<(y + step - 1) div step]) @ cs)"
  using assms(3,4)
proof (induction "(y + step - 1) div step - k" arbitrary: k d cs)
  case 0
  then have "\<not> k < (y + step - 1) div step" by simp
  then have "\<not> k * step < y" using strip_count [OF assms(1)] by blast
  then show ?case using 0 by (subst strips.simps) simp
next
  case (Suc m)
  let ?n = "(y + step - 1) div step"
  have k: "k < ?n" using Suc(2) by simp
  then have less: "k * step < y" using strip_count [OF assms(1)] by simp
  let ?d = "if y - k * step < step then d\<lparr>desc_height := (y - k * step) mod 2 ^ 16\<rparr> else d"
  have d: "?d = d\<lparr>desc_height := min step (y - k * step)\<rparr>"
    using Suc.prems(2) assms(2,5) by (auto simp: min_def)
  have step: "strips y step buf (k * step) d cs = strips y step buf (Suc k * step) ?d
      (Display_write 0 (k * step) ?d buf # cs)"
    using less assms(2) by (subst strips.simps) (simp add: display_write_def Let_def add.commute)
  show ?case
  proof (cases "y - k * step < step")
    case True
    then have "\<not> Suc k < ?n" using strip_count [OF assms(1), of "Suc k" y] by auto
    then have "Suc k = ?n" using k by simp
    moreover have "\<not> Suc k * step < y" using True by auto
    ultimately show ?thesis using d k unfolding step by (subst strips.simps) (simp add: upt_rec)
  next
    case False
    then have "?d = d" by simp
    moreover have "m = ?n - Suc k" "Suc k \<le> ?n" using Suc(2) k by simp_all
    ultimately show ?thesis
      using Suc(1) [of "Suc k" ?d] d k Suc.prems(2) unfolding step by (simp add: upt_rec [of k])
  qed
qed

lemma strip_rows_tile:
  assumes "0 < step"
  shows "concat (map (\<lambda>(r, h). [r..<r + h]) (strip_rows y step)) = [0..<y]"
proof -
  let ?n = "(y + step - 1) div step"
  have "concat (map (\<lambda>k. [k * step..<k * step + min step (y - k * step)]) [0..<m]) = [0..<min (m * step) y]"
    if "m \<le> ?n" for m
    using that
  proof (induction m)
    case (Suc m)
    then have "m * step < y" using strip_count [OF assms, of m y] by simp
    moreover from this have "m * step + min step (y - m * step) = min (Suc m * step) y" by auto
    ultimately show ?case using Suc upt_add_eq_append [of 0 "m * step" "min step (y - m * step)"] by simp
  qed simp
  note this [of ?n]
  moreover have "\<not> ?n * step < y" using strip_count [OF assms, of ?n y] by simp
  ultimately show ?thesis by (simp add: strip_rows_def comp_def)
qed


section \<open>The whole program\<close>

definition grey_rounds :: "bool \<Rightarrow> nat \<Rightarrow> nat" where
  "grey_rounds test rounds = (if test then min rounds 1024 else rounds)"

definition grey_calls :: "pixel_format \<Rightarrow> nat \<Rightarrow> nat \<Rightarrow> nat \<Rightarrow> buf_desc \<Rightarrow> nat \<Rightarrow> display_call list" where
  "grey_calls fmt n sleep y d i = [display_write 0 y d (filled fmt BOTTOM_LEFT (of_nat i) n), Msleep sleep]"

lemma of_nat_mod_u8: "of_nat (c mod 2 ^ 32) = (of_nat c :: u8)"
proof -
  have "c mod 2 ^ 32 mod 2 ^ 8 = c mod (2 ^ 8 :: nat)" by (simp add: mod_mod_cancel)
  then show ?thesis by (simp add: word_of_nat_eq_iff take_bit_eq_mod)
qed

lemma grey_loop_eq:
  assumes "\<And>buf c grey. length buf = n \<Longrightarrow> fill c grey buf n = Some (filled fmt c grey n)"
    and "\<And>c grey. length (filled fmt c grey n) = n"
    and "desc_buf_size d = n" "length buf = n" "\<not> test \<or> c < 1024"
  shows "grey_loop test fill sleep y d rounds (c mod 2 ^ 32) buf cs =
    Drawn (rev (concat (map (grey_calls fmt n sleep y d) [c..<(if test then min (c + rounds) 1024 else c + rounds)])) @ cs)"
  using assms(4,5)
proof (induction rounds arbitrary: c buf cs)
  case 0
  then show ?case by (auto simp: min_def)
next
  case (Suc rounds)
  let ?b = "filled fmt BOTTOM_LEFT (of_nat c) n"
  let ?cs = "rev (grey_calls fmt n sleep y d c) @ cs"
  let ?stop = "\<lambda>m. if test then min m 1024 else m"
  have inc: "(c mod 2 ^ 32 + 1) mod 2 ^ 32 = Suc c mod 2 ^ 32" by (simp add: mod_Suc_eq)
  have fill: "fill BOTTOM_LEFT (of_nat (c mod 2 ^ 32)) buf (desc_buf_size d) = Some ?b"
    using assms(1) [OF Suc.prems(1)] assms(3) by (simp only: of_nat_mod_u8)
  have body: "grey_loop test fill sleep y d (Suc rounds) (c mod 2 ^ 32) buf cs =
      (if test \<and> 1024 \<le> Suc c mod 2 ^ 32 then Drawn ?cs
       else grey_loop test fill sleep y d rounds (Suc c mod 2 ^ 32) ?b ?cs)"
    by (simp only: grey_loop.simps fill option.case Let_def inc grey_calls_def) simp
  show ?case
  proof (cases "test \<and> 1024 \<le> Suc c mod 2 ^ 32")
    case True
    then have "c = 1023" using Suc.prems(2) by (cases "c = 1023") auto
    then show ?thesis unfolding body using True by (simp add: upt_rec)
  next
    case False
    then have "\<not> test \<or> Suc c < 1024" using Suc.prems(2) by auto
    note rest = Suc.IH [OF assms(2) this, of BOTTOM_LEFT "of_nat c" ?cs]
    have "[c..<?stop (c + Suc rounds)] = c # [Suc c..<?stop (Suc c + rounds)]"
      using Suc.prems(2) by (auto simp: upt_conv_Cons)
    then show ?thesis unfolding body if_not_P [OF False] rest by simp
  qed
qed

definition strip_desc :: "display_capabilities \<Rightarrow> nat \<Rightarrow> nat \<Rightarrow> buf_desc" where
  "strip_desc caps n h = make_desc n (unat (x_resolution caps)) h"

lemma strips_main:
  assumes "g = display_geometry caps" "0 < h_step g" "y = unat (y_resolution caps)"
  shows "strips y (h_step g) buf 0 (make_desc n (unat (x_resolution caps)) (h_step g)) [] =
    Some (rev (map (\<lambda>(r, h). Display_write 0 r (strip_desc caps n h) buf) (strip_rows y (h_step g))))"
proof -
  have y: "y < 2 ^ 16" using unat_u16_less [of "y_resolution caps"] assms(3) by simp
  have step: "h_step g < 2 ^ 16" using geometry_bounds(4) [OF assms(1)] by simp
  let ?d = "make_desc n (unat (x_resolution caps)) (h_step g)"
  have "?d\<lparr>desc_height := min (h_step g) (y - k * h_step g)\<rparr> = strip_desc caps n (min (h_step g) (y - k * h_step g))" for k
    using step by (simp add: make_desc_def strip_desc_def)
  then show ?thesis
    using strips_eq [OF assms(2) y, of 0 ?d buf "[]"] step by (simp add: strip_rows_def make_desc_def)
qed

lemma main_calls:
  assumes "g = display_geometry caps" and "0 < h_step g" and "malloc_ok n"
    and "fmt = current_pixel_format caps"
    and "format_setup bgr fmt (buffer_pixels caps g) = Some (bg, fill, n)"
    and "x = unat (x_resolution caps)" and "y = unat (y_resolution caps)"
    and "rect = make_desc n (rect_w g) (rect_h g)"
  shows "display_main True bgr test malloc_ok caps rounds = Drawn (rev (
    map (\<lambda>(r, h). Display_write 0 r (strip_desc caps n h) (replicate n bg)) (strip_rows y (h_step g)) @
    [display_write (size_minus x (rect_w g)) (size_minus y (rect_h g)) rect (filled fmt BOTTOM_RIGHT 0 n),
     Blanking_off] @
    concat (map (grey_calls fmt n (if epd caps then 10000 else 100) (size_minus y (rect_h g)) rect)
      [0..<grey_rounds test rounds])))"
proof -
  note fills = fill_filled [OF assms(5) buffer_pixels_eq(2) [OF assms(1)]]
  have "desc_buf_size rect = n" by (simp add: assms(8) make_desc_def)
  then have grey: "grey_loop test fill sleep y' rect rounds 0 (filled fmt BOTTOM_RIGHT 0 n) cs =
      Drawn (rev (concat (map (grey_calls fmt n sleep y' rect) [0..<grey_rounds test rounds])) @ cs)" for sleep y' cs
    using grey_loop_eq [of n fill fmt rect "filled fmt BOTTOM_RIGHT 0 n" test 0 sleep y' rounds cs]
      fills(1) fills(2) [OF length_replicate] by (simp add: grey_rounds_def)
  have len: "length (filled fmt BOTTOM_RIGHT 0 n) = n" by (rule fills(2) [OF length_replicate])
  show ?thesis
    using assms(3,5) strips_main [OF assms(1,2,7), of "replicate n bg" n] len
    by (simp add: display_main_def Let_def assms(1,4) [symmetric] assms(6,7) [symmetric] assms(8) [symmetric]
        fills(1) grey)
qed

text \<open>C26: the whole run. On a display that is ready, with a supported format, enough memory and a
  strip height that is not zero, the program never leaves its buffer and makes exactly these
  calls: the background strips, the blue rectangle at the bottom right, blanking off, and then
  in each round the grey rectangle at the bottom left with the next shade and the pause; the
  test build stops after 1024 rounds.\<close>

theorem display_main_calls:
  assumes "g = display_geometry caps" and "0 < h_step g" and "malloc_ok n"
    and "fmt = current_pixel_format caps"
    and "format_setup bgr fmt (buffer_pixels caps g) = Some (bg, fill, n)"
    and "x = unat (x_resolution caps)" and "y = unat (y_resolution caps)"
    and "rect = make_desc n (rect_w g) (rect_h g)"
  shows "display_main True bgr test malloc_ok caps rounds = Drawn (rev (
    map (\<lambda>(r, h). Display_write 0 r (strip_desc caps n h) (replicate n bg)) (strip_rows y (h_step g)) @
    [display_write (size_minus x (rect_w g)) (size_minus y (rect_h g)) rect (filled fmt BOTTOM_RIGHT 0 n),
     Blanking_off] @
    concat (map (grey_calls fmt n (if epd caps then 10000 else 100) (size_minus y (rect_h g)) rect)
      [0..<grey_rounds test rounds])))"
  using assms by (rule main_calls)

text \<open>A small monochrome panel, for the witnesses.\<close>

definition panel :: "nat \<Rightarrow> nat \<Rightarrow> display_capabilities" where
  "panel x y = \<lparr>x_resolution = of_nat x, y_resolution = of_nat y, mono_vtiled = False, epd = False,
     current_pixel_format = PIXEL_FORMAT_MONO01\<rparr>"

theorem display_main_calls_witness:
  "\<exists>cs. display_main True False True (\<lambda>_. True) (panel 8 8) 5000 = Drawn cs \<and> length cs = 8 + 2 + 2 * 1024"
proof -
  let ?g = "\<lparr>rect_w = 2, rect_h = 1, h_step = 1\<rparr>"
  have g: "?g = display_geometry (panel 8 8)" by (simp add: display_geometry_def panel_def size_mult_def)
  have f: "format_setup False PIXEL_FORMAT_MONO01 (buffer_pixels (panel 8 8) ?g)
      = Some (0xFF, fill_buffer_mono01, 1)"
    by (simp add: format_setup_def buffer_pixels_def panel_def size_mult_def)
  have fmt: "PIXEL_FORMAT_MONO01 = current_pixel_format (panel 8 8)" by (simp add: panel_def)
  note main = display_main_calls [OF g _ _ fmt f refl refl refl, of "\<lambda>_. True" True 5000]
  have "length (concat (map (grey_calls f k sl y d) xs)) = 2 * length xs" for f k sl y d xs
    by (induction xs) (simp_all add: grey_calls_def)
  with main show ?thesis by (simp add: strip_rows_def grey_rounds_def panel_def del: upt_Suc)
qed

section \<open>Where the calls draw\<close>

text \<open>How many pixels a buffer of \<open>n\<close> bytes holds.\<close>

definition capacity :: "pixel_format \<Rightarrow> nat \<Rightarrow> nat" where
  "capacity fmt n = (case fmt of
     PIXEL_FORMAT_ARGB_8888 \<Rightarrow> n div 4
   | PIXEL_FORMAT_RGB_888 \<Rightarrow> n div 3
   | PIXEL_FORMAT_RGB_565 \<Rightarrow> n div 2
   | PIXEL_FORMAT_BGR_565 \<Rightarrow> n div 2
   | PIXEL_FORMAT_MONO01 \<Rightarrow> 8 * n
   | PIXEL_FORMAT_MONO10 \<Rightarrow> 8 * n
   | PIXEL_FORMAT_OTHER _ \<Rightarrow> 0)"

lemma buffer_holds:
  assumes "format_setup bgr fmt px = Some (bg, fill, n)" "px < 2 ^ 30"
  shows "px \<le> capacity fmt n"
proof -
  have "size_mult px 4 = px * 4" "size_mult px 3 = px * 3" "size_mult px 2 = px * 2"
    "(px + 7) mod 2 ^ 32 = px + 7" "px \<le> 8 * ((px + 7) div 8)"
    using assms(2) by (simp_all add: size_mult_def)
  then show ?thesis
    using assms(1) by (auto simp: format_setup_def capacity_def split: pixel_format.splits if_splits)
qed

lemma size_minus_le: "b \<le> a \<Longrightarrow> a < 2 ^ 32 \<Longrightarrow> size_minus a b = a - b"
proof -
  assume "b \<le> a" "a < 2 ^ 32"
  then have eq: "a + 2 ^ 32 - b = (a - b) + 2 ^ 32" and less: "a - b < 2 ^ 32" by simp_all
  show ?thesis unfolding size_minus_def eq mod_add_self2 using less by (rule mod_less)
qed

lemma size_mult_le: "a * b \<le> c \<Longrightarrow> size_mult a b \<le> c"
  unfolding size_mult_def by (rule order_trans [OF mod_less_eq_dividend])

lemma rect_height:
  assumes "g = display_geometry caps" "unat (x_resolution caps) \<le> 8 * unat (y_resolution caps) + 7"
  shows "rect_h g \<le> unat (y_resolution caps)"
proof -
  have "unat (x_resolution caps) div 8 \<le> unat (y_resolution caps)" using assms(2) by simp
  moreover have "8 * (unat (x_resolution caps) div 8 div 8) \<le> unat (x_resolution caps) div 8" by simp
  ultimately show ?thesis
    using assms(1) by (auto simp: display_geometry_def Let_def intro!: size_mult_le)
qed

text \<open>C27: nothing is drawn outside of the display, and no call reads past the buffer, on
  displays whose width is at most eight times the height (rounded up): the strips tile the
  rows from top to bottom, each row exactly once; the two rectangles end at the right
  edge respectively start at the left one and end at the last row; and the buffer holds as many
  pixels as each strip and each rectangle needs.\<close>

theorem drawing_fits:
  assumes "g = display_geometry caps" and "0 < h_step g"
    and "x = unat (x_resolution caps)" and "y = unat (y_resolution caps)" and "x \<le> 8 * y + 7"
    and "format_setup bgr fmt (buffer_pixels caps g) = Some (bg, fill, n)"
  shows "concat (map (\<lambda>(r, h). [r..<r + h]) (strip_rows y (h_step g))) = [0..<y] \<and>
    (\<forall>(r, h) \<in> set (strip_rows y (h_step g)). x * h \<le> capacity fmt n) \<and>
    size_minus x (rect_w g) + rect_w g = x \<and> size_minus y (rect_h g) + rect_h g = y \<and>
    rect_w g * rect_h g \<le> capacity fmt n"
proof -
  note px = buffer_pixels_eq [OF assms(1)]
  have cap: "buffer_pixels caps g \<le> capacity fmt n" by (rule buffer_holds [OF assms(6) px(2)])
  have "x * h \<le> capacity fmt n" if "h \<le> h_step g" for h
  proof -
    have "x * h \<le> x * h_step g" using that by simp
    also have "\<dots> \<le> buffer_pixels caps g" by (simp add: px(1) assms(3))
    finally show ?thesis using cap by simp
  qed
  then have "\<forall>(r, h) \<in> set (strip_rows y (h_step g)). x * h \<le> capacity fmt n"
    by (auto simp: strip_rows_def)
  moreover have "x < 2 ^ 32" "y < 2 ^ 32"
    using unat_u16_less [of "x_resolution caps"] unat_u16_less [of "y_resolution caps"] assms(3,4) by simp_all
  moreover have "rect_w g \<le> x" "rect_h g \<le> y"
    using geometry_bounds(1) [OF assms(1)] rect_height [OF assms(1)] assms(3-5) by simp_all
  ultimately show ?thesis
    using strip_rows_tile [OF assms(2), of y] cap px(1) by (simp add: size_minus_le)
qed

theorem drawing_fits_witness:
  "concat (map (\<lambda>(r, h). [r..<r + h]) (strip_rows 8 1)) = [0..<8] \<and> size_minus 8 2 + 2 = 8"
proof -
  let ?g = "\<lparr>rect_w = 2, rect_h = 1, h_step = 1\<rparr>"
  have g: "?g = display_geometry (panel 8 8)" by (simp add: display_geometry_def panel_def size_mult_def)
  have f: "format_setup False PIXEL_FORMAT_MONO01 (buffer_pixels (panel 8 8) ?g)
      = Some (0xFF, fill_buffer_mono01, 1)"
    by (simp add: format_setup_def buffer_pixels_def panel_def size_mult_def)
  from drawing_fits [OF g _ refl refl _ f] show ?thesis by (simp add: panel_def)
qed


section \<open>Displays that are too wide or too low\<close>

lemma wide_geometry:
  assumes "\<not> mono_vtiled caps" "3 \<le> unat (y_resolution caps)"
    and "8 * unat (y_resolution caps) + 8 \<le> unat (x_resolution caps)"
  shows "display_geometry caps = \<lparr>rect_w = 2 * (unat (x_resolution caps) div 8),
     rect_h = unat (x_resolution caps) div 8, h_step = 1\<rparr>"
  using assms unat_u16_less [of "x_resolution caps"]
  by (simp add: display_geometry_def size_mult_def Let_def)

lemma row_wraps:
  assumes "y < h" "h < 2 ^ 16" "y < 2 ^ 16"
  shows "size_minus y h mod 2 ^ 16 = 2 ^ 16 - (h - y)"
proof -
  obtain r where r: "r = 2 ^ 16 - (h - y)" by blast
  then have "r < 2 ^ 16" "y + 2 ^ 32 - h = r + 65535 * 2 ^ 16" using assms by simp_all
  then have eq: "size_minus y h = r + 65535 * 2 ^ 16" by (simp add: size_minus_def)
  have "size_minus y h mod 2 ^ 16 = r" unfolding eq mod_mult_self1 using \<open>r < 2 ^ 16\<close> by (rule mod_less)
  then show ?thesis unfolding r .
qed

text \<open>On a display that is more than eight times as wide as high, the height of the
  rectangles, an eighth of the width, exceeds the number of rows; the subtraction wraps and
  the rectangle is written far below the last row.\<close>

theorem wide_display_draws_outside:
  assumes "\<not> mono_vtiled caps" and "3 \<le> unat (y_resolution caps)"
    and "8 * unat (y_resolution caps) + 8 \<le> unat (x_resolution caps)"
    and "format_setup bgr (current_pixel_format caps) (buffer_pixels caps (display_geometry caps)) = Some (bg, fill, n)"
    and "malloc_ok n"
  shows "\<exists>cs col row d buf. display_main True bgr test malloc_ok caps rounds = Drawn cs \<and>
    Display_write col row d buf \<in> set cs \<and> row = 2 ^ 16 - (unat (x_resolution caps) div 8 - unat (y_resolution caps)) \<and>
    unat (y_resolution caps) < row"
proof -
  let ?y = "unat (y_resolution caps)" and ?h = "unat (x_resolution caps) div 8"
  obtain g where g: "g = display_geometry caps" "rect_h g = ?h" "h_step g = 1"
    using wide_geometry [OF assms(1-3)] by simp
  have h: "?y < ?h" "?h < 2 ^ 16" "?y < 2 ^ 16" using assms(3) unat_u16_less [of "x_resolution caps"] by simp_all
  have row: "size_minus ?y ?h mod 2 ^ 16 = 2 ^ 16 - (?h - ?y)" by (rule row_wraps [OF h])
  have "?y < 2 ^ 16 - (?h - ?y)" using h unat_u16_less [of "x_resolution caps"] by simp
  moreover have step: "0 < h_step g" using g(3) by simp
  note main = main_calls [where malloc_ok = malloc_ok, OF g(1) step assms(5) refl assms(4) [folded g(1)] refl refl refl]
  ultimately show ?thesis
    unfolding main g(2) by (auto simp: display_write_def row simp del: power_numeral)
qed

theorem wide_display_draws_outside_witness:
  "\<exists>cs col row d buf. display_main True False False (\<lambda>_. True) (panel 128 8) 3 = Drawn cs \<and>
     Display_write col row d buf \<in> set cs \<and> row = 65528"
proof -
  have "format_setup False PIXEL_FORMAT_MONO01 (buffer_pixels (panel 128 8) (display_geometry (panel 128 8)))
      = Some (0xFF, fill_buffer_mono01, 64)"
    by (simp add: format_setup_def buffer_pixels_def panel_def size_mult_def display_geometry_def)
  then show ?thesis
    using wide_display_draws_outside [where caps = "panel 128 8" and bgr = False and n = 64 and malloc_ok = "\<lambda>_. True"]
    by (simp add: panel_def)
qed

lemma strips_stuck:
  assumes "strips y step buf idx d cs = Some r"
  shows "step \<noteq> 0 \<or> y \<le> idx"
  by (rule strips.raw_induct [OF _ assms]) (fastforce simp: Let_def split: if_splits)

text \<open>C40: on a display with fewer than five rows whose height or width is too small for the
  usual rectangles, the strip height, a fifth of the rows, is zero, and the loop over the strips
  never ends.\<close>

theorem low_display_never_finishes:
  assumes "0 < unat (y_resolution caps)" and "unat (y_resolution caps) < 5"
    and "mono_vtiled caps \<or> unat (y_resolution caps) < 3 \<or> unat (x_resolution caps) < 8"
    and "format_setup bgr (current_pixel_format caps) (buffer_pixels caps (display_geometry caps)) = Some (bg, fill, n)"
    and "malloc_ok n"
  shows "display_main True bgr test malloc_ok caps rounds = Stuck"
proof -
  have "h_step (display_geometry caps) = 0"
    using assms(1-3) by (auto simp: display_geometry_def Let_def)
  then have "strips (unat (y_resolution caps)) (h_step (display_geometry caps)) b 0 d [] = None" for b d
    using strips_stuck [of "unat (y_resolution caps)" 0 b 0 d "[]"] assms(1) by fastforce
  then show ?thesis
    using assms(4,5) by (simp add: display_main_def Let_def)
qed

theorem low_display_never_finishes_witness:
  "display_main True False False (\<lambda>_. True) (panel 5 4) 3 = Stuck"
proof -
  have "format_setup False PIXEL_FORMAT_MONO01 (buffer_pixels (panel 5 4) (display_geometry (panel 5 4)))
      = Some (0xFF, fill_buffer_mono01, 1)"
    by (simp add: format_setup_def buffer_pixels_def panel_def size_mult_def display_geometry_def)
  then show ?thesis
    using low_display_never_finishes [where caps = "panel 5 4" and bgr = False and n = 1 and malloc_ok = "\<lambda>_. True"]
    by (simp add: panel_def)
qed


end
