(* ===== verification/Synchronization.thy ===== *)
theory Synchronization
  imports CanTypes
begin

text \<open>
  The synchronization demo, \<^verbatim>\<open>app/demos/synchronization/src/main.c\<close>: two threads that pass the
  turn to each other with two semaphores.

  The state has a program counter for each thread, the two semaphores, the progress of \<^verbatim>\<open>main\<close>
  and the greetings printed so far, newest first. \<open>hello_step\<close> is one step of \<^verbatim>\<open>hello_loop\<close> for a
  thread, \<open>None\<close> while the thread is blocked on its semaphore; \<open>sync_next\<close> interleaves the steps
  of the two threads and of \<^verbatim>\<open>main\<close> in every order, one kernel call at a time. The semaphore is
  the parameter \<open>sem_api\<close> with its contract; the processor a thread runs on is arbitrary in each
  step, and \<open>names\<close> is what \<^verbatim>\<open>k_thread_name_get\<close> returns (\<open>None\<close> for \<^verbatim>\<open>NULL\<close>).
\<close>

datatype tid = Thread_a | Thread_b

datatype hello_pc = At_take | At_print | At_busy_wait | At_msleep | At_give

datatype main_pc = Main_create | Main_name | Main_pin_a | Main_suspend_b | Main_pin_b | Main_resume_b
  | Main_start | Main_done

record 's sync =
  pc :: "tid \<Rightarrow> hello_pc"
  sem :: "tid \<Rightarrow> 's"
  a_started :: bool
  b_suspended :: bool
  main_at :: main_pc
  greetings :: "(string \<times> nat) list"

text \<open>\<^verbatim>\<open>K_SEM_DEFINE\<close> creates the two semaphores with the counts 1 and 0; thread b starts at once,
  thread a when \<^verbatim>\<open>main\<close> starts it.\<close>

definition sync_init :: "'s \<Rightarrow> 's \<Rightarrow> 's sync" where
  "sync_init one zero = \<lparr>pc = (\<lambda>_. At_take), sem = (\<lambda>t. if t = Thread_a then one else zero),
     a_started = False, b_suspended = False, main_at = Main_create, greetings = []\<rparr>"

definition other :: "tid \<Rightarrow> tid" where
  "other t = (case t of Thread_a \<Rightarrow> Thread_b | Thread_b \<Rightarrow> Thread_a)"

definition entry_name :: "tid \<Rightarrow> string" where
  "entry_name t = (case t of Thread_a \<Rightarrow> ''thread_a_entry_point'' | Thread_b \<Rightarrow> ''thread_b_entry_point'')"

definition greeting_name :: "(tid \<Rightarrow> string option) \<Rightarrow> tid \<Rightarrow> string" where
  "greeting_name names t = (case names t of None \<Rightarrow> entry_name t | Some tname \<Rightarrow> tname)"

definition goto :: "tid \<Rightarrow> hello_pc \<Rightarrow> 's sync \<Rightarrow> 's sync" where
  "goto t l s = s\<lparr>pc := (pc s)(t := l)\<rparr>"

definition hello_step ::
  "'s sem_api \<Rightarrow> (tid \<Rightarrow> string option) \<Rightarrow> nat \<Rightarrow> tid \<Rightarrow> 's sync \<Rightarrow> 's sync option" where
  "hello_step api names cpu t s = (case pc s t of
     At_take \<Rightarrow> (let (ret, x) = k_sem_take api (sem s t)
                in if ret = 0 then Some (goto t At_print (s\<lparr>sem := (sem s)(t := x)\<rparr>)) else None)
   | At_print \<Rightarrow> Some (goto t At_busy_wait (s\<lparr>greetings := (greeting_name names t, cpu) # greetings s\<rparr>))
   | At_busy_wait \<Rightarrow> Some (goto t At_msleep s)
   | At_msleep \<Rightarrow> Some (goto t At_give s)
   | At_give \<Rightarrow> Some (goto t At_take
       (s\<lparr>sem := (sem s)(other t := k_sem_give api (sem s (other t)))\<rparr>)))"

text \<open>\<^verbatim>\<open>main\<close>; \<open>pin\<close> says whether the build pins threads and there is more than one processor.\<close>

definition main_step :: "bool \<Rightarrow> 's sync \<Rightarrow> 's sync" where
  "main_step pin s = (case main_at s of
     Main_create \<Rightarrow> s\<lparr>main_at := Main_name\<rparr>
   | Main_name \<Rightarrow> s\<lparr>main_at := if pin then Main_pin_a else Main_start\<rparr>
   | Main_pin_a \<Rightarrow> s\<lparr>main_at := Main_suspend_b\<rparr>
   | Main_suspend_b \<Rightarrow> s\<lparr>main_at := Main_pin_b, b_suspended := True\<rparr>
   | Main_pin_b \<Rightarrow> s\<lparr>main_at := Main_resume_b\<rparr>
   | Main_resume_b \<Rightarrow> s\<lparr>main_at := Main_start, b_suspended := False\<rparr>
   | Main_start \<Rightarrow> s\<lparr>main_at := Main_done, a_started := True\<rparr>
   | Main_done \<Rightarrow> s)"

definition runnable :: "tid \<Rightarrow> 's sync \<Rightarrow> bool" where
  "runnable t s = (case t of Thread_a \<Rightarrow> a_started s | Thread_b \<Rightarrow> \<not> b_suspended s)"

inductive sync_next :: "'s sem_api \<Rightarrow> (tid \<Rightarrow> string option) \<Rightarrow> bool \<Rightarrow> 's sync \<Rightarrow> 's sync \<Rightarrow> bool"
  for api names pin where
  main: "main_at s \<noteq> Main_done \<Longrightarrow> sync_next api names pin s (main_step pin s)"
| thread: "runnable t s \<Longrightarrow> hello_step api names cpu t s = Some s' \<Longrightarrow> sync_next api names pin s s'"

inductive_cases sync_nextE: "sync_next api names pin s s'"

inductive sync_reachable ::
  "'s sem_api \<Rightarrow> (tid \<Rightarrow> string option) \<Rightarrow> bool \<Rightarrow> 's \<Rightarrow> 's \<Rightarrow> 's sync \<Rightarrow> bool"
  for api names pin one zero where
  init: "sync_reachable api names pin one zero (sync_init one zero)"
| step: "sync_reachable api names pin one zero s \<Longrightarrow> sync_next api names pin s s' \<Longrightarrow>
    sync_reachable api names pin one zero s'"

section \<open>The invariant\<close>

text \<open>The turn is a token: it is in a semaphore or held by a thread that has taken one.\<close>

definition holds :: "tid \<Rightarrow> 's sync \<Rightarrow> nat" where
  "holds t s = (if pc s t = At_take then 0 else 1)"

definition turn :: "('s \<Rightarrow> nat) \<Rightarrow> tid \<Rightarrow> 's sync \<Rightarrow> bool" where
  "turn count t s \<longleftrightarrow> 0 < count (sem s t) \<or> pc s t = At_print \<or>
     pc s (other t) \<in> {At_busy_wait, At_msleep, At_give}"

definition alternating :: "(tid \<Rightarrow> string option) \<Rightarrow> nat \<Rightarrow> string list" where
  "alternating names n = map (\<lambda>i. greeting_name names (if even i then Thread_a else Thread_b)) [0..<n]"

definition sync_inv :: "('s \<Rightarrow> nat) \<Rightarrow> (tid \<Rightarrow> string option) \<Rightarrow> 's sync \<Rightarrow> bool" where
  "sync_inv count names s \<longleftrightarrow>
     count (sem s Thread_a) + count (sem s Thread_b) + holds Thread_a s + holds Thread_b s = 1 \<and>
     (turn count Thread_a s \<longleftrightarrow> even (length (greetings s))) \<and>
     map fst (rev (greetings s)) = alternating names (length (greetings s)) \<and>
     (main_at s = Main_done \<longrightarrow> a_started s) \<and>
     (b_suspended s \<longleftrightarrow> main_at s \<in> {Main_pin_b, Main_resume_b})"

lemma other_simps [simp]: "other Thread_a = Thread_b" "other Thread_b = Thread_a"
  by (simp_all add: other_def)

lemma init_inv:
  assumes "count one = 1" "count zero = 0"
  shows "sync_inv count names (sync_init one zero)"
  using assms by (simp add: sync_inv_def sync_init_def holds_def turn_def alternating_def)

lemma main_inv: "sync_inv count names s \<Longrightarrow> main_at s \<noteq> Main_done \<Longrightarrow> sync_inv count names (main_step pin s)"
  by (cases "main_at s") (auto simp: sync_inv_def main_step_def holds_def turn_def)

lemma turn_b:
  assumes "count (sem s Thread_a) + count (sem s Thread_b) + holds Thread_a s + holds Thread_b s = 1"
  shows "turn count Thread_b s \<longleftrightarrow> \<not> turn count Thread_a s"
  using assms by (cases "pc s Thread_a"; cases "pc s Thread_b") (auto simp: holds_def turn_def)

definition token :: "('s \<Rightarrow> nat) \<Rightarrow> 's sync \<Rightarrow> nat" where
  "token count s = count (sem s Thread_a) + count (sem s Thread_b) + holds Thread_a s + holds Thread_b s"

lemma token_holder:
  assumes "token count s = 1" "pc s t \<noteq> At_take"
  shows "count (sem s t) = 0" "count (sem s (other t)) = 0" "pc s (other t) = At_take"
  using assms by (cases t; auto simp: token_def holds_def split: if_splits)+

lemma token_available:
  assumes "token count s = 1" "0 < count (sem s t)"
  shows "count (sem s t) = 1" "count (sem s (other t)) = 0" "pc s t = At_take" "pc s (other t) = At_take"
  using assms by (cases t; auto simp: token_def holds_def split: if_splits)+

text \<open>The five steps of a thread, with what the token says about the rest of the state.\<close>

lemma hello_cases:
  assumes c: "k_sem_contract api count 1" and tok: "token count s = 1"
    and step: "hello_step api names cpu t s = Some s'"
  obtains (Take) "pc s t = At_take" "pc s (other t) = At_take" "count (sem s t) = 1" "count (sem s (other t)) = 0"
      "s' = goto t At_print (s\<lparr>sem := (sem s)(t := snd (k_sem_take api (sem s t)))\<rparr>)"
      "count (snd (k_sem_take api (sem s t))) = 0"
    | (Print) "pc s t = At_print" "pc s (other t) = At_take" "count (sem s t) = 0" "count (sem s (other t)) = 0"
      "s' = goto t At_busy_wait (s\<lparr>greetings := (greeting_name names t, cpu) # greetings s\<rparr>)"
    | (Pause) l where "pc s t \<in> {At_busy_wait, At_msleep}" "pc s (other t) = At_take" "count (sem s t) = 0"
      "count (sem s (other t)) = 0" "s' = goto t l s"
      "l = (if pc s t = At_busy_wait then At_msleep else At_give)"
    | (Give) "pc s t = At_give" "pc s (other t) = At_take" "count (sem s t) = 0" "count (sem s (other t)) = 0"
      "s' = goto t At_take (s\<lparr>sem := (sem s)(other t := k_sem_give api (sem s (other t)))\<rparr>)"
      "count (k_sem_give api (sem s (other t))) = 1"
proof (cases "pc s t = At_take")
  case True
  then have "fst (k_sem_take api (sem s t)) = 0"
    "s' = goto t At_print (s\<lparr>sem := (sem s)(t := snd (k_sem_take api (sem s t)))\<rparr>)"
    using step by (auto simp: hello_step_def case_prod_beta Let_def split: if_splits)
  with Take True token_available [OF tok] k_sem_take_cases [OF c, of "sem s t"] show ?thesis by simp
next
  case False
  note rest = token_holder [OF tok False]
  show ?thesis
    using step rest False Print Pause Give k_sem_contractD(5) [OF c, of "sem s (other t)"]
    by (cases "pc s t") (auto simp: hello_step_def)
qed

lemma alternating_snoc:
  "alternating names (Suc n) = alternating names n @ [greeting_name names (if even n then Thread_a else Thread_b)]"
  by (simp add: alternating_def)

lemma hello_inv:
  assumes c: "k_sem_contract api count 1" and inv: "sync_inv count names s"
    and step: "hello_step api names cpu t s = Some s'"
  shows "sync_inv count names s'"
proof -
  have tok: "token count s = 1" using inv by (simp add: sync_inv_def token_def)
  show ?thesis
    using c tok step
  proof (cases rule: hello_cases)
    case Print
    then have "turn count t s" by (simp add: turn_def)
    then have "t = (if even (length (greetings s)) then Thread_a else Thread_b)"
      using inv turn_b [of count s] by (cases t) (auto simp: sync_inv_def)
    then show ?thesis using inv Print
      by (cases t) (auto simp: sync_inv_def holds_def turn_def goto_def alternating_snoc split: if_splits)
  qed (use inv in \<open>cases t; auto simp: sync_inv_def holds_def turn_def goto_def\<close>)+
qed

lemma reachable_inv:
  assumes "k_sem_contract api count 1" "count one = 1" "count zero = 0"
    and "sync_reachable api names pin one zero s"
  shows "sync_inv count names s"
  using assms(4)
proof (induction rule: sync_reachable.induct)
  case init
  show ?case by (rule init_inv [of count, OF assms(2,3)])
next
  case (step s s')
  from step.hyps(2) step.IH show ?case
    by (auto elim!: sync_nextE intro: main_inv hello_inv [OF assms(1)])
qed

section \<open>Properties\<close>

text \<open>C11: the threads take turns. In every reachable state of every interleaving, with or without
  pinning, the names printed so far are those of thread a and thread b in strict alternation,
  beginning with thread a, and at most one of the two threads is between its take and its give.\<close>

theorem threads_take_turns:
  assumes "k_sem_contract api count 1" and "count one = 1" and "count zero = 0"
    and "sync_reachable api names pin one zero s"
  shows "map fst (rev (greetings s)) = alternating names (length (greetings s)) \<and>
    (pc s Thread_a = At_take \<or> pc s Thread_b = At_take)"
proof -
  have "sync_inv count names s" by (rule reachable_inv [OF assms])
  then show ?thesis by (auto simp: sync_inv_def holds_def split: if_splits)
qed

lemma nat_sem_1: "k_sem_contract (nat_sem 1) (\<lambda>n. n) 1"
  by (rule nat_sem_contract)

definition no_names :: "tid \<Rightarrow> string option" where
  "no_names t = None"

text \<open>Every state a list of threads can reach from the start, once \<^verbatim>\<open>main\<close> has finished.\<close>

fun schedule :: "tid list \<Rightarrow> nat sync \<Rightarrow> nat sync" where
  "schedule [] s = s"
| "schedule (t # ts) s = (case hello_step (nat_sem 1) no_names 0 t s of None \<Rightarrow> schedule ts s | Some s' \<Rightarrow> schedule ts s')"

definition started :: "nat sync" where
  "started = (sync_init 1 0)\<lparr>main_at := Main_done, a_started := True\<rparr>"

lemma started_reachable: "sync_reachable (nat_sem 1) no_names False 1 0 started"
proof -
  let ?s = "sync_init 1 0 :: nat sync"
  have main: "sync_reachable (nat_sem 1) no_names False 1 0 (main_step False s)"
    if "sync_reachable (nat_sem 1) no_names False 1 0 s" "main_at s \<noteq> Main_done" for s
    using sync_reachable.step [OF that(1) sync_next.main [OF that(2)]] .
  have "sync_reachable (nat_sem 1) no_names False 1 0 (main_step False (main_step False (main_step False ?s)))"
    by (intro main sync_reachable.init) (simp_all add: main_step_def sync_init_def)
  then show ?thesis by (simp add: main_step_def sync_init_def started_def)
qed

lemma hello_runnable: "hello_step api names cpu t s = Some s' \<Longrightarrow> a_started s' = a_started s \<and> b_suspended s' = b_suspended s"
  by (auto simp: hello_step_def goto_def Let_def split: hello_pc.splits prod.splits if_splits)

lemma schedule_reachable:
  "sync_reachable (nat_sem 1) no_names False 1 0 s \<Longrightarrow> a_started s \<Longrightarrow> \<not> b_suspended s \<Longrightarrow>
     sync_reachable (nat_sem 1) no_names False 1 0 (schedule ts s)"
proof (induction ts arbitrary: s)
  case (Cons t ts)
  show ?case
  proof (cases "hello_step (nat_sem 1) no_names 0 t s")
    case (Some s')
    have "runnable t s" using Cons.prems by (simp add: runnable_def split: tid.split)
    then have "sync_reachable (nat_sem 1) no_names False 1 0 s'"
      using Cons.prems(1) Some by (blast intro: sync_reachable.step sync_next.thread)
    with Cons.IH hello_runnable [OF Some] Cons.prems Some show ?thesis by simp
  qed (use Cons in simp)
qed simp

theorem threads_take_turns_witness:
  "map fst (rev (greetings (schedule (replicate 5 Thread_a @ replicate 2 Thread_b) started)))
     = [''thread_a_entry_point'', ''thread_b_entry_point'']"
proof -
  let ?s = "schedule (replicate 5 Thread_a @ replicate 2 Thread_b) started"
  have "sync_reachable (nat_sem 1) no_names False 1 0 ?s"
    by (rule schedule_reachable [OF started_reachable]) (simp_all add: started_def sync_init_def)
  from threads_take_turns [OF nat_sem_1 _ _ this]
  have "map fst (rev (greetings ?s)) = alternating no_names (length (greetings ?s))" by simp
  moreover have "length (greetings ?s) = 2"
    by (simp add: eval_nat_numeral started_def sync_init_def hello_step_def goto_def nat_sem_def)
  ultimately show ?thesis
    by (simp add: alternating_def greeting_name_def no_names_def entry_name_def upt_rec)
qed

text \<open>How many steps the holder of the turn is away from printing.\<close>

definition until_print :: "'s sync \<Rightarrow> nat" where
  "until_print s = (let away = (\<lambda>t. case pc s t of At_take \<Rightarrow> 1 | At_print \<Rightarrow> 0 | At_busy_wait \<Rightarrow> 4
     | At_msleep \<Rightarrow> 3 | At_give \<Rightarrow> 2)
     in if pc s Thread_a = At_take then away Thread_b else away Thread_a)"

text \<open>C15: there is no deadlock and no lost turn. Once \<^verbatim>\<open>main\<close> has finished, exactly one thread can
  move in every reachable state, so a next state exists; and each move either prints the next
  greeting, or brings it one step closer without printing: from any state exactly one greeting
  is printed in each five moves, forever.\<close>

theorem greetings_never_stop:
  assumes "k_sem_contract api count 1" and "count one = 1" and "count zero = 0"
    and "sync_reachable api names pin one zero s" and "main_at s = Main_done"
  shows "(\<exists>!t. hello_step api names cpu t s \<noteq> None) \<and> (\<exists>s'. sync_next api names pin s s') \<and>
    (\<forall>s'. sync_next api names pin s s' \<longrightarrow>
      (if until_print s = 0 then until_print s' = 4 \<and> length (greetings s') = Suc (length (greetings s))
       else until_print s' = until_print s - 1 \<and> greetings s' = greetings s))"
proof -
  have inv: "sync_inv count names s" by (rule reachable_inv [OF assms(1-4)])
  then have tok: "token count s = 1" by (simp add: sync_inv_def token_def)
  have run: "runnable t s" for t using inv assms(5) by (cases t) (auto simp: sync_inv_def runnable_def)
  obtain t where t: "0 < count (sem s t) \<or> pc s t \<noteq> At_take"
  proof (rule ccontr)
    assume "\<not> thesis"
    with that have "\<not> (0 < count (sem s t) \<or> pc s t \<noteq> At_take)" for t by blast
    with tok show False by (simp add: token_def holds_def)
  qed
  have can: "hello_step api names cpu t s \<noteq> None"
    using t k_sem_take_cases(1) [OF assms(1), of "sem s t"] token_available [OF tok, of t]
    by (auto simp: hello_step_def case_prod_beta Let_def split: hello_pc.splits)
  have blocked: "hello_step api names cpu (other t) s = None"
  proof -
    have "pc s (other t) = At_take \<and> count (sem s (other t)) = 0"
      using t token_available [OF tok, of t] token_holder [OF tok, of t] by auto
    then show ?thesis
      using k_sem_take_cases(1) [OF assms(1), of "sem s (other t)"]
      by (simp add: hello_step_def case_prod_beta Let_def)
  qed
  have "u = t \<or> u = other t" for u by (cases u; cases t) auto
  with can blocked have one: "\<exists>!t. hello_step api names cpu t s \<noteq> None" by metis
  have moves: "if until_print s = 0 then until_print s' = 4 \<and> length (greetings s') = Suc (length (greetings s))
       else until_print s' = until_print s - 1 \<and> greetings s' = greetings s"
    if "hello_step api names c u s = Some s'" for c u s'
    using assms(1) tok that
    by (cases rule: hello_cases) (cases u; auto simp: until_print_def goto_def Let_def)+
  from can obtain s' where "hello_step api names cpu t s = Some s'" by blast
  then have "\<exists>s'. sync_next api names pin s s'" using run by (blast intro: sync_next.thread)
  then show ?thesis using one moves assms(5) by (auto elim!: sync_nextE)
qed

theorem greetings_never_stop_witness:
  "\<exists>s'. sync_next (nat_sem 1) no_names False started s'"
proof -
  have "main_at started = Main_done" by (simp add: started_def)
  from greetings_never_stop [OF nat_sem_1 _ _ started_reachable this, of 0] show ?thesis by simp
qed


end
