(* ===== verification/Lan8651.thy ===== *)
theory Lan8651
  imports CanTypes CLib
begin

text \<open>
  The LAN8651 demo, \<^verbatim>\<open>app/demos/ethernet_bridge/lan8651_t1s_demo/src/main.c\<close>: a UDP echo server,
  an optional HTTP status server and a periodic UDP transmitter.

  The record \<open>lan\<close> holds the semaphore \<^verbatim>\<open>ipv4_ready\<close>, where each of the three threads is, the world
  of the network stack and the trace of socket calls, sleeps and log messages, newest first and
  tagged with the thread. The network stack is the record \<open>lan_api\<close>; a socket call takes the
  world and returns its result with the next world. A thread is at the top of one of its loops
  between two steps; \<open>lan_next\<close> runs one thread to the top of a loop again, or delivers a
  management event.
\<close>

section \<open>The network stack and the configuration\<close>

datatype sock_type = SOCK_DGRAM | SOCK_STREAM

record sockaddr_in =
  sin_port :: u16     \<comment> \<open>in network order\<close>
  sin_addr :: u32     \<comment> \<open>in network order\<close>

record if_addr =
  is_used :: bool
  if_address :: u32

record linkaddr =
  ll_len :: nat
  ll_addr :: "u8 list"

datatype net_event =
    NET_EVENT_IF_UP
  | NET_EVENT_IF_DOWN
  | NET_EVENT_ETHERNET_CARRIER_ON
  | NET_EVENT_ETHERNET_CARRIER_OFF
  | NET_EVENT_IPV4_ADDR_ADD
  | NET_EVENT_OTHER nat

text \<open>\<open>net_if_get_config\<close> is \<open>None\<close> for a null pointer; the inner option is the pointer to the
  IPv4 part, whose array of unicast addresses is the list. \<open>zsock_recvfrom\<close> gives the result,
  the bytes it put into the buffer and the peer.\<close>

record ('s, 'w) lan_api = "'s sem_api" +
  net_if_get_config :: "net_if \<Rightarrow> 'w \<Rightarrow> if_addr list option option"
  net_if_get_link_addr :: "net_if \<Rightarrow> 'w \<Rightarrow> linkaddr option"
  net_if_get_default :: "'w \<Rightarrow> net_if"
  ethernet0_iface :: net_if
  is_addr_unspecified :: "u32 \<Rightarrow> bool"
  net_addr_ntop :: "u32 \<Rightarrow> nat \<Rightarrow> string"
  inet_pton :: "string \<Rightarrow> int \<times> u32"
  htons :: "u16 \<Rightarrow> u16"
  ntohs :: "u16 \<Rightarrow> u16"
  htonl :: "u32 \<Rightarrow> u32"
  pointer_text :: "net_if \<Rightarrow> string"
  lan_snprintk :: "nat \<Rightarrow> string \<Rightarrow> int \<times> string"
  k_uptime_get :: "'w \<Rightarrow> u64"
  errno :: "'w \<Rightarrow> int"
  zsock_socket :: "sock_type \<Rightarrow> 'w \<Rightarrow> int \<times> 'w"
  zsock_bind :: "int \<Rightarrow> sockaddr_in \<Rightarrow> 'w \<Rightarrow> int \<times> 'w"
  zsock_listen :: "int \<Rightarrow> nat \<Rightarrow> 'w \<Rightarrow> int \<times> 'w"
  zsock_accept :: "int \<Rightarrow> 'w \<Rightarrow> (int \<times> sockaddr_in) \<times> 'w"
  zsock_recvfrom :: "int \<Rightarrow> nat \<Rightarrow> 'w \<Rightarrow> (int \<times> u8 list \<times> sockaddr_in) \<times> 'w"
  zsock_sendto :: "int \<Rightarrow> int \<Rightarrow> u8 list \<Rightarrow> sockaddr_in \<Rightarrow> 'w \<Rightarrow> int \<times> 'w"
  zsock_recv :: "int \<Rightarrow> nat \<Rightarrow> 'w \<Rightarrow> int \<times> 'w"
  zsock_send :: "int \<Rightarrow> int \<Rightarrow> string \<Rightarrow> 'w \<Rightarrow> int \<times> 'w"
  zsock_close :: "int \<Rightarrow> 'w \<Rightarrow> 'w"
  k_sleep_ms :: "nat \<Rightarrow> 'w \<Rightarrow> 'w"

record lan_config =
  udp_port :: nat
  http_enabled :: bool
  http_port :: nat
  http_max_request :: nat
  tx_port :: nat
  tx_interval_ms :: nat

section \<open>State\<close>

datatype lan_thread = Udp | Http | Main_thread | Mgmt

type_synonym datagram = "int \<times> u8 list \<times> sockaddr_in"

datatype lan_ev =
    Log string
  | Opened int
  | Closed int
  | Received int datagram
  | Sent int datagram int
  | Http_sent int int string
  | Slept nat
  | Callback_added
  | Created lan_thread

datatype udp_pc = Udp_open | Udp_echo int
datatype http_pc = Http_open | Http_accept int
datatype main_pc = Main_start | Main_tx int sockaddr_in u32 | Main_done int

record ('s, 'w) lan =
  ipv4_ready :: 's
  udp_thread :: "udp_pc option"      \<comment> \<open>\<open>None\<close> before the thread is created\<close>
  http_thread :: "http_pc option"
  main_thread :: main_pc
  lan_world :: 'w
  lan_trace :: "(lan_thread \<times> lan_ev) list"

definition lan_init :: "'s \<Rightarrow> 'w \<Rightarrow> ('s, 'w) lan" where
  "lan_init sem w = \<lparr>ipv4_ready = sem, udp_thread = None, http_thread = None,
     main_thread = Main_start, lan_world = w, lan_trace = []\<rparr>"

definition lan_note :: "lan_thread \<Rightarrow> lan_ev \<Rightarrow> ('s, 'w) lan \<Rightarrow> ('s, 'w) lan" where
  "lan_note t e s = s\<lparr>lan_trace := (t, e) # lan_trace s\<rparr>"

abbreviation lan_log :: "lan_thread \<Rightarrow> string \<Rightarrow> ('s, 'w) lan \<Rightarrow> ('s, 'w) lan" where
  "lan_log t msg \<equiv> lan_note t (Log msg)"

text \<open>A log message that ends in the error number.\<close>

definition log_errno :: "('s, 'w) lan_api \<Rightarrow> lan_thread \<Rightarrow> string \<Rightarrow> ('s, 'w) lan \<Rightarrow> ('s, 'w) lan" where
  "log_errno api t msg s = lan_log t (msg @ show_int (errno api (lan_world s))) s"

section \<open>Socket calls\<close>

text \<open>Each call runs on the world; what it did is noted in the trace. A call of \<^verbatim>\<open>socket\<close> or
  \<^verbatim>\<open>accept\<close> opens a descriptor when its result is not negative.\<close>

definition call_socket :: "('s, 'w) lan_api \<Rightarrow> lan_thread \<Rightarrow> sock_type \<Rightarrow> ('s, 'w) lan \<Rightarrow> int \<times> ('s, 'w) lan" where
  "call_socket api t k s = (let (fd, w) = zsock_socket api k (lan_world s); s' = s\<lparr>lan_world := w\<rparr>
     in (fd, if fd < 0 then s' else lan_note t (Opened fd) s'))"

definition call_accept :: "('s, 'w) lan_api \<Rightarrow> lan_thread \<Rightarrow> int \<Rightarrow> ('s, 'w) lan \<Rightarrow> (int \<times> sockaddr_in) \<times> ('s, 'w) lan" where
  "call_accept api t sock s = (let ((fd, peer), w) = zsock_accept api sock (lan_world s); s' = s\<lparr>lan_world := w\<rparr>
     in ((fd, peer), if fd < 0 then s' else lan_note t (Opened fd) s'))"

definition call_close :: "('s, 'w) lan_api \<Rightarrow> lan_thread \<Rightarrow> int \<Rightarrow> ('s, 'w) lan \<Rightarrow> ('s, 'w) lan" where
  "call_close api t sock s = lan_note t (Closed sock) (s\<lparr>lan_world := zsock_close api sock (lan_world s)\<rparr>)"

definition call_bind :: "('s, 'w) lan_api \<Rightarrow> int \<Rightarrow> sockaddr_in \<Rightarrow> ('s, 'w) lan \<Rightarrow> int \<times> ('s, 'w) lan" where
  "call_bind api sock local s = (let (r, w) = zsock_bind api sock local (lan_world s) in (r, s\<lparr>lan_world := w\<rparr>))"

definition call_listen :: "('s, 'w) lan_api \<Rightarrow> int \<Rightarrow> nat \<Rightarrow> ('s, 'w) lan \<Rightarrow> int \<times> ('s, 'w) lan" where
  "call_listen api sock backlog s = (let (r, w) = zsock_listen api sock backlog (lan_world s) in (r, s\<lparr>lan_world := w\<rparr>))"

definition call_recvfrom :: "('s, 'w) lan_api \<Rightarrow> lan_thread \<Rightarrow> int \<Rightarrow> nat \<Rightarrow> ('s, 'w) lan \<Rightarrow> datagram \<times> ('s, 'w) lan" where
  "call_recvfrom api t sock n s =
     (let ((len, buf, peer), w) = zsock_recvfrom api sock n (lan_world s); s' = s\<lparr>lan_world := w\<rparr>
      in ((len, buf, peer), if len < 0 then s' else lan_note t (Received sock (len, buf, peer)) s'))"

definition call_sendto :: "('s, 'w) lan_api \<Rightarrow> lan_thread \<Rightarrow> int \<Rightarrow> datagram \<Rightarrow> ('s, 'w) lan \<Rightarrow> int \<times> ('s, 'w) lan" where
  "call_sendto api t sock d s = (case d of (len, buf, peer) \<Rightarrow>
     (let (r, w) = zsock_sendto api sock len buf peer (lan_world s)
      in (r, lan_note t (Sent sock d r) (s\<lparr>lan_world := w\<rparr>))))"

definition call_recv :: "('s, 'w) lan_api \<Rightarrow> int \<Rightarrow> nat \<Rightarrow> ('s, 'w) lan \<Rightarrow> ('s, 'w) lan" where
  "call_recv api sock n s = s\<lparr>lan_world := snd (zsock_recv api sock n (lan_world s))\<rparr>"

definition call_send :: "('s, 'w) lan_api \<Rightarrow> lan_thread \<Rightarrow> int \<Rightarrow> int \<Rightarrow> string \<Rightarrow> ('s, 'w) lan \<Rightarrow> ('s, 'w) lan" where
  "call_send api t sock len buf s =
     lan_note t (Http_sent sock len buf) (s\<lparr>lan_world := snd (zsock_send api sock len buf (lan_world s))\<rparr>)"

definition call_sleep :: "('s, 'w) lan_api \<Rightarrow> lan_thread \<Rightarrow> nat \<Rightarrow> ('s, 'w) lan \<Rightarrow> ('s, 'w) lan" where
  "call_sleep api t ms s = lan_note t (Slept ms) (s\<lparr>lan_world := k_sleep_ms api ms (lan_world s)\<rparr>)"

lemmas call_defs [op_defs] = log_errno_def call_socket_def call_accept_def call_close_def
  call_bind_def call_listen_def call_recvfrom_def call_sendto_def call_recv_def call_send_def call_sleep_def

section \<open>Addresses and events\<close>

abbreviation NET_IPV4_ADDR_LEN :: nat where "NET_IPV4_ADDR_LEN \<equiv> 16"

fun first_address :: "(u32 \<Rightarrow> bool) \<Rightarrow> if_addr list \<Rightarrow> u32 option" where
  "first_address unspecified [] = None"
| "first_address unspecified (a # as) =
     (if is_used a \<and> \<not> unspecified (if_address a) then Some (if_address a)
      else first_address unspecified as)"

definition get_ipv4_addr :: "('s, 'w) lan_api \<Rightarrow> net_if \<Rightarrow> 'w \<Rightarrow> u32 option" where
  "get_ipv4_addr api iface w = (case net_if_get_config api iface w of
     None \<Rightarrow> None
   | Some None \<Rightarrow> None
   | Some (Some unicast) \<Rightarrow> first_address (is_addr_unspecified api) unicast)"

definition ipv4_to_text :: "('s, 'w) lan_api \<Rightarrow> net_if \<Rightarrow> nat \<Rightarrow> 'w \<Rightarrow> string" where
  "ipv4_to_text api iface len w = (case get_ipv4_addr api iface w of
     None \<Rightarrow> snd (lan_snprintk api len ''0.0.0.0'')
   | Some addr \<Rightarrow> net_addr_ntop api addr len)"

text \<open>\<^verbatim>\<open>%02x\<close>.\<close>

definition hex_digit :: "nat \<Rightarrow> char" where
  "hex_digit d = (if d < 10 then digit_char d else char_of (87 + d))"

definition show_hex2 :: "u8 \<Rightarrow> string" where
  "show_hex2 b = [hex_digit (unat b div 16), hex_digit (unat b mod 16)]"

definition mac_text :: "u8 list \<Rightarrow> string" where
  "mac_text a = show_hex2 (a ! 0) @ '':'' @ show_hex2 (a ! 1) @ '':'' @ show_hex2 (a ! 2) @ '':'' @
     show_hex2 (a ! 3) @ '':'' @ show_hex2 (a ! 4) @ '':'' @ show_hex2 (a ! 5)"

definition log_iface_state :: "('s, 'w) lan_api \<Rightarrow> lan_thread \<Rightarrow> net_if \<Rightarrow> ('s, 'w) lan \<Rightarrow> ('s, 'w) lan" where
  "log_iface_state api t iface s =
     (let ip_buf = ipv4_to_text api iface NET_IPV4_ADDR_LEN (lan_world s);
          head = ''iface='' @ pointer_text api iface @ '' IPv4='' @ ip_buf
      in case net_if_get_link_addr api iface (lan_world s) of
           Some ll \<Rightarrow> if 6 \<le> ll_len ll then lan_log t (head @ '' MAC='' @ mac_text (ll_addr ll)) s
                      else lan_log t head s
         | None \<Rightarrow> lan_log t head s)"

fun lan_event_handler :: "('s, 'w) lan_api \<Rightarrow> net_event \<Rightarrow> net_if \<Rightarrow> ('s, 'w) lan \<Rightarrow> ('s, 'w) lan" where
  "lan_event_handler api NET_EVENT_IF_UP iface s =
     log_iface_state api Mgmt iface (lan_log Mgmt ''Network interface is up'' s)"
| "lan_event_handler api NET_EVENT_IF_DOWN iface s = lan_log Mgmt ''Network interface is down'' s"
| "lan_event_handler api NET_EVENT_ETHERNET_CARRIER_ON iface s = lan_log Mgmt ''Ethernet carrier detected'' s"
| "lan_event_handler api NET_EVENT_ETHERNET_CARRIER_OFF iface s = lan_log Mgmt ''Ethernet carrier lost'' s"
| "lan_event_handler api NET_EVENT_IPV4_ADDR_ADD iface s =
     (let s1 = log_iface_state api Mgmt iface (lan_log Mgmt ''IPv4 address configured'' s)
      in s1\<lparr>ipv4_ready := k_sem_give api (ipv4_ready s1)\<rparr>)"
| "lan_event_handler api (NET_EVENT_OTHER n) iface s = s"

text \<open>The wait for the semaphore with its time limit: \<open>evs\<close> are the management events until the
  limit. The thread continues as soon as it gets the semaphore; the events after that are not
  part of the wait and are returned.\<close>

fun sem_wait :: "('s, 'w) lan_api \<Rightarrow> (net_event \<times> net_if) list \<Rightarrow> ('s, 'w) lan \<Rightarrow>
    int \<times> (net_event \<times> net_if) list \<times> ('s, 'w) lan" where
  "sem_wait api evs s =
     (let (r, sem) = k_sem_take api (ipv4_ready s); s1 = s\<lparr>ipv4_ready := sem\<rparr>
      in if r = 0 then (0, evs, s1)
         else case evs of [] \<Rightarrow> (- EAGAIN, [], s1)
              | (e, iface) # evs' \<Rightarrow> sem_wait api evs' (lan_event_handler api e iface s1))"

declare sem_wait.simps [simp del]

definition wait_for_ipv4 :: "('s, 'w) lan_api \<Rightarrow> net_if \<Rightarrow> (net_event \<times> net_if) list \<Rightarrow> ('s, 'w) lan \<Rightarrow>
    (net_event \<times> net_if) list \<times> ('s, 'w) lan" where
  "wait_for_ipv4 api iface evs s =
     (if get_ipv4_addr api iface (lan_world s) \<noteq> None then (evs, log_iface_state api Main_thread iface s)
      else let (r, evs', s1) = sem_wait api evs (lan_log Main_thread ''Waiting for static IPv4 configuration'' s)
           in (evs', if r \<noteq> 0 then lan_log Main_thread ''IPv4 address not configured within 10 seconds'' s1
                     else s1))"

section \<open>The UDP echo server\<close>

definition local_address :: "('s, 'w) lan_api \<Rightarrow> nat \<Rightarrow> sockaddr_in" where
  "local_address api port = \<lparr>sin_port = htons api (of_nat port), sin_addr = htonl api 0\<rparr>"

text \<open>From the top of the outer loop to the top of a loop.\<close>

definition udp_server_open :: "('s, 'w) lan_api \<Rightarrow> lan_config \<Rightarrow> ('s, 'w) lan \<Rightarrow> ('s, 'w) lan" where
  "udp_server_open api cfg s =
     (let (sock, s1) = call_socket api Udp SOCK_DGRAM s
      in if sock < 0 then call_sleep api Udp 1000 (log_errno api Udp ''UDP socket create failed: '' s1)
         else let (r, s2) = call_bind api sock (local_address api (udp_port cfg)) s1
              in if r < 0 then call_sleep api Udp 1000 (call_close api Udp sock (log_errno api Udp ''UDP bind failed: '' s2))
                 else (lan_log Udp (''UDP echo server listening on port '' @ show_nat (udp_port cfg)) s2)
                        \<lparr>udp_thread := Some (Udp_echo sock)\<rparr>)"

text \<open>The statements after the inner loop.\<close>

definition udp_server_leave :: "('s, 'w) lan_api \<Rightarrow> int \<Rightarrow> ('s, 'w) lan \<Rightarrow> ('s, 'w) lan" where
  "udp_server_leave api sock s = (call_sleep api Udp 250 (call_close api Udp sock s))\<lparr>udp_thread := Some Udp_open\<rparr>"

definition peer_text :: "('s, 'w) lan_api \<Rightarrow> sockaddr_in \<Rightarrow> string" where
  "peer_text api peer = net_addr_ntop api (sin_addr peer) NET_IPV4_ADDR_LEN @ '':'' @
     show_nat (unat (ntohs api (sin_port peer)))"

definition udp_server_echo :: "('s, 'w) lan_api \<Rightarrow> int \<Rightarrow> ('s, 'w) lan \<Rightarrow> ('s, 'w) lan" where
  "udp_server_echo api sock s =
     (let ((len, buf, peer), s1) = call_recvfrom api Udp sock 256 s
      in if len < 0 then udp_server_leave api sock (log_errno api Udp ''UDP recvfrom failed: '' s1)
         else let s2 = lan_log Udp (''UDP rx '' @ show_int len @ '' bytes from '' @ peer_text api peer) s1;
                  (r, s3) = call_sendto api Udp sock (len, buf, peer) s2
              in if r < 0 then udp_server_leave api sock (log_errno api Udp ''UDP sendto failed: '' s3) else s3)"

section \<open>The HTTP status server\<close>

definition http_server_open :: "('s, 'w) lan_api \<Rightarrow> lan_config \<Rightarrow> ('s, 'w) lan \<Rightarrow> ('s, 'w) lan" where
  "http_server_open api cfg s =
     (let (server, s1) = call_socket api Http SOCK_STREAM s
      in if server < 0 then call_sleep api Http 1000 (log_errno api Http ''HTTP socket create failed: '' s1)
         else let (r, s2) = call_bind api server (local_address api (http_port cfg)) s1
              in if r < 0 then call_sleep api Http 1000 (call_close api Http server (log_errno api Http ''HTTP bind failed: '' s2))
                 else let (r, s3) = call_listen api server 1 s2
                      in if r < 0 then call_sleep api Http 1000 (call_close api Http server (log_errno api Http ''HTTP listen failed: '' s3))
                         else (lan_log Http (''HTTP status server listening on port '' @ show_nat (http_port cfg)) s3)
                                \<lparr>http_thread := Some (Http_accept server)\<rparr>)"

definition http_server_leave :: "('s, 'w) lan_api \<Rightarrow> int \<Rightarrow> ('s, 'w) lan \<Rightarrow> ('s, 'w) lan" where
  "http_server_leave api server s =
     (call_sleep api Http 250 (call_close api Http server s))\<lparr>http_thread := Some Http_open\<rparr>"

abbreviation crlf :: string where "crlf \<equiv> [CHR 0x0D, CHR 0x0A]"
abbreviation newline :: string where "newline \<equiv> [CHR 0x0A]"

definition status_body :: "string \<Rightarrow> nat \<Rightarrow> u64 \<Rightarrow> string" where
  "status_body ip port uptime = ''lan8651_t1s_demo'' @ newline @ ''ipv4='' @ ip @ newline @
     ''udp_port='' @ show_nat port @ newline @ ''uptime_ms='' @ show_int (sint uptime) @ newline"

definition http_text :: "int \<Rightarrow> string \<Rightarrow> string" where
  "http_text body_len body = ''HTTP/1.1 200 OK'' @ crlf @ ''Content-Type: text/plain'' @ crlf @
     ''Content-Length: '' @ show_int body_len @ crlf @ ''Connection: close'' @ crlf @ crlf @ body"

definition http_server_client :: "('s, 'w) lan_api \<Rightarrow> lan_config \<Rightarrow> int \<Rightarrow> ('s, 'w) lan \<Rightarrow> ('s, 'w) lan" where
  "http_server_client api cfg server s =
     (let iface = net_if_get_default api (lan_world s);
          ((client, peer), s1) = call_accept api Http server s
      in if client < 0 then http_server_leave api server (log_errno api Http ''HTTP accept failed: '' s1)
         else let s2 = lan_log Http (''HTTP client '' @ peer_text api peer @ '' connected'') s1;
                  s3 = call_recv api client (http_max_request cfg) s2;
                  ip_buf = ipv4_to_text api iface NET_IPV4_ADDR_LEN (lan_world s3);
                  (body_len, body) = lan_snprintk api 192
                     (status_body ip_buf (udp_port cfg) (k_uptime_get api (lan_world s3)));
                  (response_len, response) = lan_snprintk api 384 (http_text body_len body)
              in call_close api Http client (call_send api Http client response_len response s3))"

section \<open>The main thread\<close>

abbreviation DEST_IP_ADDRESS :: string where "DEST_IP_ADDRESS \<equiv> ''2.2.2.2''"

text \<open>\<^verbatim>\<open>main\<close> up to the transmitter loop; \<open>evs\<close> are the events during the wait. Once \<^verbatim>\<open>main\<close> has
  gone on, events are delivered by steps of their own.\<close>

definition create_threads :: "lan_config \<Rightarrow> ('s, 'w) lan \<Rightarrow> ('s, 'w) lan" where
  "create_threads cfg s =
     (let s1 = (lan_note Main_thread (Created Udp) s)\<lparr>udp_thread := Some Udp_open\<rparr>
      in if http_enabled cfg then (lan_note Main_thread (Created Http) s1)\<lparr>http_thread := Some Http_open\<rparr> else s1)"

definition start_transmitter :: "('s, 'w) lan_api \<Rightarrow> lan_config \<Rightarrow> ('s, 'w) lan \<Rightarrow> ('s, 'w) lan" where
  "start_transmitter api cfg s =
     (let (tx_sock, s1) = call_socket api Main_thread SOCK_DGRAM s
      in if tx_sock < 0 then (log_errno api Main_thread ''UDP tx socket create failed: '' s1)
             \<lparr>main_thread := Main_done (- errno api (lan_world s1))\<rparr>
         else let (r, addr) = inet_pton api DEST_IP_ADDRESS
              in if r \<noteq> 1 then (call_close api Main_thread tx_sock
                     (lan_log Main_thread (''Invalid UDP peer address '' @ [CHR 0x27] @ DEST_IP_ADDRESS @ [CHR 0x27]) s1))
                     \<lparr>main_thread := Main_done (- EINVAL)\<rparr>
                 else s1\<lparr>main_thread := Main_tx tx_sock
                     \<lparr>sin_port = htons api (of_nat (tx_port cfg)), sin_addr = addr\<rparr> 0\<rparr>)"

definition lan_main_start :: "('s, 'w) lan_api \<Rightarrow> lan_config \<Rightarrow> (net_event \<times> net_if) list \<Rightarrow> ('s, 'w) lan \<Rightarrow> ('s, 'w) lan" where
  "lan_main_start api cfg evs s =
     (if ethernet0_iface api = None
      then (lan_log Main_thread ''No default network interface found'' s)\<lparr>main_thread := Main_done (- ENODEV)\<rparr>
      else let (evs', s1) = wait_for_ipv4 api (ethernet0_iface api) evs (lan_note Main_thread Callback_added s);
               s2 = lan_log Main_thread ''LAN8651 T1S demo ready'' (create_threads cfg s1)
           in start_transmitter api cfg s2)"

definition tx_text :: "u32 \<Rightarrow> u64 \<Rightarrow> string" where
  "tx_text seq uptime = ''lan8651_t1s seq='' @ show_nat (unat seq) @ '' uptime_ms='' @ show_int (sint uptime)"

definition bytes_of :: "string \<Rightarrow> u8 list" where
  "bytes_of t = map of_char t"

definition tx_round :: "('s, 'w) lan_api \<Rightarrow> lan_config \<Rightarrow> int \<Rightarrow> sockaddr_in \<Rightarrow> u32 \<Rightarrow> ('s, 'w) lan \<Rightarrow> ('s, 'w) lan" where
  "tx_round api cfg tx_sock peer seq s =
     (let (len, msg) = lan_snprintk api 64 (tx_text seq (k_uptime_get api (lan_world s)));
          (r, s1) = call_sendto api Main_thread tx_sock (len, bytes_of msg, peer) s;
          dest = DEST_IP_ADDRESS @ '':'' @ show_nat (tx_port cfg);
          s2 = (if r < 0 then log_errno api Main_thread (''UDP tx to '' @ dest @ '' failed: '') s1
                else lan_log Main_thread (''UDP tx '' @ show_int r @ '' bytes to '' @ dest @ '' (seq='' @ show_nat (unat seq) @ '')'') s1)
      in (call_sleep api Main_thread (tx_interval_ms cfg) s2)\<lparr>main_thread := Main_tx tx_sock peer (seq + 1)\<rparr>)"

section \<open>The threads together\<close>

datatype lan_step =
    Step_udp
  | Step_http
  | Step_main "(net_event \<times> net_if) list"
  | Step_event net_event net_if

fun lan_next :: "('s, 'w) lan_api \<Rightarrow> lan_config \<Rightarrow> lan_step \<Rightarrow> ('s, 'w) lan \<Rightarrow> ('s, 'w) lan" where
  "lan_next api cfg Step_udp s = (case udp_thread s of
     None \<Rightarrow> s
   | Some Udp_open \<Rightarrow> udp_server_open api cfg s
   | Some (Udp_echo sock) \<Rightarrow> udp_server_echo api sock s)"
| "lan_next api cfg Step_http s = (case http_thread s of
     None \<Rightarrow> s
   | Some Http_open \<Rightarrow> http_server_open api cfg s
   | Some (Http_accept server) \<Rightarrow> http_server_client api cfg server s)"
| "lan_next api cfg (Step_main evs) s = (case main_thread s of
     Main_start \<Rightarrow> lan_main_start api cfg evs s
   | Main_tx sock peer seq \<Rightarrow> tx_round api cfg sock peer seq s
   | Main_done r \<Rightarrow> s)"
| "lan_next api cfg (Step_event e iface) s =
     (if (Main_thread, Callback_added) \<in> set (lan_trace s) then lan_event_handler api e iface s else s)"

end
