(* ===== verification/Lan8651Props.thy ===== *)
theory Lan8651Props
  imports Lan8651 "HOL-Library.Multiset" "HOL-Library.Sublist"
begin

text \<open>
  Properties of the LAN8651 demo.

  \<^item> The echo server refines an abstract echo service (\<open>echo_step\<close>), for every order of the
    threads' steps and all answers of the network stack.
  \<^item> The interface \<open>socket_thread\<close> says that a thread holds exactly the sockets its program counter
    shows and only closes those; it is interpreted for the two servers, the main thread and
    the management events.
  \<^item> A client reads the status page back from the response; the messages of the transmitter are
    complete, numbered and fit their buffer; when the wait for an address ends.
\<close>

section \<open>The trace without log messages\<close>

definition calls :: "('s, 'w) lan \<Rightarrow> (lan_thread \<times> lan_ev) list" where
  "calls s = filter (\<lambda>(t, e). case e of Log m \<Rightarrow> False | _ \<Rightarrow> True) (lan_trace s)"

lemma calls_simps [simp]:
  "calls (s\<lparr>lan_world := w\<rparr>) = calls s" "calls (s\<lparr>udp_thread := p\<rparr>) = calls s"
  "calls (s\<lparr>http_thread := h\<rparr>) = calls s" "calls (s\<lparr>main_thread := m\<rparr>) = calls s"
  "calls (s\<lparr>ipv4_ready := r\<rparr>) = calls s"
  by (simp_all add: calls_def)

lemma calls_note [simp]:
  "calls (lan_note t e s) = (case e of Log m \<Rightarrow> calls s | _ \<Rightarrow> (t, e) # calls s)"
  by (simp add: calls_def lan_note_def split: lan_ev.split)

lemma lan_note_simps [simp]:
  "udp_thread (lan_note t e s) = udp_thread s" "http_thread (lan_note t e s) = http_thread s"
  "main_thread (lan_note t e s) = main_thread s" "lan_world (lan_note t e s) = lan_world s"
  "ipv4_ready (lan_note t e s) = ipv4_ready s"
  by (simp_all add: lan_note_def)

text \<open>What a step leaves alone: \<open>same_threads\<close> for the program counters, together with \<open>calls\<close>
  for operations that only log.\<close>

definition same_threads :: "('s, 'w) lan \<Rightarrow> ('s, 'w) lan \<Rightarrow> bool" where
  "same_threads s s' \<longleftrightarrow> udp_thread s' = udp_thread s \<and> http_thread s' = http_thread s \<and>
     main_thread s' = main_thread s"

definition only_logs :: "('s, 'w) lan \<Rightarrow> ('s, 'w) lan \<Rightarrow> bool" where
  "only_logs s s' \<longleftrightarrow> calls s' = calls s \<and> same_threads s s' \<and> lan_world s' = lan_world s"

lemma only_logs_trans: "only_logs s t \<Longrightarrow> only_logs t u \<Longrightarrow> only_logs s u"
  by (simp add: only_logs_def same_threads_def)

lemma only_logs_log: "only_logs s (lan_log t m s)"
  by (simp add: only_logs_def same_threads_def)

lemma only_logs_iface: "only_logs s (log_iface_state api t iface s)"
  by (simp add: only_logs_def same_threads_def log_iface_state_def Let_def split: option.split)

lemma only_logs_event: "only_logs s (lan_event_handler api e iface s)"
proof (cases e)
  case NET_EVENT_IF_UP
  then show ?thesis using only_logs_trans [OF only_logs_log only_logs_iface] by simp
next
  case NET_EVENT_IPV4_ADDR_ADD
  have "only_logs s (log_iface_state api Mgmt iface (lan_log Mgmt ''IPv4 address configured'' s))"
    by (rule only_logs_trans [OF only_logs_log only_logs_iface])
  with NET_EVENT_IPV4_ADDR_ADD show ?thesis by (simp add: only_logs_def same_threads_def Let_def)
qed (simp_all add: only_logs_def same_threads_def)

lemma only_logs_sem_wait: "only_logs s (snd (snd (sem_wait api evs s)))"
proof (induction evs arbitrary: s)
  case Nil
  then show ?case by (subst sem_wait.simps) (simp add: only_logs_def same_threads_def Let_def split: prod.split)
next
  case (Cons ev evs)
  obtain e iface where ev: "ev = (e, iface)" by (cases ev)
  let ?s = "s\<lparr>ipv4_ready := snd (k_sem_take api (ipv4_ready s))\<rparr>"
  have "only_logs s ?s" by (simp add: only_logs_def same_threads_def)
  then have "only_logs s (snd (snd (sem_wait api evs (lan_event_handler api e iface ?s))))"
    by (rule only_logs_trans) (rule only_logs_trans [OF only_logs_event Cons.IH])
  then show ?case
    using \<open>only_logs s ?s\<close> ev by (subst sem_wait.simps) (simp add: Let_def case_prod_beta)
qed

lemma only_logs_wait: "only_logs s (snd (wait_for_ipv4 api iface evs s))"
proof (cases "get_ipv4_addr api iface (lan_world s) = None")
  case True
  let ?s = "lan_log Main_thread ''Waiting for static IPv4 configuration'' s"
  have "only_logs s (snd (snd (sem_wait api evs ?s)))"
    by (rule only_logs_trans [OF only_logs_log only_logs_sem_wait])
  with True show ?thesis
    by (auto simp: wait_for_ipv4_def Let_def split: prod.split intro: only_logs_trans [OF _ only_logs_log])
qed (simp add: wait_for_ipv4_def only_logs_iface)

text \<open>The main thread's start in terms of what the wait leaves.\<close>

lemma main_start_cases:
  obtains (no_iface) "ethernet0_iface api = None"
      "lan_main_start api cfg evs s =
         (lan_log Main_thread ''No default network interface found'' s)\<lparr>main_thread := Main_done (- ENODEV)\<rparr>"
    | (started) s1 where "only_logs (lan_note Main_thread Callback_added s) s1"
      "lan_main_start api cfg evs s =
         start_transmitter api cfg (lan_log Main_thread ''LAN8651 T1S demo ready'' (create_threads cfg s1))"
      "ethernet0_iface api \<noteq> None"
proof (cases "ethernet0_iface api = None")
  case False
  show ?thesis
    by (rule started [OF only_logs_wait [where api = api and iface = "ethernet0_iface api" and evs = evs]])
      (use False in \<open>auto simp: lan_main_start_def Let_def case_prod_beta\<close>)
qed (use no_iface in \<open>simp add: lan_main_start_def\<close>)

lemmas udp_defs [op_defs] = udp_server_open_def udp_server_echo_def udp_server_leave_def
lemmas http_defs [op_defs] = http_server_open_def http_server_client_def http_server_leave_def
lemmas main_defs [op_defs] = start_transmitter_def tx_round_def create_threads_def

section \<open>Sockets\<close>

text \<open>The descriptors a thread has open after a trace, and whether every close it made was of a
  descriptor it had open.\<close>

fun open_fds :: "lan_thread \<Rightarrow> (lan_thread \<times> lan_ev) list \<Rightarrow> int multiset" where
  "open_fds t [] = {#}"
| "open_fds t ((t', e) # tr) = (if t' \<noteq> t then open_fds t tr else case e of
     Opened fd \<Rightarrow> add_mset fd (open_fds t tr)
   | Closed fd \<Rightarrow> open_fds t tr - {#fd#}
   | _ \<Rightarrow> open_fds t tr)"

fun closes_ok :: "lan_thread \<Rightarrow> (lan_thread \<times> lan_ev) list \<Rightarrow> bool" where
  "closes_ok t [] = True"
| "closes_ok t ((t', e) # tr) = (closes_ok t tr \<and>
     (t' = t \<longrightarrow> (case e of Closed fd \<Rightarrow> fd \<in># open_fds t tr | _ \<Rightarrow> True)))"

fun held :: "lan_thread \<Rightarrow> ('s, 'w) lan \<Rightarrow> int multiset" where
  "held Udp s = (case udp_thread s of Some (Udp_echo fd) \<Rightarrow> {#fd#} | _ \<Rightarrow> {#})"
| "held Http s = (case http_thread s of Some (Http_accept fd) \<Rightarrow> {#fd#} | _ \<Rightarrow> {#})"
| "held Main_thread s = (case main_thread s of Main_tx fd _ _ \<Rightarrow> {#fd#} | _ \<Rightarrow> {#})"
| "held Mgmt s = {#}"

definition sockets_of :: "lan_thread \<Rightarrow> ('s, 'w) lan \<Rightarrow> bool" where
  "sockets_of t s \<longleftrightarrow> open_fds t (calls s) = held t s \<and> closes_ok t (calls s)"

lemma sockets_of_only_logs: "only_logs s s' \<Longrightarrow> sockets_of t s' = sockets_of t s"
  by (cases t) (simp_all add: sockets_of_def only_logs_def same_threads_def)

text \<open>The interface of a thread: its steps keep the account of its own sockets and do not touch
  those of another thread.\<close>

locale socket_thread =
  fixes owner :: lan_thread
    and enabled :: "('s, 'w) lan \<Rightarrow> bool"
    and step :: "('s, 'w) lan \<Rightarrow> ('s, 'w) lan"
  assumes own: "enabled s \<Longrightarrow> sockets_of owner s \<Longrightarrow> sockets_of owner (step s)"
    and other: "enabled s \<Longrightarrow> t \<noteq> owner \<Longrightarrow> sockets_of t s \<Longrightarrow> sockets_of t (step s)"
begin

lemma all: "enabled s \<Longrightarrow> (\<forall>t. sockets_of t s) \<Longrightarrow> sockets_of t (step s)"
  using own other by (cases "t = owner") auto

end

lemma udp_own: "sockets_of Udp s \<Longrightarrow> sockets_of Udp (lan_next api cfg Step_udp s)"
  by (auto simp: sockets_of_def udp_defs call_defs Let_def split: option.splits udp_pc.splits prod.splits)

lemma udp_other: "t \<noteq> Udp \<Longrightarrow> sockets_of t s \<Longrightarrow> sockets_of t (lan_next api cfg Step_udp s)"
  by (cases t) (auto simp: sockets_of_def udp_defs call_defs Let_def split: option.splits udp_pc.splits prod.splits)

lemma http_own: "sockets_of Http s \<Longrightarrow> sockets_of Http (lan_next api cfg Step_http s)"
  by (auto simp: sockets_of_def http_defs call_defs Let_def split: option.splits http_pc.splits prod.splits)

lemma http_other: "t \<noteq> Http \<Longrightarrow> sockets_of t s \<Longrightarrow> sockets_of t (lan_next api cfg Step_http s)"
  by (cases t) (auto simp: sockets_of_def http_defs call_defs Let_def split: option.splits http_pc.splits prod.splits)

text \<open>The servers do not exist before \<^verbatim>\<open>main\<close> has created them.\<close>

definition not_started :: "('s, 'w) lan \<Rightarrow> bool" where
  "not_started s \<longleftrightarrow> (main_thread s = Main_start \<longrightarrow> udp_thread s = None \<and> http_thread s = None)"

lemma create_sockets:
  "udp_thread s = None \<Longrightarrow> http_thread s = None \<Longrightarrow> sockets_of t s \<Longrightarrow> sockets_of t (create_threads cfg s)"
  by (cases t) (auto simp: sockets_of_def create_threads_def Let_def)

lemma transmitter_sockets:
  "main_thread s = Main_start \<Longrightarrow> sockets_of t s \<Longrightarrow> sockets_of t (start_transmitter api cfg s)"
  by (cases t) (auto simp: sockets_of_def start_transmitter_def call_defs Let_def split: prod.splits)

lemma create_threads_main [simp]: "main_thread (create_threads cfg s) = main_thread s"
  by (simp add: create_threads_def Let_def)

lemma main_sockets:
  assumes "not_started s" "sockets_of t s"
  shows "sockets_of t (lan_next api cfg (Step_main evs) s)"
proof (cases "main_thread s")
  case Main_start
  show ?thesis
  proof (cases rule: main_start_cases [of api cfg evs s])
    case no_iface
    with assms(2) Main_start show ?thesis by (cases t) (auto simp: sockets_of_def)
  next
    case (started s1)
    have s1: "udp_thread s1 = None" "http_thread s1 = None" "main_thread s1 = Main_start"
      using started(1) Main_start assms(1) by (simp_all add: only_logs_def same_threads_def not_started_def)
    have "sockets_of t (lan_note Main_thread Callback_added s)"
      using assms(2) by (cases t) (simp_all add: sockets_of_def)
    then have "sockets_of t s1" using sockets_of_only_logs [OF started(1)] by blast
    from create_sockets [OF s1(1,2) this]
    have "sockets_of t (lan_log Main_thread ''LAN8651 T1S demo ready'' (create_threads cfg s1))"
      using sockets_of_only_logs [OF only_logs_log] by blast
    then show ?thesis
      using s1(3) started(2) Main_start by (simp add: transmitter_sockets)
  qed
next
  case (Main_tx sock peer seq)
  with assms(2) show ?thesis
    by (cases t) (auto simp: sockets_of_def tx_round_def call_defs Let_def split: prod.splits)
qed (use assms in simp)

lemma event_sockets: "sockets_of t s \<Longrightarrow> sockets_of t (lan_next api cfg (Step_event e iface) s)"
  by (auto simp: sockets_of_only_logs [OF only_logs_event])

interpretation udp_sockets: socket_thread Udp "\<lambda>s. True" "lan_next api cfg Step_udp" for api cfg
  by unfold_locales (auto simp del: lan_next.simps intro: udp_own udp_other)

interpretation http_sockets: socket_thread Http "\<lambda>s. True" "lan_next api cfg Step_http" for api cfg
  by unfold_locales (auto simp del: lan_next.simps intro: http_own http_other)

interpretation main_thread_sockets: socket_thread Main_thread not_started "lan_next api cfg (Step_main evs)" for api cfg evs
  by unfold_locales (auto simp del: lan_next.simps intro: main_sockets)

interpretation event_sockets: socket_thread Mgmt "\<lambda>s. True" "lan_next api cfg (Step_event e iface)" for api cfg e iface
  by unfold_locales (auto simp del: lan_next.simps intro: event_sockets)

definition lan_inv :: "('s, 'w) lan \<Rightarrow> bool" where
  "lan_inv s \<longleftrightarrow> not_started s \<and> (\<forall>t. sockets_of t s)"

lemma not_started_next:
  assumes "not_started s"
  shows "not_started (lan_next api cfg e s)"
proof (cases e)
  case Step_udp
  with assms show ?thesis
    by (auto simp: not_started_def udp_defs call_defs Let_def split: option.splits udp_pc.splits prod.splits)
next
  case Step_http
  with assms show ?thesis
    by (auto simp: not_started_def http_defs call_defs Let_def split: option.splits http_pc.splits prod.splits)
next
  case (Step_main evs)
  have "main_thread s = Main_start \<Longrightarrow> main_thread (lan_main_start api cfg evs s) \<noteq> Main_start"
    by (cases rule: main_start_cases [of api cfg evs s])
      (auto simp: main_defs call_defs Let_def split: prod.splits)
  with Step_main assms show ?thesis
    by (auto simp: not_started_def tx_round_def call_sleep_def Let_def split: main_pc.splits prod.splits)
next
  case (Step_event ev iface)
  with assms only_logs_event [of s api ev iface] show ?thesis
    by (auto simp: not_started_def only_logs_def same_threads_def)
qed

lemma lan_inv_next:
  assumes "lan_inv s"
  shows "lan_inv (lan_next api cfg e s)"
proof -
  have "sockets_of t (lan_next api cfg e s)" for t
    using assms
    by (cases e) (auto simp: lan_inv_def simp del: lan_next.simps intro!: udp_sockets.all http_sockets.all
        main_thread_sockets.all event_sockets.all)
  with assms show ?thesis by (simp add: lan_inv_def not_started_next)
qed

interpretation lan_run: machine "lan_next api cfg" lan_inv for api cfg
  by unfold_locales (rule lan_inv_next)

lemma lan_inv_init: "lan_inv (lan_init sem w)"
proof -
  have "sockets_of t (lan_init sem w :: ('a, 'b) lan)" for t
    by (cases t) (simp_all add: sockets_of_def calls_def lan_init_def)
  then show ?thesis by (simp add: lan_inv_def not_started_def lan_init_def)
qed

text \<open>C14: no thread of the LAN8651 demo leaks or steals a socket: after any run, in any order of
  the threads and with any answers of the network stack, the descriptors a thread has opened
  (with \<^verbatim>\<open>zsock_socket\<close> or \<^verbatim>\<open>zsock_accept\<close>) and not closed are exactly the one its loop works
  with, if any, and it only ever closed descriptors it had open at that moment.\<close>

theorem no_socket_leaks:
  "let s = run (lan_next api cfg) es (lan_init sem w)
   in open_fds t (calls s) = held t s \<and> closes_ok t (calls s)"
  using lan_run.run_inv [OF lan_inv_init, of api cfg es sem w] by (simp add: lan_inv_def sockets_of_def Let_def)

section \<open>The echo service\<close>

text \<open>What the UDP server promises, without sockets calls, sleeps and messages: it is closed, or open on a
  socket; an open service takes a datagram and sends it back to its sender on the same
  socket, or loses that one reply and closes; it may close without a datagram, and an attempt to open it
  may fail after the socket was made. Closing is counted.\<close>

record echo_service =
  es_socket :: "int option"
  es_requests :: "(int \<times> datagram) list"
  es_replies :: "(int \<times> datagram) list"
  es_closed :: nat

inductive echo_step :: "echo_service \<Rightarrow> echo_service \<Rightarrow> bool" where
  start: "es_socket e = None \<Longrightarrow> echo_step e (e\<lparr>es_socket := Some fd\<rparr>)"
| failed: "es_socket e = None \<Longrightarrow> echo_step e (e\<lparr>es_closed := Suc (es_closed e)\<rparr>)"
| echo: "es_socket e = Some fd \<Longrightarrow>
    echo_step e (e\<lparr>es_requests := es_requests e @ [(fd, d)], es_replies := es_replies e @ [(fd, d)]\<rparr>)"
| lost: "es_socket e = Some fd \<Longrightarrow>
    echo_step e (e\<lparr>es_requests := es_requests e @ [(fd, d)], es_socket := None, es_closed := Suc (es_closed e)\<rparr>)"
| stop: "es_socket e = Some fd \<Longrightarrow> echo_step e (e\<lparr>es_socket := None, es_closed := Suc (es_closed e)\<rparr>)"

definition echo_init :: echo_service where
  "echo_init = \<lparr>es_socket = None, es_requests = [], es_replies = [], es_closed = 0\<rparr>"

text \<open>Replies come in the order of the requests, and each missing one has cost a closed socket.\<close>

lemma echo_step_order:
  assumes "echo_step\<^sup>*\<^sup>* echo_init e"
  shows "subseq (es_replies e) (es_requests e) \<and>
         length (es_requests e) \<le> length (es_replies e) + es_closed e"
  using assms
proof (induction rule: rtranclp_induct)
  case base
  then show ?case by (simp add: echo_init_def)
next
  case (step e e')
  from step.hyps(2) step.IH show ?case
    by cases (auto intro: list_emb_append_mono subseq_rev_drop_many)
qed

text \<open>The abstraction: the service as the trace and the program counter show it.\<close>

fun udp_requests :: "(lan_thread \<times> lan_ev) list \<Rightarrow> (int \<times> datagram) list" where
  "udp_requests [] = []"
| "udp_requests ((t, e) # tr) = udp_requests tr @
     (case e of Received fd d \<Rightarrow> if t = Udp then [(fd, d)] else [] | _ \<Rightarrow> [])"

fun udp_replies :: "(lan_thread \<times> lan_ev) list \<Rightarrow> (int \<times> datagram) list" where
  "udp_replies [] = []"
| "udp_replies ((t, e) # tr) = udp_replies tr @
     (case e of Sent fd d r \<Rightarrow> if t = Udp \<and> 0 \<le> r then [(fd, d)] else [] | _ \<Rightarrow> [])"

fun udp_closes :: "(lan_thread \<times> lan_ev) list \<Rightarrow> nat" where
  "udp_closes [] = 0"
| "udp_closes ((t, e) # tr) = udp_closes tr + (case e of Closed fd \<Rightarrow> if t = Udp then 1 else 0 | _ \<Rightarrow> 0)"

definition echo_of :: "('s, 'w) lan \<Rightarrow> echo_service" where
  "echo_of s = \<lparr>es_socket = (case udp_thread s of Some (Udp_echo fd) \<Rightarrow> Some fd | _ \<Rightarrow> None),
     es_requests = udp_requests (calls s), es_replies = udp_replies (calls s), es_closed = udp_closes (calls s)\<rparr>"

lemma echo_of_only_logs: "only_logs s s' \<Longrightarrow> echo_of s' = echo_of s"
  by (simp add: echo_of_def only_logs_def same_threads_def)

lemma udp_open_refines:
  assumes "udp_thread s = Some Udp_open"
  shows "echo_step\<^sup>=\<^sup>= (echo_of s) (echo_of (udp_server_open api cfg s))"
proof -
  let ?e = "echo_of s" and ?e' = "echo_of (udp_server_open api cfg s)"
  have "?e' = ?e \<or> (\<exists>fd. ?e' = ?e\<lparr>es_socket := Some fd\<rparr>) \<or> ?e' = ?e\<lparr>es_closed := Suc (es_closed ?e)\<rparr>"
    using assms by (auto simp: echo_of_def udp_server_open_def call_defs Let_def split: prod.splits)
  moreover have "es_socket ?e = None" using assms by (simp add: echo_of_def)
  ultimately show ?thesis by (auto intro: echo_step.intros)
qed

lemma udp_echo_refines:
  assumes "udp_thread s = Some (Udp_echo fd)"
  shows "echo_step (echo_of s) (echo_of (udp_server_echo api fd s))"
proof -
  let ?e = "echo_of s" and ?e' = "echo_of (udp_server_echo api fd s)"
  have "?e' = ?e\<lparr>es_socket := None, es_closed := Suc (es_closed ?e)\<rparr> \<or>
     (\<exists>d. ?e' = ?e\<lparr>es_requests := es_requests ?e @ [(fd, d)], es_socket := None, es_closed := Suc (es_closed ?e)\<rparr>) \<or>
     (\<exists>d. ?e' = ?e\<lparr>es_requests := es_requests ?e @ [(fd, d)], es_replies := es_replies ?e @ [(fd, d)]\<rparr>)"
    using assms
    by (auto simp: echo_of_def udp_server_echo_def udp_server_leave_def call_defs Let_def split: prod.splits)
  moreover have "es_socket ?e = Some fd" using assms by (simp add: echo_of_def)
  ultimately show ?thesis by (auto intro: echo_step.intros)
qed

text \<open>The steps of the other threads are not steps of the service.\<close>

lemma http_echo_of: "echo_of (lan_next api cfg Step_http s) = echo_of s"
  by (auto simp: echo_of_def http_defs call_defs Let_def split: option.splits http_pc.splits prod.splits)

lemma transmitter_echo_of: "echo_of (start_transmitter api cfg s) = echo_of s"
  by (auto simp: echo_of_def start_transmitter_def call_defs Let_def split: prod.splits)

lemma main_echo_of:
  assumes "not_started s"
  shows "echo_of (lan_next api cfg (Step_main evs) s) = echo_of s"
proof (cases "main_thread s")
  case Main_start
  show ?thesis
  proof (cases rule: main_start_cases [of api cfg evs s])
    case no_iface
    with Main_start show ?thesis by (simp add: echo_of_def)
  next
    case (started s1)
    have "udp_thread s1 = None" "calls s1 = (Main_thread, Callback_added) # calls s"
      using started(1) Main_start assms by (simp_all add: only_logs_def same_threads_def not_started_def)
    then have "echo_of (create_threads cfg s1) = echo_of s"
      using assms Main_start by (simp add: echo_of_def create_threads_def not_started_def Let_def)
    with started(2) Main_start show ?thesis
      by (simp add: transmitter_echo_of echo_of_only_logs [OF only_logs_log])
  qed
qed (auto simp: echo_of_def tx_round_def call_defs Let_def split: prod.splits)

lemma lan_next_refines:
  assumes "not_started s"
  shows "echo_step\<^sup>=\<^sup>= (echo_of s) (echo_of (lan_next api cfg e s))"
proof (cases e)
  case Step_udp
  then show ?thesis
    using udp_open_refines [of s api cfg] udp_echo_refines [of s _ api]
    by (auto split: option.split udp_pc.split)
next
  case (Step_event ev iface)
  then show ?thesis by (simp add: echo_of_only_logs [OF only_logs_event])
qed (use assms in \<open>simp_all del: lan_next.simps add: http_echo_of main_echo_of\<close>)

lemma run_refines:
  assumes "lan_inv s"
  shows "echo_step\<^sup>*\<^sup>* (echo_of s) (echo_of (run (lan_next api cfg) es s))"
  using assms
proof (induction es arbitrary: s)
  case (Cons e es)
  have "echo_step\<^sup>=\<^sup>= (echo_of s) (echo_of (lan_next api cfg e s))"
    using Cons.prems lan_next_refines unfolding lan_inv_def by blast
  then have "echo_step\<^sup>*\<^sup>* (echo_of s) (echo_of (lan_next api cfg e s))" by auto
  also have "echo_step\<^sup>*\<^sup>* (echo_of (lan_next api cfg e s)) (echo_of (run (lan_next api cfg) (e # es) s))"
    using Cons.IH [OF lan_inv_next [OF Cons.prems]] by simp
  finally show ?case .
qed simp

text \<open>C3: the UDP thread of the LAN8651 demo refines the echo service: every run of the
  program, in any order of its threads and with any answers of the network stack, is a run of
  the service. So each datagram received is sent back unchanged, once, to its sender and on
  the same socket; replies keep the order of the requests; and a reply that could not be sent
  costs the socket, so no more requests stay unanswered than sockets were closed.\<close>

theorem echo_server_refines:
  "let e = echo_of (run (lan_next api cfg) es (lan_init sem w))
   in echo_step\<^sup>*\<^sup>* echo_init e \<and> subseq (es_replies e) (es_requests e) \<and>
      length (es_requests e) \<le> length (es_replies e) + es_closed e"
proof -
  have "echo_of (lan_init sem w) = echo_init"
    by (simp add: echo_of_def echo_init_def lan_init_def calls_def)
  then have "echo_step\<^sup>*\<^sup>* echo_init (echo_of (run (lan_next api cfg) es (lan_init sem w)))"
    using run_refines [OF lan_inv_init [of sem w], where api = api and cfg = cfg and es = es] by simp
  from this echo_step_order [OF this] show ?thesis by (simp add: Let_def)
qed

section \<open>The status page\<close>

text \<open>What a client does with a response: it takes the number after \<^verbatim>\<open>Content-Length:\<close>, skips to the
  empty line and takes that many characters.\<close>

fun after :: "string \<Rightarrow> string \<Rightarrow> string option" where
  "after pat [] = (if pat = [] then Some [] else None)"
| "after pat (c # s) = (if take (length pat) (c # s) = pat then Some (drop (length pat) (c # s)) else after pat s)"

definition content_length :: "string \<Rightarrow> nat option" where
  "content_length s = map_option (\<lambda>r. digits_val (takeWhile is_digit r)) (after ''Content-Length: '' s)"

definition http_body :: "string \<Rightarrow> string option" where
  "http_body s = (case (content_length s, after (crlf @ crlf) s) of
     (Some n, Some b) \<Rightarrow> if n \<le> length b then Some (take n b) else None
   | _ \<Rightarrow> None)"

lemma after_skip: "(\<forall>c \<in> set xs. c \<noteq> p) \<Longrightarrow> after (p # ps) (xs @ ys) = after (p # ps) ys"
  by (induction xs) auto

lemma show_nat_no_cr: "\<forall>c \<in> set (show_nat n). c \<noteq> CHR 0x0D"
proof
  fix c assume "c \<in> set (show_nat n)"
  then have "is_digit c" using show_nat_is_digit by blast
  moreover have "\<not> is_digit (CHR 0x0D)" by (simp add: is_digit_def)
  ultimately show "c \<noteq> CHR 0x0D" by blast
qed

lemma takeWhile_show_nat:
  "takeWhile is_digit (show_nat n @ CHR 0x0D # rest) = show_nat n"
  using show_nat_is_digit [of n] by (simp add: takeWhile_append2 takeWhile_tail is_digit_def)

lemma http_body_text: "http_body (http_text (int (length b)) b) = Some b"
proof -
  have len: "content_length (http_text (int (length b)) b) = Some (length b)"
    by (simp add: content_length_def http_text_def show_int_def takeWhile_show_nat)
  have "after (crlf @ crlf) (http_text (int (length b)) b) = Some b"
    by (simp add: http_text_def show_int_def after_skip [OF show_nat_no_cr])
  with len show ?thesis by (simp add: http_body_def)
qed

section \<open>What one thread calls\<close>

definition calls_of :: "lan_thread \<Rightarrow> ('s, 'w) lan \<Rightarrow> lan_ev list" where
  "calls_of t s = map snd (filter (\<lambda>(t', e). t' = t) (calls s))"

lemma calls_of_simps [simp]:
  "calls_of t (s\<lparr>lan_world := w\<rparr>) = calls_of t s" "calls_of t (s\<lparr>udp_thread := p\<rparr>) = calls_of t s"
  "calls_of t (s\<lparr>http_thread := h\<rparr>) = calls_of t s" "calls_of t (s\<lparr>main_thread := m\<rparr>) = calls_of t s"
  by (simp_all add: calls_of_def)

lemma calls_of_note [simp]:
  "calls_of t (lan_note t' e s) = (if t' \<noteq> t then calls_of t s else case e of Log m \<Rightarrow> calls_of t s | _ \<Rightarrow> e # calls_of t s)"
  by (simp add: calls_of_def split: lan_ev.split)

lemma calls_of_only_logs: "only_logs s s' \<Longrightarrow> calls_of t s' = calls_of t s"
  by (simp add: calls_of_def only_logs_def)

lemma calls_of_udp: "t \<noteq> Udp \<Longrightarrow> calls_of t (lan_next api cfg Step_udp s) = calls_of t s"
  by (auto simp: udp_defs call_defs Let_def split: option.splits udp_pc.splits prod.splits)

lemma calls_of_http: "t \<noteq> Http \<Longrightarrow> calls_of t (lan_next api cfg Step_http s) = calls_of t s"
  by (auto simp: http_defs call_defs Let_def split: option.splits http_pc.splits prod.splits)

lemma calls_of_event: "calls_of t (lan_next api cfg (Step_event e iface) s) = calls_of t s"
  by (simp add: calls_of_only_logs [OF only_logs_event])

lemma calls_of_create: "calls_of t (create_threads cfg s) =
    (if t = Main_thread then (if http_enabled cfg then [Created Http] else []) @ Created Udp # calls_of t s else calls_of t s)"
  by (simp add: create_threads_def Let_def)

lemma calls_of_main:
  assumes "t \<noteq> Main_thread"
  shows "calls_of t (lan_next api cfg (Step_main evs) s) = calls_of t s"
proof (cases "main_thread s")
  case Main_start
  show ?thesis
  proof (cases rule: main_start_cases [of api cfg evs s])
    case (started s1)
    have "calls_of t (start_transmitter api cfg u) = calls_of t u" for u
      using assms by (auto simp: start_transmitter_def call_defs Let_def split: prod.splits)
    with started assms Main_start show ?thesis
      using calls_of_only_logs [OF started(1), of t] by (simp add: calls_of_create)
  qed (use assms Main_start in simp)
qed (use assms in \<open>auto simp: tx_round_def call_defs Let_def split: prod.splits\<close>)

section \<open>Every status page\<close>

definition ntop_contract :: "(u32 \<Rightarrow> nat \<Rightarrow> string) \<Rightarrow> bool" where
  "ntop_contract f \<longleftrightarrow> (\<forall>a n. 0 < n \<longrightarrow> length (f a n) < n)"

text \<open>The world in which a page is made, after the connection has been accepted and its request has
  been read, and the page it should be: the address that the default interface has then, the configured port and
  the uptime.\<close>

definition page_world :: "('s, 'w) lan_api \<Rightarrow> lan_config \<Rightarrow> int \<Rightarrow> 'w \<Rightarrow> 'w" where
  "page_world api cfg server w =
     (let ((client, peer), w) = zsock_accept api server w in snd (zsock_recv api client (http_max_request cfg) w))"

definition page_text :: "('s, 'w) lan_api \<Rightarrow> lan_config \<Rightarrow> net_if \<Rightarrow> 'w \<Rightarrow> string" where
  "page_text api cfg iface w =
     ''lan8651_t1s_demo'' @ newline @
     ''ipv4='' @ (case get_ipv4_addr api iface w of None \<Rightarrow> ''0.0.0.0'' | Some a \<Rightarrow> net_addr_ntop api a 16) @ newline @
     ''udp_port='' @ show_nat (udp_port cfg) @ newline @
     ''uptime_ms='' @ show_int (sint (k_uptime_get api w)) @ newline"

text \<open>A response that the server sends to \<open>fd\<close> in a round that starts in the state \<open>s\<close>.\<close>

definition page_ok :: "('s, 'w) lan_api \<Rightarrow> lan_config \<Rightarrow> ('s, 'w) lan \<Rightarrow> int \<Rightarrow> int \<Rightarrow> string \<Rightarrow> bool" where
  "page_ok api cfg s fd len resp \<longleftrightarrow> (\<exists>server. http_thread s = Some (Http_accept server) \<and>
     fd = fst (fst (zsock_accept api server (lan_world s))) \<and> len = int (length resp) \<and>
     http_body resp = Some (page_text api cfg (net_if_get_default api (lan_world s)) (page_world api cfg server (lan_world s))))"

lemma status_body_length:
  assumes "length ip < NET_IPV4_ADDR_LEN" "port \<le> 65535"
  shows "length (status_body ip port time) < 192"
proof -
  have "length (show_nat port) \<le> 5" using assms(2) by (intro show_nat_length_le) auto
  with assms(1) show_int_u64 [of time] show ?thesis by (simp add: status_body_def)
qed

lemma http_text_length:
  assumes "length b < 192"
  shows "length (http_text (int (length b)) b) < 384"
proof -
  have "length (show_nat (length b)) \<le> 3" using assms by (intro show_nat_length_le) auto
  with assms show ?thesis by (simp add: http_text_def show_int_def)
qed

lemma ipv4_to_text_length:
  assumes "snprintk_contract (lan_snprintk api)" "ntop_contract (net_addr_ntop api)"
  shows "length (ipv4_to_text api iface NET_IPV4_ADDR_LEN w) < NET_IPV4_ADDR_LEN"
  using assms by (simp add: ipv4_to_text_def snprintk_contract_def ntop_contract_def split: option.split)

lemma ipv4_to_text_page:
  assumes "snprintk_contract (lan_snprintk api)"
  shows "status_body (ipv4_to_text api iface NET_IPV4_ADDR_LEN w) (udp_port cfg) (k_uptime_get api w) = page_text api cfg iface w"
  using assms by (simp add: ipv4_to_text_def page_text_def status_body_def snprintk_contract_def split: option.split)

lemma client_page:
  assumes "snprintk_contract (lan_snprintk api)" "ntop_contract (net_addr_ntop api)" "udp_port cfg \<le> 65535"
    and "http_thread s = Some (Http_accept server)"
    and "Http_sent fd len resp \<in> set (calls_of Http (http_server_client api cfg server s))"
    and "Http_sent fd len resp \<notin> set (calls_of Http s)"
  shows "page_ok api cfg s fd len resp"
proof -
  let ?acc = "zsock_accept api server (lan_world s)" and ?w = "page_world api cfg server (lan_world s)"
  let ?page = "page_text api cfg (net_if_get_default api (lan_world s)) ?w"
  have sp: "lan_snprintk api n t = (int (length t), t)" if "length t < n" for n t
    using assms(1) that by (simp add: snprintk_contract_def)
  have short: "length (page_text api cfg iface w) < 192" for iface w
    using status_body_length [OF ipv4_to_text_length [OF assms(1,2)] assms(3)]
    unfolding ipv4_to_text_page [OF assms(1), symmetric] by blast
  have "fd = fst (fst ?acc) \<and> len = int (length resp) \<and> resp = http_text (int (length ?page)) ?page"
    using assms(5,6)
    by (auto simp: http_server_client_def http_server_leave_def call_defs Let_def page_world_def ipv4_to_text_page [OF assms(1)]
        sp [OF short] sp [OF http_text_length [OF short]] split: prod.splits if_splits)
  then show ?thesis using assms(4) http_body_text by (auto simp: page_ok_def)
qed

lemma new_page:
  assumes "snprintk_contract (lan_snprintk api)" "ntop_contract (net_addr_ntop api)" "udp_port cfg \<le> 65535"
    and "Http_sent fd len resp \<in> set (calls_of Http (lan_next api cfg e s))"
    and "Http_sent fd len resp \<notin> set (calls_of Http s)"
  shows "e = Step_http \<and> page_ok api cfg s fd len resp"
proof (cases e)
  case Step_http
  have "set (calls_of Http (http_server_open api cfg s)) \<subseteq> set (calls_of Http s) \<union> {e. \<forall>fd len resp. e \<noteq> Http_sent fd len resp}"
    by (auto simp: http_server_open_def call_defs Let_def split: prod.splits)
  with Step_http assms(4,5) client_page [OF assms(1-3) _ _ assms(5)] show ?thesis
    by (auto split: option.splits http_pc.splits)
qed (use assms(4,5) in \<open>simp_all add: calls_of_udp calls_of_main calls_of_event del: lan_next.simps\<close>)

text \<open>C23: every response of the status server reads back: in any run, each response was sent in a round of the
  server, to the client that the round accepted; the number of bytes that the server asks to be sent is the length of
  the response, and a client that follows \<^verbatim>\<open>Content-Length\<close> gets exactly the status page, with
  the address that the default interface had when the request had been read (0.0.0.0 if none), the configured port and the uptime of
  that moment, for every port of the configuration's range and every value of the 64-bit clock.\<close>

theorem status_page_reads_back:
  assumes "snprintk_contract (lan_snprintk api)" "ntop_contract (net_addr_ntop api)" "udp_port cfg \<le> 65535"
    and "Http_sent fd len resp \<in> set (calls_of Http (run (lan_next api cfg) es (lan_init sem w)))"
  shows "\<exists>before after server. es = before @ Step_http # after \<and>
     (let s = run (lan_next api cfg) before (lan_init sem w); iface = net_if_get_default api (lan_world s);
          ((client, peer), w1) = zsock_accept api server (lan_world s);
          w2 = snd (zsock_recv api client (http_max_request cfg) w1)
      in http_thread s = Some (Http_accept server) \<and> fd = client \<and> len = int (length resp) \<and>
         http_body resp = Some (''lan8651_t1s_demo'' @ newline @
           ''ipv4='' @ (case get_ipv4_addr api iface w2 of None \<Rightarrow> ''0.0.0.0'' | Some a \<Rightarrow> net_addr_ntop api a 16) @ newline @
           ''udp_port='' @ show_nat (udp_port cfg) @ newline @
           ''uptime_ms='' @ show_int (sint (k_uptime_get api w2)) @ newline))"
proof -
  have "\<exists>before after. es = before @ Step_http # after \<and> page_ok api cfg (run (lan_next api cfg) before (lan_init sem w)) fd len resp"
    using assms(4)
  proof (induction es rule: rev_induct)
    case Nil
    then show ?case by (simp add: calls_of_def calls_def lan_init_def)
  next
    case (snoc e es)
    let ?s = "run (lan_next api cfg) es (lan_init sem w)"
    show ?case
    proof (cases "Http_sent fd len resp \<in> set (calls_of Http ?s)")
      case True
      then show ?thesis using snoc.IH by (metis append.assoc append_Cons)
    next
      case False
      have "Http_sent fd len resp \<in> set (calls_of Http (lan_next api cfg e ?s))"
        using snoc.prems by (simp add: run_append del: lan_next.simps)
      from new_page [OF assms(1-3) this False] show ?thesis by blast
    qed
  qed
  then show ?thesis by (auto simp: page_ok_def page_world_def page_text_def case_prod_beta Let_def)
qed

text \<open>A network with one interface that has its address, where every call succeeds; its world counts
  the descriptors. The witnesses run on it.\<close>

definition demo_lan :: "(nat, nat) lan_api" where
  "demo_lan = \<lparr>k_sem_take = k_sem_take (nat_sem 1), k_sem_give = k_sem_give (nat_sem 1),
     k_sem_reset = k_sem_reset (nat_sem 1),
     net_if_get_config = (\<lambda>iface w. Some (Some [\<lparr>is_used = False, if_address = 7\<rparr>, \<lparr>is_used = True, if_address = 0xC0000264\<rparr>])),
     net_if_get_link_addr = (\<lambda>iface w. None), net_if_get_default = (\<lambda>w. Some 1), ethernet0_iface = Some 1,
     is_addr_unspecified = (\<lambda>a. a = 0), net_addr_ntop = (\<lambda>a n. take (n - 1) ''192.0.2.100''),
     inet_pton = (\<lambda>t. (1, 0x02020202)), htons = (\<lambda>x. x), ntohs = (\<lambda>x. x), htonl = (\<lambda>x. x),
     pointer_text = (\<lambda>iface. ''0x1''), lan_snprintk = (\<lambda>n t. (int (length t), take (n - 1) t)),
     k_uptime_get = of_nat, errno = (\<lambda>w. 0),
     zsock_socket = (\<lambda>k w. (int w, Suc w)), zsock_bind = (\<lambda>fd a w. (0, w)), zsock_listen = (\<lambda>fd n w. (0, w)),
     zsock_accept = (\<lambda>fd w. ((int w, \<lparr>sin_port = 5000, sin_addr = 1\<rparr>), Suc w)),
     zsock_recvfrom = (\<lambda>fd n w. ((2, [104, 105], \<lparr>sin_port = 5001, sin_addr = 2\<rparr>), w)),
     zsock_sendto = (\<lambda>fd len buf peer w. (len, w)), zsock_recv = (\<lambda>fd n w. (0, w)),
     zsock_send = (\<lambda>fd len buf w. (len, w)), zsock_close = (\<lambda>fd w. w), k_sleep_ms = (\<lambda>ms w. w)\<rparr>"

definition demo_config :: lan_config where
  "demo_config = \<lparr>udp_port = 4242, http_enabled = True, http_port = 8080, http_max_request = 512,
     tx_port = 4242, tx_interval_ms = 2000\<rparr>"

lemma demo_lan_contracts:
  "snprintk_contract (lan_snprintk demo_lan)" "ntop_contract (net_addr_ntop demo_lan)" "udp_port demo_config \<le> 65535"
  by (auto simp: snprintk_contract_def ntop_contract_def demo_lan_def demo_config_def)

lemmas demo_run_defs = lan_main_start_def wait_for_ipv4_def get_ipv4_addr_def log_iface_state_def call_defs
  udp_defs http_defs main_defs calls_of_def lan_init_def demo_lan_def demo_config_def Let_def

theorem status_page_reads_back_witness:
  "list_ex (\<lambda>e. case e of Http_sent fd len resp \<Rightarrow> len = int (length resp) \<and> http_body resp \<noteq> None | _ \<Rightarrow> False)
     (calls_of Http (run (lan_next demo_lan demo_config) [Step_main [], Step_http, Step_http] (lan_init 0 3)))"
proof -
  let ?calls = "calls_of Http (run (lan_next demo_lan demo_config) [Step_main [], Step_http, Step_http] (lan_init 0 3))"
  obtain fd len resp where sent: "Http_sent fd len resp \<in> set ?calls"
    by (simp add: demo_run_defs) blast
  from status_page_reads_back [OF demo_lan_contracts sent]
  have "len = int (length resp) \<and> http_body resp \<noteq> None" by (auto simp: case_prod_beta Let_def)
  then show ?thesis by (auto simp: list_ex_iff simp del: run.simps intro!: bexI [OF _ sent])
qed

section \<open>The transmitter\<close>

text \<open>The datagrams of the main thread, oldest first, whether the send succeeded or not.\<close>

fun tx_sent :: "lan_ev list \<Rightarrow> datagram list" where
  "tx_sent [] = []"
| "tx_sent (e # es) = tx_sent es @ (case e of Sent fd d r \<Rightarrow> [d] | _ \<Rightarrow> [])"

definition tx_peer :: "('s, 'w) lan_api \<Rightarrow> lan_config \<Rightarrow> sockaddr_in" where
  "tx_peer api cfg = \<lparr>sin_port = htons api (of_nat (tx_port cfg)), sin_addr = snd (inet_pton api DEST_IP_ADDRESS)\<rparr>"

definition tx_datagram :: "sockaddr_in \<Rightarrow> nat \<Rightarrow> u64 \<Rightarrow> datagram" where
  "tx_datagram peer k time = (int (length (tx_text (of_nat k) time)), bytes_of (tx_text (of_nat k) time), peer)"

definition tx_ok :: "('s, 'w) lan_api \<Rightarrow> lan_config \<Rightarrow> ('s, 'w) lan \<Rightarrow> bool" where
  "tx_ok api cfg s \<longleftrightarrow> (let sent = tx_sent (calls_of Main_thread s) in
     (\<forall>k < length sent. \<exists>time. sent ! k = tx_datagram (tx_peer api cfg) k time) \<and>
     (case main_thread s of Main_start \<Rightarrow> sent = []
      | Main_tx fd peer seq \<Rightarrow> peer = tx_peer api cfg \<and> seq = of_nat (length sent)
      | Main_done r \<Rightarrow> True))"

lemma tx_text_length: "length (tx_text seq time) < 64"
  using show_nat_u32 [of seq] show_int_u64 [of time] by (simp add: tx_text_def)

lemma tx_round_ok:
  assumes "snprintk_contract (lan_snprintk api)" "tx_ok api cfg s" "main_thread s = Main_tx fd peer seq"
  shows "tx_ok api cfg (tx_round api cfg fd peer seq s)"
proof -
  let ?sent = "tx_sent (calls_of Main_thread s)" and ?s = "tx_round api cfg fd peer seq s"
  define time where "time = k_uptime_get api (lan_world s)"
  have eq: "peer = tx_peer api cfg" "seq = of_nat (length ?sent)"
    using assms(2,3) by (simp_all add: tx_ok_def Let_def)
  have sp: "lan_snprintk api 64 (tx_text seq time) = (int (length (tx_text seq time)), tx_text seq time)"
    using assms(1) tx_text_length [of seq time] by (simp add: snprintk_contract_def)
  have sent: "tx_sent (calls_of Main_thread ?s) = ?sent @ [tx_datagram peer (length ?sent) time]"
    using eq(2) sp by (simp add: tx_round_def call_defs tx_datagram_def time_def Let_def split: prod.splits)
  have "main_thread ?s = Main_tx fd peer (seq + 1)"
    by (simp add: tx_round_def call_defs Let_def split: prod.splits)
  with assms(2,3) sent eq show ?thesis
    by (auto simp: tx_ok_def Let_def nth_append less_Suc_eq add.commute)
qed

lemma tx_start_ok:
  assumes "main_thread s = Main_start" "tx_ok api cfg s"
  shows "tx_ok api cfg (lan_main_start api cfg evs s)"
proof (cases rule: main_start_cases [of api cfg evs s])
  case (started s1)
  have "tx_sent (calls_of Main_thread s1) = []"
    using calls_of_only_logs [OF started(1)] assms by (simp add: tx_ok_def Let_def)
  then have "tx_sent (calls_of Main_thread (lan_log Main_thread m (create_threads cfg s1))) = []" for m
    by (simp add: calls_of_create)
  with started(2) show ?thesis
    by (auto simp: tx_ok_def start_transmitter_def call_defs tx_peer_def Let_def split: prod.splits)
qed (use assms in \<open>simp add: tx_ok_def Let_def\<close>)

lemma tx_ok_frame:
  "calls_of Main_thread s' = calls_of Main_thread s \<Longrightarrow> main_thread s' = main_thread s \<Longrightarrow> tx_ok api cfg s' = tx_ok api cfg s"
  by (simp add: tx_ok_def)

lemma tx_ok_next:
  assumes "snprintk_contract (lan_snprintk api)" "tx_ok api cfg s"
  shows "tx_ok api cfg (lan_next api cfg e s)"
proof (cases e)
  case Step_udp
  have "main_thread (lan_next api cfg Step_udp s) = main_thread s"
    by (auto simp: udp_defs call_defs Let_def split: option.splits udp_pc.splits prod.splits)
  with Step_udp assms show ?thesis using tx_ok_frame [OF calls_of_udp] by blast
next
  case Step_http
  have "main_thread (lan_next api cfg Step_http s) = main_thread s"
    by (auto simp: http_defs call_defs Let_def split: option.splits http_pc.splits prod.splits)
  with Step_http assms show ?thesis using tx_ok_frame [OF calls_of_http] by blast
next
  case (Step_event ev iface)
  then show ?thesis
    using assms(2) tx_ok_frame [OF calls_of_only_logs [OF only_logs_event [of s api ev iface], of Main_thread], of api cfg]
      only_logs_event [of s api ev iface]
    by (auto simp: only_logs_def same_threads_def)
next
  case (Step_main evs)
  with assms show ?thesis by (auto simp: tx_start_ok tx_round_ok split: main_pc.split)
qed

text \<open>C32: the transmitter's datagrams are complete and numbered: in any run the \<open>k\<close>-th datagram the
  main thread sends, counted from 0 and with failed sends counted too, is the whole text with
  the number \<open>k\<close> modulo \<open>2 ^ 32\<close>, fits the 64-byte buffer with its NUL, and goes to 2.2.2.2 and the configured port.\<close>

theorem transmitter_counts:
  assumes "snprintk_contract (lan_snprintk api)"
    and "sent = tx_sent (calls_of Main_thread (run (lan_next api cfg) es (lan_init sem w)))" and "k < length sent"
  shows "\<exists>time. sent ! k = tx_datagram (tx_peer api cfg) k time \<and> length (tx_text (of_nat k) time) < 64"
proof -
  have "tx_ok api cfg (lan_init sem w)" by (simp add: tx_ok_def calls_of_def calls_def lan_init_def)
  moreover have "tx_ok api cfg (run (lan_next api cfg) es s)" if "tx_ok api cfg s" for s
    using that by (induction es arbitrary: s) (simp_all add: tx_ok_next [OF assms(1)] del: lan_next.simps)
  ultimately show ?thesis
    using assms(2,3) by (auto simp: tx_ok_def Let_def tx_text_length)
qed

theorem transmitter_counts_witness:
  "\<exists>time. tx_sent (calls_of Main_thread (run (lan_next demo_lan demo_config)
     [Step_main [], Step_main [], Step_main [], Step_main []] (lan_init 0 3))) ! 2 = tx_datagram (tx_peer demo_lan demo_config) 2 time"
proof -
  let ?sent = "tx_sent (calls_of Main_thread (run (lan_next demo_lan demo_config) [Step_main [], Step_main [], Step_main [], Step_main []] (lan_init 0 3)))"
  have "2 < length ?sent" by (simp add: demo_run_defs)
  from transmitter_counts [OF demo_lan_contracts(1) refl this] show ?thesis by blast
qed

section \<open>The wait for an address\<close>

lemma first_address_find:
  "first_address u as = map_option if_address (find (\<lambda>a. is_used a \<and> \<not> u (if_address a)) as)"
  by (induction as) auto

text \<open>The handler gives the semaphore on a new address, of whatever interface, and on nothing else.\<close>

lemma event_gives:
  assumes "k_sem_contract api cnt 1"
  shows "cnt (ipv4_ready (lan_event_handler api e iface s)) =
    (if e = NET_EVENT_IPV4_ADDR_ADD then 1 else cnt (ipv4_ready s))"
  using k_sem_contractD(5) [OF assms] by (cases e) (auto simp: log_iface_state_def Let_def split: option.split)

lemma sem_wait_outcome:
  assumes "k_sem_contract api cnt 1"
  shows "fst (sem_wait api evs s) = 0 \<longleftrightarrow>
    0 < cnt (ipv4_ready s) \<or> (\<exists>iface. (NET_EVENT_IPV4_ADDR_ADD, iface) \<in> set evs)"
proof (induction evs arbitrary: s)
  case Nil
  then show ?case
    using k_sem_take_cases(1) [OF assms, of "ipv4_ready s"]
    by (subst sem_wait.simps) (simp add: Let_def case_prod_beta)
next
  case (Cons ev evs)
  obtain e iface where ev: "ev = (e, iface)" by (cases ev)
  let ?s = "s\<lparr>ipv4_ready := snd (k_sem_take api (ipv4_ready s))\<rparr>"
  have "fst (sem_wait api (ev # evs) s) =
      (if 0 < cnt (ipv4_ready s) then 0 else fst (sem_wait api evs (lan_event_handler api e iface ?s)))"
    using k_sem_take_cases(1) [OF assms, of "ipv4_ready s"] ev
    by (subst sem_wait.simps) (simp add: Let_def case_prod_beta)
  then show ?case
    using Cons.IH [of "lan_event_handler api e iface ?s"] event_gives [OF assms, of e iface ?s]
      k_sem_take_cases(2) [OF assms, of "ipv4_ready s"] ev
    by auto
qed

text \<open>The messages of the wait: everything that is noted while the main thread waits comes from
  the handler.\<close>

definition mgmt_trace :: "('s, 'w) lan \<Rightarrow> ('s, 'w) lan \<Rightarrow> bool" where
  "mgmt_trace s s' \<longleftrightarrow> (\<exists>es. lan_trace s' = map (Pair Mgmt) es @ lan_trace s)"

lemma mgmt_trace_trans: "mgmt_trace s t \<Longrightarrow> mgmt_trace t u \<Longrightarrow> mgmt_trace s u"
  unfolding mgmt_trace_def by (metis append.assoc map_append)

lemma mgmt_trace_note: "mgmt_trace s (lan_note Mgmt e s)"
  by (auto simp: mgmt_trace_def lan_note_def intro: exI [of _ "[e]"])

lemma mgmt_trace_iface: "mgmt_trace s (log_iface_state api Mgmt iface s)"
  by (simp add: log_iface_state_def Let_def mgmt_trace_note split: option.split)

lemma mgmt_trace_event: "mgmt_trace s (lan_event_handler api e iface s)"
proof (cases e)
  case NET_EVENT_IPV4_ADDR_ADD
  have "mgmt_trace s (log_iface_state api Mgmt iface (lan_log Mgmt ''IPv4 address configured'' s))"
    by (rule mgmt_trace_trans [OF mgmt_trace_note mgmt_trace_iface])
  with NET_EVENT_IPV4_ADDR_ADD show ?thesis by (simp add: mgmt_trace_def Let_def)
qed (auto simp: mgmt_trace_note intro: mgmt_trace_trans [OF mgmt_trace_note mgmt_trace_iface],
    simp add: mgmt_trace_def)

lemma mgmt_trace_wait: "mgmt_trace s (snd (snd (sem_wait api evs s)))"
proof (induction evs arbitrary: s)
  case Nil
  then show ?case by (subst sem_wait.simps) (simp add: mgmt_trace_def Let_def case_prod_beta)
next
  case (Cons ev evs)
  let ?s = "s\<lparr>ipv4_ready := snd (k_sem_take api (ipv4_ready s))\<rparr>"
  have "mgmt_trace s ?s" by (simp add: mgmt_trace_def)
  then have "mgmt_trace s (snd (snd (sem_wait api evs (lan_event_handler api (fst ev) (snd ev) ?s))))"
    by (rule mgmt_trace_trans) (rule mgmt_trace_trans [OF mgmt_trace_event Cons.IH])
  with \<open>mgmt_trace s ?s\<close> show ?case by (subst sem_wait.simps) (simp add: Let_def case_prod_beta)
qed

definition timeout_text :: string where
  "timeout_text = ''IPv4 address not configured within 10 seconds''"

text \<open>C34: when the wait for the address gives up: \<^verbatim>\<open>wait_for_ipv4\<close> ends with the warning exactly if
  the interface has no used, specified address at the start, the semaphore is not available and no
  address is added to any interface within the time limit. An address of another interface
  ends the wait as well, since the handler does not look at the interface.\<close>

theorem wait_gives_up_iff:
  assumes "k_sem_contract api cnt 1"
  shows "hd (lan_trace (snd (wait_for_ipv4 api iface evs s))) = (Main_thread, Log timeout_text) \<longleftrightarrow>
    get_ipv4_addr api iface (lan_world s) = None \<and> cnt (ipv4_ready s) = 0 \<and>
    (\<forall>other. (NET_EVENT_IPV4_ADDR_ADD, other) \<notin> set evs)"
proof (cases "get_ipv4_addr api iface (lan_world s)")
  case (Some a)
  then show ?thesis
    by (auto simp: wait_for_ipv4_def log_iface_state_def lan_note_def timeout_text_def Let_def split: option.splits)
next
  case None
  let ?s = "lan_log Main_thread ''Waiting for static IPv4 configuration'' s"
  obtain es where es: "lan_trace (snd (snd (sem_wait api evs ?s))) = map (Pair Mgmt) es @ lan_trace ?s"
    using mgmt_trace_wait unfolding mgmt_trace_def by blast
  have "hd (lan_trace (snd (snd (sem_wait api evs ?s)))) \<noteq> (Main_thread, Log timeout_text)"
    using es by (cases es) (simp_all add: lan_note_def timeout_text_def)
  then have "hd (lan_trace (snd (wait_for_ipv4 api iface evs s))) = (Main_thread, Log timeout_text) \<longleftrightarrow>
      fst (sem_wait api evs ?s) \<noteq> 0"
    using None by (simp add: wait_for_ipv4_def Let_def case_prod_beta lan_note_def timeout_text_def)
  with None sem_wait_outcome [OF assms, of evs ?s] show ?thesis by auto
qed

theorem wait_gives_up_iff_witness:
  "hd (lan_trace (snd (wait_for_ipv4 (demo_lan\<lparr>net_if_get_config := (\<lambda>iface w. None)\<rparr>) (Some 1)
     [(NET_EVENT_IF_UP, Some 1)] (lan_init 0 3)))) = (Main_thread, Log timeout_text)"
proof -
  have "k_sem_contract (demo_lan\<lparr>net_if_get_config := (\<lambda>iface w. None)\<rparr>) (\<lambda>n. n) 1"
    using nat_sem_contract [of 1] by (simp add: k_sem_contract_def demo_lan_def)
  from wait_gives_up_iff [OF this] show ?thesis by (simp add: get_ipv4_addr_def lan_init_def)
qed

section \<open>The start of the program\<close>

text \<open>How \<^verbatim>\<open>main\<close> of the LAN8651 demo starts: without the Ethernet interface it returns
  \<^verbatim>\<open>-ENODEV\<close> and has created nothing and made no call; otherwise both servers are created and stay,
  and only the transmitter depends on its socket and on the parsed address: \<^verbatim>\<open>main\<close> returns
  \<^verbatim>\<open>-errno\<close> without the socket, \<^verbatim>\<open>-EINVAL\<close> without the address and with the socket closed, and
  runs the transmitter from number 0 otherwise.\<close>

theorem main_start_outcomes:
  "let s = lan_next api cfg (Step_main evs) (lan_init sem w) in
   if ethernet0_iface api = None
   then main_thread s = Main_done (- ENODEV) \<and> udp_thread s = None \<and> http_thread s = None \<and> calls s = []
   else udp_thread s = Some Udp_open \<and> http_thread s = (if http_enabled cfg then Some Http_open else None) \<and>
     (case main_thread s of
        Main_start \<Rightarrow> False
      | Main_tx fd peer seq \<Rightarrow> 0 \<le> fd \<and> fst (inet_pton api DEST_IP_ADDRESS) = 1 \<and> peer = tx_peer api cfg \<and> seq = 0
      | Main_done r \<Rightarrow> (\<exists>w'. r = - errno api w' \<and> fst (zsock_socket api SOCK_DGRAM w) < 0) \<or>
          r = - EINVAL \<and> fst (inet_pton api DEST_IP_ADDRESS) \<noteq> 1 \<and> open_fds Main_thread (calls s) = {#})"
proof (cases rule: main_start_cases [of api cfg evs "lan_init sem w"])
  case no_iface
  then show ?thesis by (simp add: lan_init_def calls_def lan_note_def)
next
  case (started s1)
  have s1: "udp_thread s1 = None" "http_thread s1 = None" "calls s1 = [(Main_thread, Callback_added)]"
    using started(1) by (simp_all add: only_logs_def same_threads_def lan_init_def calls_def lan_note_def)
  have "lan_world s1 = w" using started(1) by (simp add: only_logs_def lan_init_def)
  with started(2,3) s1 show ?thesis
    by (auto simp: lan_init_def start_transmitter_def create_threads_def call_defs tx_peer_def Let_def split: prod.splits)
qed

end
