(* ===== verification/BleShell.thy ===== *)
theory BleShell
  imports CLib
begin

text \<open>
  The Bluetooth shell, \<^verbatim>\<open>app/demos/rw612-ble-shell/src/main.c\<close>, built with the heart rate service
  (\<^verbatim>\<open>CONFIG_BT_HRS\<close>).

  The record \<open>ble\<close> holds the file-scope and the function-scope static variables. The result of
  \<^verbatim>\<open>bt_le_adv_start\<close> is an argument of the command that calls it. \<open>ble_step\<close> is one shell command
  or one round of the main loop. Messages are kept without their line ends. Shown: the heart rates that are notified, in closed form and
  over every run; when advertising is started and stopped; that the wait for the terminal
  returns as soon as the terminal is there.
\<close>

section \<open>Model\<close>

datatype ble_call =
    Shell_print string
  | Shell_error string
  | Shell_help
  | Printk string
  | Adv_start
  | Adv_stop
  | Hrs_notify u8
  | Ble_sleep nat

record ble =
  hrs_simulate :: bool
  hrs_registered :: bool
  heartrate :: u8
  ble_calls :: "ble_call list"

definition ble_init :: ble where
  "ble_init = \<lparr>hrs_simulate = False, hrs_registered = False, heartrate = 90, ble_calls = []\<rparr>"

definition ble_note :: "ble_call \<Rightarrow> ble \<Rightarrow> ble" where
  "ble_note c s = s\<lparr>ble_calls := c # ble_calls s\<rparr>"

definition cmd_hrs_simulate :: "bool \<Rightarrow> int \<Rightarrow> string \<Rightarrow> ble \<Rightarrow> int \<times> ble" where
  "cmd_hrs_simulate broadcaster err arg s =
     (if arg = ''on'' then
        if \<not> hrs_registered s \<and> broadcaster then
          let s1 = ble_note Adv_start ((ble_note (Shell_print ''Registering HRS Service'') s)\<lparr>hrs_registered := True\<rparr>)
          in if err \<noteq> 0 then (- ENOEXEC, ble_note (Shell_error (''Advertising failed to start (err '' @ show_int err @ '')'')) s1)
             else (0, (ble_note (Shell_print ''Start HRS simulation'')
                        (ble_note (Printk ''Advertising successfully started'') s1))\<lparr>hrs_simulate := True\<rparr>)
        else (0, (ble_note (Shell_print ''Start HRS simulation'') s)\<lparr>hrs_simulate := True\<rparr>)
      else if arg = ''off'' then
        let s1 = ble_note (Shell_print ''Stop HRS simulation'') s;
            s2 = (if hrs_registered s1 \<and> broadcaster then ble_note Adv_stop s1 else s1)
        in (0, s2\<lparr>hrs_simulate := False\<rparr>)
      else (- ENOEXEC, ble_note Shell_help (ble_note (Shell_print (''Incorrect value: '' @ arg)) s)))"

definition cmd_hrs :: "string \<Rightarrow> string \<Rightarrow> ble \<Rightarrow> int \<times> ble" where
  "cmd_hrs name arg s = (- ENOEXEC, ble_note (Shell_error (name @ '' unknown parameter: '' @ arg)) s)"

definition hrs_notify :: "ble \<Rightarrow> ble" where
  "hrs_notify s =
     (let h = heartrate s + 1; h' = (if h = 160 then 90 else h)
      in ble_note (Hrs_notify h') (s\<lparr>heartrate := h'\<rparr>))"

definition ble_main_round :: "ble \<Rightarrow> ble" where
  "ble_main_round s = (let s1 = ble_note (Ble_sleep 1000) s in if hrs_simulate s1 then hrs_notify s1 else s1)"

text \<open>The wait for the terminal when the shell runs on USB: \<open>dtr n\<close> is what the \<open>n\<close>-th call of
  \<^verbatim>\<open>uart_line_ctrl_get\<close> leaves in the variable. The result is the number of calls, each followed by
  a sleep of 100 ms.\<close>

partial_function (option) dtr_loop :: "(nat \<Rightarrow> u32) \<Rightarrow> nat \<Rightarrow> nat option" where
  "dtr_loop dtr n = (if dtr n \<noteq> 0 then Some (Suc n) else dtr_loop dtr (Suc n))"

definition ble_greeting :: "ble_call list" where
  "ble_greeting = [Printk ''Before any Bluetooth commands you must `bt init` to initialize the stack.'',
     Printk ''Type \"help\" for supported commands.'']"

text \<open>\<^verbatim>\<open>main\<close> up to its loop: \<open>None\<close> when the wait does not end, \<open>Some (False, s)\<close> when it returns
  because the device is not ready or USB fails.\<close>

definition ble_main_start :: "bool \<Rightarrow> bool \<Rightarrow> int \<Rightarrow> (nat \<Rightarrow> u32) \<Rightarrow> ble \<Rightarrow> (bool \<times> ble) option" where
  "ble_main_start cdc_acm ready usb_err dtr s =
     (let greet = (\<lambda>s. s\<lparr>ble_calls := ble_greeting @ ble_calls s\<rparr>)
      in if \<not> cdc_acm then Some (True, greet s)
         else if \<not> ready \<or> usb_err \<noteq> 0 then Some (False, s)
         else case dtr_loop dtr 0 of
                None \<Rightarrow> None
              | Some n \<Rightarrow> Some (True, greet ((ble_note (Ble_sleep 100) ^^ n) s)))"

datatype ble_event =
    Cmd_simulate int string
  | Cmd_hrs string string
  | Main_round

fun ble_step :: "bool \<Rightarrow> ble_event \<Rightarrow> ble \<Rightarrow> ble" where
  "ble_step bc (Cmd_simulate err arg) s = snd (cmd_hrs_simulate bc err arg s)"
| "ble_step bc (Cmd_hrs name arg) s = snd (cmd_hrs name arg s)"
| "ble_step bc Main_round s = ble_main_round s"

lemmas ble_defs [op_defs] = ble_note_def cmd_hrs_simulate_def cmd_hrs_def hrs_notify_def ble_main_round_def

section \<open>Heart rates\<close>

text \<open>The notified values, oldest first, and their closed form.\<close>

fun notified :: "ble_call list \<Rightarrow> u8 list" where
  "notified [] = []"
| "notified (c # cs) = notified cs @ (case c of Hrs_notify h \<Rightarrow> [h] | _ \<Rightarrow> [])"

definition rate :: "nat \<Rightarrow> u8" where
  "rate k = of_nat (90 + k mod 70)"

lemma unat_rate: "unat (rate k) = 90 + k mod 70"
proof -
  have "k mod 70 < 70" by simp
  then show ?thesis unfolding rate_def unsigned_of_nat by (simp add: take_bit_nat_def)
qed

lemma rate_Suc: "rate (Suc k) = (if rate k + 1 = 160 then 90 else rate k + 1)"
proof -
  have lt: "k mod 70 < 70" by simp
  have next_rate: "unat (rate k + 1) = 91 + k mod 70"
    using lt by (subst unat_inc_less) (simp_all add: unat_rate)
  have "rate k + 1 = 160 \<longleftrightarrow> k mod 70 = 69"
    using next_rate by (auto simp: word_unat_eq_iff)
  then show ?thesis
    using next_rate lt by (auto simp: word_unat_eq_iff unat_rate mod_Suc)
qed

definition rates_ok :: "ble \<Rightarrow> bool" where
  "rates_ok s \<longleftrightarrow> (let hs = notified (ble_calls s) in
     hs = map (rate \<circ> Suc) [0..<length hs] \<and> heartrate s = rate (length hs))"

lemma rates_ok_step:
  assumes "rates_ok s"
  shows "rates_ok (ble_step bc e s)"
proof (cases e)
  case Main_round
  let ?hs = "notified (ble_calls s)"
  have hs: "?hs = map (rate \<circ> Suc) [0..<length ?hs]" and h: "heartrate s = rate (length ?hs)"
    using assms by (simp_all add: rates_ok_def Let_def)
  have "?hs @ [rate (Suc (length ?hs))] = map (rate \<circ> Suc) [0..<Suc (length ?hs)]"
    by (subst hs) simp
  with assms h Main_round show ?thesis
    by (auto simp: rates_ok_def ble_main_round_def hrs_notify_def ble_note_def rate_Suc Let_def)
qed (use assms in \<open>simp_all add: rates_ok_def cmd_hrs_simulate_def cmd_hrs_def ble_note_def Let_def\<close>)

interpretation heart_rates: machine "ble_step bc" rates_ok for bc
  by unfold_locales (rule rates_ok_step)

lemma rates_ok_init: "rates_ok ble_init"
  by (simp add: rates_ok_def ble_init_def rate_def)

text \<open>C36: the simulated heart rate: after any sequence of commands and rounds the \<open>k\<close>-th notification
  (from 0) is \<open>90 + (k + 1) mod 70\<close>; so it starts at 91, stays between 90 and 159, rises by one
  and starts again at 90, and switching the simulation off and on does not disturb the sequence.\<close>

theorem heart_rate_sequence:
  "let hs = notified (ble_calls (run (ble_step bc) es ble_init))
   in map unat hs = map (\<lambda>k. 90 + Suc k mod 70) [0..<length hs] \<and> set (map unat hs) \<subseteq> {90..<160}"
proof -
  let ?hs = "notified (ble_calls (run (ble_step bc) es ble_init))"
  have hs: "?hs = map (rate \<circ> Suc) [0..<length ?hs]"
    using heart_rates.run_inv [OF rates_ok_init, of bc es] by (simp add: rates_ok_def Let_def)
  have eq: "map unat ?hs = map (\<lambda>k. 90 + Suc k mod 70) [0..<length ?hs]"
    by (subst hs) (simp add: unat_rate)
  have "90 + Suc k mod 70 \<in> {90..<160}" for k by simp
  then have "set (map unat ?hs) \<subseteq> {90..<160}" unfolding eq by auto
  with eq show ?thesis unfolding Let_def by blast
qed

section \<open>Advertising\<close>

text \<open>Calls of \<^verbatim>\<open>bt_le_adv_start\<close>, and whether the last advertising call was a start.\<close>

fun starts :: "ble_call list \<Rightarrow> nat" where
  "starts [] = 0"
| "starts (c # cs) = starts cs + (if c = Adv_start then 1 else 0)"

fun last_is_start :: "ble_call list \<Rightarrow> bool" where
  "last_is_start [] = False"
| "last_is_start (c # cs) = (if c = Adv_start then True else if c = Adv_stop then False else last_is_start cs)"

definition adv_ok :: "ble \<Rightarrow> bool" where
  "adv_ok s \<longleftrightarrow> starts (ble_calls s) = (if hrs_registered s then 1 else 0) \<and>
     (last_is_start (ble_calls s) \<longrightarrow> hrs_registered s)"

lemma adv_ok_step: "adv_ok s \<Longrightarrow> adv_ok (ble_step bc e s)"
  by (cases e) (auto simp: adv_ok_def ble_defs Let_def)

interpretation advertising: machine "ble_step bc" adv_ok for bc
  by unfold_locales (rule adv_ok_step)

text \<open>Once registered, a command cannot start the advertising any more.\<close>

lemma registered_step:
  "hrs_registered s \<Longrightarrow> \<not> last_is_start (ble_calls s) \<Longrightarrow>
   hrs_registered (ble_step bc e s) \<and> \<not> last_is_start (ble_calls (ble_step bc e s))"
  by (cases e) (auto simp: ble_defs Let_def)

lemma registered_run:
  "hrs_registered s \<Longrightarrow> \<not> last_is_start (ble_calls s) \<Longrightarrow>
   \<not> last_is_start (ble_calls (run (ble_step bc) es s))"
  by (induction es arbitrary: s) (simp_all add: registered_step del: ble_step.simps)

text \<open>Advertising is started at most once in the life of the program: whatever commands were given, there is
  at most one call of \<^verbatim>\<open>bt_le_adv_start\<close>, even when that call failed; and after \<^verbatim>\<open>hrs simulate off\<close> stopped the
  advertising, no later command starts it again, although \<^verbatim>\<open>hrs simulate on\<close> answers 0 and
  the notifications go on.\<close>

theorem advertising_never_restarts:
  assumes "broadcaster" and "s = run (ble_step broadcaster) es ble_init" and "hrs_registered s"
  shows "starts (ble_calls s) = 1 \<and>
     \<not> last_is_start (ble_calls (run (ble_step broadcaster) (Cmd_simulate e1 ''off'' # fs) s)) \<and>
     fst (cmd_hrs_simulate broadcaster e2 ''on'' s) = 0 \<and> hrs_simulate (snd (cmd_hrs_simulate broadcaster e2 ''on'' s))"
proof (intro conjI)
  have "adv_ok ble_init" by (simp add: adv_ok_def ble_init_def)
  then have "adv_ok s" unfolding assms(2) by (rule advertising.run_inv)
  then show "starts (ble_calls s) = 1" using assms(3) by (simp add: adv_ok_def)
  let ?s = "ble_step broadcaster (Cmd_simulate e1 ''off'') s"
  have "hrs_registered ?s" "\<not> last_is_start (ble_calls ?s)"
    using assms(1,3) by (simp_all add: ble_defs Let_def)
  from registered_run [OF this]
  show "\<not> last_is_start (ble_calls (run (ble_step broadcaster) (Cmd_simulate e1 ''off'' # fs) s))" by simp
qed (use assms(3) in \<open>simp_all add: cmd_hrs_simulate_def ble_note_def\<close>)

theorem advertising_never_restarts_witness:
  "\<not> last_is_start (ble_calls (run (ble_step True) [Cmd_simulate 0 ''off'', Cmd_simulate 0 ''on'']
     (run (ble_step True) [Cmd_simulate 0 ''on''] ble_init)))"
proof -
  have "hrs_registered (run (ble_step True) [Cmd_simulate 0 ''on''] ble_init)"
    by (simp add: ble_defs ble_init_def Let_def)
  from advertising_never_restarts [OF TrueI refl this, of 0 "[Cmd_simulate 0 ''on'']"] show ?thesis by blast
qed

section \<open>The wait for the terminal\<close>

lemma dtr_loop_skips:
  "(\<forall>i < k. dtr (n + i) = 0) \<Longrightarrow> dtr (n + k) \<noteq> 0 \<Longrightarrow> dtr_loop dtr n = Some (Suc (n + k))"
proof (induction k arbitrary: n)
  case (Suc k)
  have "dtr n = 0" using Suc.prems(1) by (metis add_0_right zero_less_Suc)
  moreover have "dtr_loop dtr (Suc n) = Some (Suc (Suc n + k))"
    using Suc.prems by (intro Suc.IH) auto
  ultimately show ?case by (simp add: dtr_loop.simps)
qed (simp add: dtr_loop.simps)

lemma dtr_loop_result:
  assumes "dtr_loop dtr n = Some m"
  shows "\<exists>k. dtr k \<noteq> 0"
  by (rule dtr_loop.raw_induct [OF _ assms]) (auto split: if_splits)

text \<open>The wait returns exactly if the terminal ever shows up, after the first call that sees it
  and one sleep per call.\<close>

lemma terminal_wait:
  "ble_main_start True True 0 dtr s = None \<longleftrightarrow> (\<forall>n. dtr n = 0)"
  "\<forall>i < k. dtr i = 0 \<Longrightarrow> dtr k \<noteq> 0 \<Longrightarrow>
     ble_main_start True True 0 dtr s =
       Some (True, s\<lparr>ble_calls := ble_greeting @ replicate (Suc k) (Ble_sleep 100) @ ble_calls s\<rparr>)"
proof -
  have "dtr_loop dtr 0 = Some (Suc k)" if "\<forall>i < k. dtr i = 0" "dtr k \<noteq> 0" for k
    using dtr_loop_skips [of k dtr 0] that by simp
  moreover have "\<exists>k. (\<forall>i < k. dtr i = 0) \<and> dtr k \<noteq> 0" if "dtr n \<noteq> 0" for n
    using that exists_least_iff [of "\<lambda>n. dtr n \<noteq> 0"] by blast
  moreover have "dtr_loop dtr 0 = None" if "\<forall>n. dtr n = 0"
    using that dtr_loop_result [of dtr 0] by (cases "dtr_loop dtr 0") auto
  ultimately show "ble_main_start True True 0 dtr s = None \<longleftrightarrow> (\<forall>n. dtr n = 0)"
    by (force simp: ble_main_start_def split: option.splits)
next
  have sleeps: "(ble_note c ^^ n) s = s\<lparr>ble_calls := replicate n c @ ble_calls s\<rparr>" for c n
    by (induction n) (simp_all add: ble_note_def)
  assume "\<forall>i < k. dtr i = 0" "dtr k \<noteq> 0"
  then have "dtr_loop dtr 0 = Some (Suc k)" using dtr_loop_skips [of k dtr 0] by simp
  then show "ble_main_start True True 0 dtr s =
       Some (True, s\<lparr>ble_calls := ble_greeting @ replicate (Suc k) (Ble_sleep 100) @ ble_calls s\<rparr>)"
    by (simp add: ble_main_start_def sleeps Let_def del: funpow.simps replicate_Suc)
qed

end
