(* ===== verification/DhcpClient.thy ===== *)
theory DhcpClient
  imports CLib
begin

text \<open>
  The DHCPv4 client, \<^verbatim>\<open>app/demos/dhcpv4_client/src/main.c\<close>: the callbacks and \<^verbatim>\<open>main\<close>. An interface is the
  part of its structure that the callbacks read; the text of an address is a parameter. The log
  messages and calls are lists, oldest first.
\<close>

datatype addr_type = NET_ADDR_ANY | NET_ADDR_AUTOCONF | NET_ADDR_DHCP | NET_ADDR_MANUAL

record unicast =
  addr_type :: addr_type
  in_addr :: u32
  netmask :: u32

record dhcp_if =
  device_name :: string
  if_index :: int
  unicast_addrs :: "unicast list"     \<comment> \<open>\<^verbatim>\<open>NET_IF_MAX_IPV4_ADDR\<close> entries\<close>
  gw :: u32
  lease_time :: u32

datatype dhcp_call =
    Dhcp_log string
  | Add_event_callback
  | Add_option_callback nat nat
  | Dhcpv4_start dhcp_if

abbreviation DHCP_OPTION_NTP :: nat where "DHCP_OPTION_NTP \<equiv> 42"

definition start_dhcpv4_client :: "dhcp_if \<Rightarrow> dhcp_call list" where
  "start_dhcpv4_client iface =
     [Dhcp_log (''Start on '' @ device_name iface @ '': index='' @ show_int (if_index iface)), Dhcpv4_start iface]"

definition bracketed :: "string \<Rightarrow> dhcp_if \<Rightarrow> string \<Rightarrow> dhcp_call" where
  "bracketed label iface text = Dhcp_log (label @ ''['' @ show_int (if_index iface) @ '']: '' @ text)"

fun handler_loop :: "(u32 \<Rightarrow> string) \<Rightarrow> dhcp_if \<Rightarrow> unicast list \<Rightarrow> dhcp_call list" where
  "handler_loop ntop iface [] = []"
| "handler_loop ntop iface (a # as) =
     (if addr_type a \<noteq> NET_ADDR_DHCP then handler_loop ntop iface as
      else bracketed ''   Address'' iface (ntop (in_addr a)) #
           bracketed ''    Subnet'' iface (ntop (netmask a)) #
           bracketed ''    Router'' iface (ntop (gw iface)) #
           bracketed ''Lease time'' iface (show_nat (unat (lease_time iface)) @ '' seconds'') #
           handler_loop ntop iface as)"

text \<open>\<open>addr_add\<close> tells whether the event is \<^verbatim>\<open>NET_EVENT_IPV4_ADDR_ADD\<close>.\<close>

definition dhcp_handler :: "(u32 \<Rightarrow> string) \<Rightarrow> bool \<Rightarrow> dhcp_if \<Rightarrow> dhcp_call list" where
  "dhcp_handler ntop addr_add iface = (if \<not> addr_add then [] else handler_loop ntop iface (unicast_addrs iface))"

definition option_handler :: "(u32 \<Rightarrow> string) \<Rightarrow> nat \<Rightarrow> u32 \<Rightarrow> dhcp_call list" where
  "option_handler ntop option data = [Dhcp_log (''DHCP Option '' @ show_nat option @ '': '' @ ntop data)]"

definition dhcp_main :: "dhcp_if list \<Rightarrow> int \<times> dhcp_call list" where
  "dhcp_main ifaces = (0, [Dhcp_log ''Run dhcpv4 client'', Add_event_callback,
     Add_option_callback DHCP_OPTION_NTP 4] @ concat (map start_dhcpv4_client ifaces))"

section \<open>What is reported\<close>

definition lease_report :: "(u32 \<Rightarrow> string) \<Rightarrow> dhcp_if \<Rightarrow> unicast \<Rightarrow> dhcp_call list" where
  "lease_report ntop iface a =
     [bracketed ''   Address'' iface (ntop (in_addr a)), bracketed ''    Subnet'' iface (ntop (netmask a)),
      bracketed ''    Router'' iface (ntop (gw iface)),
      bracketed ''Lease time'' iface (show_nat (unat (lease_time iface)) @ '' seconds'')]"

lemma handler_loop_eq:
  "handler_loop ntop iface as = concat (map (lease_report ntop iface) (filter (\<lambda>a. addr_type a = NET_ADDR_DHCP) as))"
  by (induction as) (auto simp: lease_report_def)

text \<open>Clients are started on every interface once and in order, after the callbacks are in place:
  no event of a client can be missed.\<close>

lemma callbacks_before_clients:
  "\<exists>before starts. snd (dhcp_main ifaces) = before @ starts \<and>
     {Add_event_callback, Add_option_callback DHCP_OPTION_NTP 4} \<subseteq> set before \<and>
     [iface. Dhcpv4_start iface \<leftarrow> before] = [] \<and> [iface. Dhcpv4_start iface \<leftarrow> starts] = ifaces"
proof -
  have "[iface. Dhcpv4_start iface \<leftarrow> concat (map start_dhcpv4_client ifaces)] = ifaces"
    by (induction ifaces) (simp_all add: start_dhcpv4_client_def)
  then show ?thesis
    by (intro exI [of _ "[Dhcp_log ''Run dhcpv4 client'', Add_event_callback, Add_option_callback DHCP_OPTION_NTP 4]"]
        exI [of _ "concat (map start_dhcpv4_client ifaces)"]) (simp add: dhcp_main_def)
qed

text \<open>A new address is reported completely: on the event, the handler of the DHCP client prints
  the address, the netmask, the router and the lease time of exactly the addresses the interface
  has from DHCP, in their order, and nothing on other events.\<close>

theorem leases_reported:
  "dhcp_handler ntop addr_add iface =
     (if addr_add then concat (map (lease_report ntop iface)
        (filter (\<lambda>a. addr_type a = NET_ADDR_DHCP) (unicast_addrs iface))) else [])"
  by (simp add: dhcp_handler_def handler_loop_eq)

end
