(* ===== verification/I2cShell.thy ===== *)
theory I2cShell
  imports CLib Complex_Main
begin

text \<open>
  The I2C shell, \<^verbatim>\<open>app/demos/i2c_shell/src/main.c\<close>, in the build for the board with the P3T1755
  temperature sensor.

  What \<^verbatim>\<open>i2c_read\<close> answers is an argument: its result and the two bytes. The temperature is a
  \<^verbatim>\<open>float\<close>; it is modelled by its exact value, a rational number: the shifted register has twelve bits
  and the resolution is a power of two, so the product fits the 24 bits of the significand and
  the multiplication does not round (lemma \<open>temperature_fits_float\<close>). The text of \<^verbatim>\<open>%.1f\<close> is made by the
  formatter of the shell, an argument that is only assumed to print a nearest tenth. Shown: the
  displayed tenth is nearest to the temperature the sensor encodes, for all temperatures and all
  values of the unused bits.
\<close>

datatype i2c_print =
    No_communication
  | Data_register u8 u8
  | Temperature string

definition temperature_register :: "u8 \<Rightarrow> u8 \<Rightarrow> 16 word" where
  "temperature_register hi lo = or (push_bit 8 (ucast hi)) (ucast lo)"

abbreviation TEMP_SENSOR_RESOLUTION :: rat where "TEMP_SENSOR_RESOLUTION \<equiv> 0.0625"

text \<open>\<^verbatim>\<open>>> 4\<close> on the promoted \<^verbatim>\<open>int\<close> keeps the sign.\<close>

definition temperature_value :: "16 word \<Rightarrow> rat" where
  "temperature_value r = of_int (drop_bit 4 (sint r)) * TEMP_SENSOR_RESOLUTION"

text \<open>The formatter of \<^verbatim>\<open>%.1f\<close> is the first argument.\<close>

definition read_temperature_handler :: "(rat \<Rightarrow> string) \<Rightarrow> int \<times> u8 \<times> u8 \<Rightarrow> int \<times> i2c_print list" where
  "read_temperature_handler format_1f answer = (case answer of (error, hi, lo) \<Rightarrow>
     if error \<noteq> 0 then (error, [No_communication])
     else (0, [Data_register hi lo,
               Temperature (format_1f (temperature_value (temperature_register hi lo)))]))"

text \<open>\<^verbatim>\<open>main\<close>: the result when it returns, \<open>None\<close> when it stays in its sleep loop.\<close>

definition i2c_main :: "bool \<Rightarrow> bool \<Rightarrow> int option" where
  "i2c_main has_sensor ready = (if has_sensor \<and> \<not> ready then Some 1 else None)"

section \<open>The temperature\<close>

text \<open>The encoding of the sensor: twelve bits, two's complement, in sixteenths of a degree, left
  aligned in two bytes with the high byte first; \<open>low\<close> are the four unused bits.\<close>

definition sensor_bytes :: "int \<Rightarrow> int \<Rightarrow> u8 \<times> u8" where
  "sensor_bytes t low = (let r = (t mod 4096) * 16 + low in (of_int (r div 256), of_int (r mod 256)))"

lemma ucast_of_int: "0 \<le> a \<Longrightarrow> a < 256 \<Longrightarrow> (ucast (of_int a :: u8) :: 16 word) = of_int a"
  by (simp add: ucast_eq unsigned_of_int take_bit_int_eq_self)

lemma temperature_register_of_int:
  assumes "0 \<le> a" "a < 256" "0 \<le> b" "b < 256"
  shows "temperature_register (of_int a) (of_int b) = of_int (a * 256 + b)"
proof -
  have "temperature_register (of_int a) (of_int b) = push_bit 8 (ucast (of_int a :: u8)) + ucast (of_int b :: u8)"
    unfolding temperature_register_def
    by (rule disjunctive_add [symmetric]) (auto simp: bit_simps)
  also have "\<dots> = push_bit 8 (of_int a) + of_int b"
    using assms by (simp add: ucast_of_int)
  also have "\<dots> = of_int (a * 256 + b)" by (simp add: push_bit_eq_mult)
  finally show ?thesis .
qed

lemma register_of_sensor:
  assumes "0 \<le> low" "low < 16" "sensor_bytes t low = (hi, lo)"
  shows "temperature_register hi lo = of_int (t * 16 + low)"
proof -
  define r where "r = (t mod 4096) * 16 + low"
  have m: "0 \<le> t mod 4096" "t mod 4096 < 4096" by simp_all
  then have r: "0 \<le> r" "r < 65536" using assms(1,2) unfolding r_def by linarith+
  have "temperature_register hi lo = of_int (r div 256 * 256 + r mod 256)"
    using assms(3) r temperature_register_of_int [of "r div 256" "r mod 256"]
    unfolding sensor_bytes_def Let_def r_def [symmetric] by auto
  also have "\<dots> = of_int r" by simp
  also have "\<dots> = of_int (t * 16 + low)"
  proof -
    have "t = t mod 4096 + t div 4096 * 4096" by simp
    then have "t * 16 + low = r + t div 4096 * 65536" unfolding r_def by linarith
    then show ?thesis by (simp add: of_int_add [symmetric] word_of_int_eq_iff take_bit_eq_mod del: of_int_add)
  qed
  finally show ?thesis .
qed

lemma temperature_of_sensor:
  assumes "- 2048 \<le> t" "t < 2048" "0 \<le> low" "low < 16" "sensor_bytes t low = (hi, lo)"
  shows "temperature_value (temperature_register hi lo) = of_int t / 16"
proof -
  have "sint (of_int (t * 16 + low) :: 16 word) = t * 16 + low"
    using assms(1-4) by (simp add: signed_of_int signed_take_bit_int_eq_self del: of_int_add of_int_mult)
  then have "drop_bit 4 (sint (temperature_register hi lo)) = (t * 16 + low) div 16"
    using register_of_sensor [OF assms(3-5)] by (simp add: drop_bit_eq_div)
  also have "\<dots> = t" using assms(3,4) by simp
  finally show ?thesis by (simp add: temperature_value_def)
qed

text \<open>The product is a number of sixteenths of at most twelve bits, so that a \<^verbatim>\<open>float\<close> holds it
  exactly.\<close>

lemma temperature_fits_float:
  "\<exists>n. temperature_value r = of_int n / 2 ^ 4 \<and> \<bar>n\<bar> < 2 ^ 24"
proof (intro exI conjI)
  show "temperature_value r = of_int (drop_bit 4 (sint r)) / 2 ^ 4" by (simp add: temperature_value_def)
  have "- (2 ^ 15) \<le> sint r" "sint r < 2 ^ 15"
    using sint_greater_eq [of r] sint_less [of r] by simp_all
  then have "- (2 ^ 11) \<le> sint r div 16" "sint r div 16 < 2 ^ 11" by simp_all
  then show "\<bar>drop_bit 4 (sint r)\<bar> < 2 ^ 24" by (simp add: drop_bit_eq_div)
qed

section \<open>One decimal\<close>

text \<open>The text of \<open>k\<close> tenths, and what is assumed of the formatter: it prints a nearest tenth.
  Which one it takes when two are equally near is left open.\<close>

definition tenths_text :: "int \<Rightarrow> string" where
  "tenths_text k = (if k < 0 then ''-'' else []) @ show_nat (nat (\<bar>k\<bar> div 10)) @ ''.'' @
     show_nat (nat (\<bar>k\<bar> mod 10))"

definition prints_nearest_tenth :: "(rat \<Rightarrow> string) \<Rightarrow> bool" where
  "prints_nearest_tenth f \<longleftrightarrow> (\<forall>v. \<exists>k. f v = tenths_text k \<and> \<bar>of_int k / 10 - v\<bar> \<le> 1 / 20)"

lemma nearest_tenth_of_sixteenths:
  assumes "\<bar>of_int k / 10 - of_int t / (16 :: rat)\<bar> \<le> 1 / 20"
  shows "k = (5 * t + 4) div 8 \<or> t mod 8 = 4 \<and> k = (5 * t - 4) div 8"
proof -
  have "8 * of_int k - 5 * of_int t \<le> (4 :: rat)" "- 4 \<le> 8 * of_int k - (5 * of_int t :: rat)"
    using assms by (simp_all add: abs_le_iff field_simps)
  then have "of_int (8 * k - 5 * t) \<le> (of_int 4 :: rat)" "of_int (- 4) \<le> (of_int (8 * k - 5 * t) :: rat)"
    by simp_all
  then have b: "8 * k - 5 * t \<le> 4" "- 4 \<le> 8 * k - 5 * t" by (simp_all only: of_int_le_iff)
  show ?thesis
  proof (cases "8 * k = 5 * t - 4")
    case True
    then have "t mod 8 = 4" by presburger
    moreover have "k = (5 * t - 4) div 8" using True by linarith
    ultimately show ?thesis by blast
  next
    case False
    with b have "k = (5 * t + 4) div 8" by linarith
    then show ?thesis by blast
  qed
qed

text \<open>C35: the shell shows the temperature the sensor measured, rounded to tenths of a degree.
  For every temperature of \<open>t\<close> sixteenths of a degree from -128 to 127.9375, and whatever the four
  unused bits of the register are, the handler returns 0 and prints the two bytes and then the
  tenth nearest to \<open>t\<close> / 16 degrees; between two equally near tenths (at an odd multiple of a
  quarter of a degree) it is one of the two.\<close>

theorem temperature_reads_back:
  assumes "prints_nearest_tenth format_1f"
    and "- 2048 \<le> t" "t < 2048" "0 \<le> low" "low < 16" "sensor_bytes t low = (hi, lo)"
  shows "\<exists>k. read_temperature_handler format_1f (0, hi, lo) =
       (0, [Data_register hi lo, Temperature (tenths_text k)]) \<and>
     \<bar>of_int k / 10 - of_int t / (16 :: rat)\<bar> \<le> 1 / 20 \<and>
     (k = (5 * t + 4) div 8 \<or> t mod 8 = 4 \<and> k = (5 * t - 4) div 8)"
proof -
  obtain k where k: "format_1f (of_int t / 16) = tenths_text k"
    "\<bar>of_int k / 10 - of_int t / (16 :: rat)\<bar> \<le> 1 / 20"
    using assms(1) unfolding prints_nearest_tenth_def by blast
  have "read_temperature_handler format_1f (0, hi, lo) = (0, [Data_register hi lo, Temperature (tenths_text k)])"
    by (simp add: read_temperature_handler_def temperature_of_sensor [OF assms(2-6)] k(1))
  with k(2) nearest_tenth_of_sixteenths [OF k(2)] show ?thesis by blast
qed

text \<open>A formatter that rounds up between two tenths.\<close>

definition demo_format_1f :: "rat \<Rightarrow> string" where
  "demo_format_1f v = tenths_text \<lfloor>v * 10 + 1 / 2\<rfloor>"

lemma demo_format_nearest: "prints_nearest_tenth demo_format_1f"
proof -
  have "\<bar>of_int \<lfloor>v * 10 + 1 / 2\<rfloor> / 10 - v\<bar> \<le> 1 / 20" for v :: rat
    using of_int_floor_le [of "v * 10 + 1 / 2"] floor_correct [of "v * 10 + 1 / 2"]
    by (intro abs_leI) linarith+
  then show ?thesis unfolding prints_nearest_tenth_def demo_format_1f_def by blast
qed

theorem temperature_reads_back_witness:
  "read_temperature_handler demo_format_1f (0, 0xE7, 0x35) =
     (0, [Data_register 0xE7 0x35, Temperature (tenths_text (- 248))]) \<and> tenths_text (- 248) = ''-24.8''"
proof -
  have "tenths_text (- 248) = ''-24.8''"
    by code_simp
  moreover have "sensor_bytes (- 397) 5 = (0xE7, 0x35)" by (simp add: sensor_bytes_def)
  ultimately show ?thesis
    using temperature_reads_back [OF demo_format_nearest, where t = "- 397" and low = 5] by auto
qed

text \<open>On a read error nothing but the message is printed, and the driver's code is returned.\<close>

lemma read_error:
  "fst (read_temperature_handler f (e, hi, lo)) = e"
  "e \<noteq> 0 \<Longrightarrow> snd (read_temperature_handler f (e, hi, lo)) = [No_communication]"
  by (simp_all add: read_temperature_handler_def)

end
