(* ===== verification/Dcd.thy ===== *)
theory Dcd
  imports Prelude
begin

text \<open>
  The device configuration data of the RT1050 board, \<^verbatim>\<open>boards/nxp/rt1050_custom/dcd/dcd.c\<close>: a table
  of bytes which the boot ROM interprets to set up clocks, pins and the SDRAM before it starts the
  program. The table is copied byte for byte, in pieces that follow the groups of the source.

  The format (tag, length and version of the header; write and check commands with their own tag,
  length and parameter byte; big-endian words) is given by an encoder and a decoder, which are
  shown to be inverse on all programs that fit. The table is then shown to be the encoding
  of the program its comments describe, written with register names and loops.
\<close>

section \<open>Format\<close>

abbreviation DCD_TAG_HEADER :: u8 where "DCD_TAG_HEADER \<equiv> 0xD2"
abbreviation DCD_VERSION :: u8 where "DCD_VERSION \<equiv> 0x41"

datatype dcd_command =
    Write_value "(u32 \<times> u32) list"      \<comment> \<open>a merged write command: addresses and values\<close>
  | Check_any_bit_set u32 u32             \<comment> \<open>wait until a bit of the value is set at the address\<close>

definition be16 :: "nat \<Rightarrow> u8 list" where
  "be16 n = [of_nat (n div 256), of_nat (n mod 256)]"

definition be32 :: "u32 \<Rightarrow> u8 list" where
  "be32 w = [ucast (drop_bit 24 w), ucast (drop_bit 16 w), ucast (drop_bit 8 w), ucast w]"

definition encode_write :: "u32 \<times> u32 \<Rightarrow> u8 list" where
  "encode_write aw = be32 (fst aw) @ be32 (snd aw)"

fun encode_command :: "dcd_command \<Rightarrow> u8 list" where
  "encode_command (Write_value ws) = 0xCC # be16 (4 + 8 * length ws) @ 0x04 # concat (map encode_write ws)"
| "encode_command (Check_any_bit_set a v) = 0xCF # be16 12 @ 0x1C # be32 a @ be32 v"

definition encode_dcd :: "dcd_command list \<Rightarrow> u8 list" where
  "encode_dcd cs = (let body = concat (map encode_command cs)
     in DCD_TAG_HEADER # be16 (4 + length body) @ DCD_VERSION # body)"

definition of_be16 :: "u8 \<Rightarrow> u8 \<Rightarrow> nat" where
  "of_be16 a b = unat a * 256 + unat b"

definition of_be32 :: "u8 \<Rightarrow> u8 \<Rightarrow> u8 \<Rightarrow> u8 \<Rightarrow> u32" where
  "of_be32 a b c d = or (push_bit 24 (ucast a)) (or (push_bit 16 (ucast b)) (or (push_bit 8 (ucast c)) (ucast d)))"

fun decode_writes :: "u8 list \<Rightarrow> (u32 \<times> u32) list option" where
  "decode_writes [] = Some []"
| "decode_writes (a # b # c # d # e # f # g # h # bs) =
     map_option ((#) (of_be32 a b c d, of_be32 e f g h)) (decode_writes bs)"
| "decode_writes _ = None"

definition decode_command :: "u8 \<Rightarrow> u8 \<Rightarrow> u8 list \<Rightarrow> dcd_command option" where
  "decode_command tag par body =
     (if tag = 0xCC \<and> par = 0x04 then map_option Write_value (decode_writes body)
      else if tag = 0xCF \<and> par = 0x1C then
        case decode_writes body of Some [(a, v)] \<Rightarrow> Some (Check_any_bit_set a v) | _ \<Rightarrow> None
      else None)"

function decode_commands :: "u8 list \<Rightarrow> dcd_command list option" where
  "decode_commands [] = Some []"
| "decode_commands [a] = None"
| "decode_commands [a, b] = None"
| "decode_commands [a, b, c] = None"
| "decode_commands (tag # l1 # l2 # par # bs) =
     (let n = of_be16 l1 l2 in
      if n < 4 \<or> length bs < n - 4 then None
      else case decode_command tag par (take (n - 4) bs) of
             None \<Rightarrow> None
           | Some c \<Rightarrow> map_option ((#) c) (decode_commands (drop (n - 4) bs)))"
  by pat_completeness auto
termination by (relation "measure length") auto

text \<open>A table is valid when its header has the right tag, version and length.\<close>

fun decode_dcd :: "u8 list \<Rightarrow> dcd_command list option" where
  "decode_dcd (tag # l1 # l2 # ver # bs) =
     (if tag = DCD_TAG_HEADER \<and> ver = DCD_VERSION \<and> of_be16 l1 l2 = 4 + length bs
      then decode_commands bs else None)"
| "decode_dcd _ = None"

section \<open>The table\<close>

text \<open>The header and the header of the first command, lines 15 to 27.\<close>

definition dcd_header :: "u8 list" where
  "dcd_header = [
     0xD2,
     0x04, 0x10,
     0x41,
     0xCC, 0x03, 0x8C, 0x04]"

text \<open>Clock gates and clocks, \<^verbatim>\<open>#1.1\<close> to \<^verbatim>\<open>#1.10\<close>.\<close>

definition dcd_clock_writes :: "u8 list" where
  "dcd_clock_writes = [
     0x40, 0x0F, 0xC0, 0x68, 0xFF, 0xFF, 0xFF, 0xFF,
     0x40, 0x0F, 0xC0, 0x6C, 0xFF, 0xFF, 0xFF, 0xFF,
     0x40, 0x0F, 0xC0, 0x70, 0xFF, 0xFF, 0xFF, 0xFF,
     0x40, 0x0F, 0xC0, 0x74, 0xFF, 0xFF, 0xFF, 0xFF,
     0x40, 0x0F, 0xC0, 0x78, 0xFF, 0xFF, 0xFF, 0xFF,
     0x40, 0x0F, 0xC0, 0x7C, 0xFF, 0xFF, 0xFF, 0xFF,
     0x40, 0x0F, 0xC0, 0x80, 0xFF, 0xFF, 0xFF, 0xFF,
     0x40, 0x0D, 0x80, 0x30, 0x00, 0x00, 0x20, 0x01,
     0x40, 0x0D, 0x81, 0x00, 0x10, 0x1D, 0x10, 0x1B,
     0x40, 0x0F, 0xC0, 0x14, 0x00, 0x01, 0x0D, 0x40]"

text \<open>Pin multiplexers of \<^verbatim>\<open>EMC_00\<close> to \<^verbatim>\<open>EMC_19\<close>, \<^verbatim>\<open>#1.11\<close> to \<^verbatim>\<open>#1.30\<close>.\<close>

definition dcd_mux_writes :: "u8 list" where
  "dcd_mux_writes = [
     0x40, 0x1F, 0x80, 0x14, 0x00, 0x00, 0x00, 0x00,
     0x40, 0x1F, 0x80, 0x18, 0x00, 0x00, 0x00, 0x00,
     0x40, 0x1F, 0x80, 0x1C, 0x00, 0x00, 0x00, 0x00,
     0x40, 0x1F, 0x80, 0x20, 0x00, 0x00, 0x00, 0x00,
     0x40, 0x1F, 0x80, 0x24, 0x00, 0x00, 0x00, 0x00,
     0x40, 0x1F, 0x80, 0x28, 0x00, 0x00, 0x00, 0x00,
     0x40, 0x1F, 0x80, 0x2C, 0x00, 0x00, 0x00, 0x00,
     0x40, 0x1F, 0x80, 0x30, 0x00, 0x00, 0x00, 0x00,
     0x40, 0x1F, 0x80, 0x34, 0x00, 0x00, 0x00, 0x00,
     0x40, 0x1F, 0x80, 0x38, 0x00, 0x00, 0x00, 0x00,
     0x40, 0x1F, 0x80, 0x3C, 0x00, 0x00, 0x00, 0x00,
     0x40, 0x1F, 0x80, 0x40, 0x00, 0x00, 0x00, 0x00,
     0x40, 0x1F, 0x80, 0x44, 0x00, 0x00, 0x00, 0x00,
     0x40, 0x1F, 0x80, 0x48, 0x00, 0x00, 0x00, 0x00,
     0x40, 0x1F, 0x80, 0x4C, 0x00, 0x00, 0x00, 0x00,
     0x40, 0x1F, 0x80, 0x50, 0x00, 0x00, 0x00, 0x00,
     0x40, 0x1F, 0x80, 0x54, 0x00, 0x00, 0x00, 0x00,
     0x40, 0x1F, 0x80, 0x58, 0x00, 0x00, 0x00, 0x00,
     0x40, 0x1F, 0x80, 0x5C, 0x00, 0x00, 0x00, 0x00,
     0x40, 0x1F, 0x80, 0x60, 0x00, 0x00, 0x00, 0x00]"

text \<open>Pin multiplexers of \<^verbatim>\<open>EMC_20\<close> to \<^verbatim>\<open>EMC_39\<close>, \<^verbatim>\<open>#1.31\<close> to \<^verbatim>\<open>#1.50\<close>.\<close>

definition dcd_mux_writes2 :: "u8 list" where
  "dcd_mux_writes2 = [
     0x40, 0x1F, 0x80, 0x64, 0x00, 0x00, 0x00, 0x00,
     0x40, 0x1F, 0x80, 0x68, 0x00, 0x00, 0x00, 0x00,
     0x40, 0x1F, 0x80, 0x6C, 0x00, 0x00, 0x00, 0x00,
     0x40, 0x1F, 0x80, 0x70, 0x00, 0x00, 0x00, 0x00,
     0x40, 0x1F, 0x80, 0x74, 0x00, 0x00, 0x00, 0x00,
     0x40, 0x1F, 0x80, 0x78, 0x00, 0x00, 0x00, 0x00,
     0x40, 0x1F, 0x80, 0x7C, 0x00, 0x00, 0x00, 0x00,
     0x40, 0x1F, 0x80, 0x80, 0x00, 0x00, 0x00, 0x00,
     0x40, 0x1F, 0x80, 0x84, 0x00, 0x00, 0x00, 0x00,
     0x40, 0x1F, 0x80, 0x88, 0x00, 0x00, 0x00, 0x00,
     0x40, 0x1F, 0x80, 0x8C, 0x00, 0x00, 0x00, 0x00,
     0x40, 0x1F, 0x80, 0x90, 0x00, 0x00, 0x00, 0x00,
     0x40, 0x1F, 0x80, 0x94, 0x00, 0x00, 0x00, 0x00,
     0x40, 0x1F, 0x80, 0x98, 0x00, 0x00, 0x00, 0x00,
     0x40, 0x1F, 0x80, 0x9C, 0x00, 0x00, 0x00, 0x00,
     0x40, 0x1F, 0x80, 0xA0, 0x00, 0x00, 0x00, 0x00,
     0x40, 0x1F, 0x80, 0xA4, 0x00, 0x00, 0x00, 0x00,
     0x40, 0x1F, 0x80, 0xA8, 0x00, 0x00, 0x00, 0x00,
     0x40, 0x1F, 0x80, 0xAC, 0x00, 0x00, 0x00, 0x00,
     0x40, 0x1F, 0x80, 0xB0, 0x00, 0x00, 0x00, 0x10]"

text \<open>Pad controls of \<^verbatim>\<open>EMC_00\<close> to \<^verbatim>\<open>EMC_19\<close>, \<^verbatim>\<open>#1.51\<close> to \<^verbatim>\<open>#1.70\<close>.\<close>

definition dcd_pad_writes :: "u8 list" where
  "dcd_pad_writes = [
     0x40, 0x1F, 0x82, 0x04, 0x00, 0x01, 0x10, 0xF9,
     0x40, 0x1F, 0x82, 0x08, 0x00, 0x01, 0x10, 0xF9,
     0x40, 0x1F, 0x82, 0x0C, 0x00, 0x01, 0x10, 0xF9,
     0x40, 0x1F, 0x82, 0x10, 0x00, 0x01, 0x10, 0xF9,
     0x40, 0x1F, 0x82, 0x14, 0x00, 0x01, 0x10, 0xF9,
     0x40, 0x1F, 0x82, 0x18, 0x00, 0x01, 0x10, 0xF9,
     0x40, 0x1F, 0x82, 0x1C, 0x00, 0x01, 0x10, 0xF9,
     0x40, 0x1F, 0x82, 0x20, 0x00, 0x01, 0x10, 0xF9,
     0x40, 0x1F, 0x82, 0x24, 0x00, 0x01, 0x10, 0xF9,
     0x40, 0x1F, 0x82, 0x28, 0x00, 0x01, 0x10, 0xF9,
     0x40, 0x1F, 0x82, 0x2C, 0x00, 0x01, 0x10, 0xF9,
     0x40, 0x1F, 0x82, 0x30, 0x00, 0x01, 0x10, 0xF9,
     0x40, 0x1F, 0x82, 0x34, 0x00, 0x01, 0x10, 0xF9,
     0x40, 0x1F, 0x82, 0x38, 0x00, 0x01, 0x10, 0xF9,
     0x40, 0x1F, 0x82, 0x3C, 0x00, 0x01, 0x10, 0xF9,
     0x40, 0x1F, 0x82, 0x40, 0x00, 0x01, 0x10, 0xF9,
     0x40, 0x1F, 0x82, 0x44, 0x00, 0x01, 0x10, 0xF9,
     0x40, 0x1F, 0x82, 0x48, 0x00, 0x01, 0x10, 0xF9,
     0x40, 0x1F, 0x82, 0x4C, 0x00, 0x01, 0x10, 0xF9,
     0x40, 0x1F, 0x82, 0x50, 0x00, 0x01, 0x10, 0xF9]"

text \<open>Pad controls of \<^verbatim>\<open>EMC_20\<close> to \<^verbatim>\<open>EMC_39\<close>, \<^verbatim>\<open>#1.71\<close> to \<^verbatim>\<open>#1.90\<close>.\<close>

definition dcd_pad_writes2 :: "u8 list" where
  "dcd_pad_writes2 = [
     0x40, 0x1F, 0x82, 0x54, 0x00, 0x01, 0x10, 0xF9,
     0x40, 0x1F, 0x82, 0x58, 0x00, 0x01, 0x10, 0xF9,
     0x40, 0x1F, 0x82, 0x5C, 0x00, 0x01, 0x10, 0xF9,
     0x40, 0x1F, 0x82, 0x60, 0x00, 0x01, 0x10, 0xF9,
     0x40, 0x1F, 0x82, 0x64, 0x00, 0x01, 0x10, 0xF9,
     0x40, 0x1F, 0x82, 0x68, 0x00, 0x01, 0x10, 0xF9,
     0x40, 0x1F, 0x82, 0x6C, 0x00, 0x01, 0x10, 0xF9,
     0x40, 0x1F, 0x82, 0x70, 0x00, 0x01, 0x10, 0xF9,
     0x40, 0x1F, 0x82, 0x74, 0x00, 0x01, 0x10, 0xF9,
     0x40, 0x1F, 0x82, 0x78, 0x00, 0x01, 0x10, 0xF9,
     0x40, 0x1F, 0x82, 0x7C, 0x00, 0x01, 0x10, 0xF9,
     0x40, 0x1F, 0x82, 0x80, 0x00, 0x01, 0x10, 0xF9,
     0x40, 0x1F, 0x82, 0x84, 0x00, 0x01, 0x10, 0xF9,
     0x40, 0x1F, 0x82, 0x88, 0x00, 0x01, 0x10, 0xF9,
     0x40, 0x1F, 0x82, 0x8C, 0x00, 0x01, 0x10, 0xF9,
     0x40, 0x1F, 0x82, 0x90, 0x00, 0x01, 0x10, 0xF9,
     0x40, 0x1F, 0x82, 0x94, 0x00, 0x01, 0x10, 0xF9,
     0x40, 0x1F, 0x82, 0x98, 0x00, 0x01, 0x10, 0xF9,
     0x40, 0x1F, 0x82, 0x9C, 0x00, 0x01, 0x10, 0xF9,
     0x40, 0x1F, 0x82, 0xA0, 0x00, 0x01, 0x10, 0xF9]"

text \<open>The external memory controller, \<^verbatim>\<open>#1.91\<close> to \<^verbatim>\<open>#1.113\<close>.\<close>

definition dcd_semc_writes :: "u8 list" where
  "dcd_semc_writes = [
     0x40, 0x2F, 0x00, 0x00, 0x10, 0x00, 0x00, 0x04,
     0x40, 0x2F, 0x00, 0x08, 0x00, 0x00, 0x00, 0x81,
     0x40, 0x2F, 0x00, 0x0C, 0x00, 0x00, 0x00, 0x81,
     0x40, 0x2F, 0x00, 0x10, 0x80, 0x00, 0x00, 0x1B,
     0x40, 0x2F, 0x00, 0x14, 0x82, 0x00, 0x00, 0x1B,
     0x40, 0x2F, 0x00, 0x18, 0x84, 0x00, 0x00, 0x1B,
     0x40, 0x2F, 0x00, 0x1C, 0x86, 0x00, 0x00, 0x1B,
     0x40, 0x2F, 0x00, 0x20, 0x90, 0x00, 0x00, 0x21,
     0x40, 0x2F, 0x00, 0x24, 0xA0, 0x00, 0x00, 0x19,
     0x40, 0x2F, 0x00, 0x28, 0xA8, 0x00, 0x00, 0x17,
     0x40, 0x2F, 0x00, 0x2C, 0xA9, 0x00, 0x00, 0x1B,
     0x40, 0x2F, 0x00, 0x30, 0x00, 0x00, 0x00, 0x21,
     0x40, 0x2F, 0x00, 0x04, 0x00, 0x00, 0x79, 0xA8,
     0x40, 0x2F, 0x00, 0x40, 0x00, 0x00, 0x0F, 0x07,
     0x40, 0x2F, 0x00, 0x44, 0x00, 0x65, 0x29, 0x22,
     0x40, 0x2F, 0x00, 0x48, 0x00, 0x01, 0x09, 0x20,
     0x40, 0x2F, 0x00, 0x4C, 0x50, 0x21, 0x0A, 0x08,
     0x40, 0x2F, 0x00, 0x80, 0x00, 0x00, 0x00, 0x21,
     0x40, 0x2F, 0x00, 0x84, 0x00, 0x88, 0x88, 0x88,
     0x40, 0x2F, 0x00, 0x94, 0x00, 0x00, 0x00, 0x02,
     0x40, 0x2F, 0x00, 0x98, 0x00, 0x00, 0x00, 0x00,
     0x40, 0x2F, 0x00, 0x90, 0x80, 0x00, 0x00, 0x00,
     0x40, 0x2F, 0x00, 0x9C, 0xA5, 0x5A, 0x00, 0x0F]"

text \<open>The start of the SDRAM, \<^verbatim>\<open>#2\<close> to \<^verbatim>\<open>#9\<close>.\<close>

definition dcd_sdram_start :: "u8 list" where
  "dcd_sdram_start = [
     0xCF, 0x00, 0x0C, 0x1C, 0x40, 0x2F, 0x00, 0x3C, 0x00, 0x00, 0x00, 0x01,
     0xCC, 0x00, 0x14, 0x04,
     0x40, 0x2F, 0x00, 0x90, 0x80, 0x00, 0x00, 0x00,
     0x40, 0x2F, 0x00, 0x9C, 0xA5, 0x5A, 0x00, 0x0C,
     0xCF, 0x00, 0x0C, 0x1C, 0x40, 0x2F, 0x00, 0x3C, 0x00, 0x00, 0x00, 0x01,
     0xCC, 0x00, 0x14, 0x04,
     0x40, 0x2F, 0x00, 0x90, 0x80, 0x00, 0x00, 0x00,
     0x40, 0x2F, 0x00, 0x9C, 0xA5, 0x5A, 0x00, 0x0C,
     0xCF, 0x00, 0x0C, 0x1C, 0x40, 0x2F, 0x00, 0x3C, 0x00, 0x00, 0x00, 0x01,
     0xCC, 0x00, 0x1C, 0x04,
     0x40, 0x2F, 0x00, 0xA0, 0x00, 0x00, 0x00, 0x30,
     0x40, 0x2F, 0x00, 0x90, 0x80, 0x00, 0x00, 0x00,
     0x40, 0x2F, 0x00, 0x9C, 0xA5, 0x5A, 0x00, 0x0A,
     0xCF, 0x00, 0x0C, 0x1C, 0x40, 0x2F, 0x00, 0x3C, 0x00, 0x00, 0x00, 0x01,
     0xCC, 0x00, 0x0C, 0x04, 0x40, 0x2F, 0x00, 0x4C, 0x50, 0x21, 0x0A, 0x09]"

definition dcd_data :: "u8 list" where
  "dcd_data = dcd_header @ dcd_clock_writes @ dcd_mux_writes @ dcd_mux_writes2 @ dcd_pad_writes @ dcd_pad_writes2 @
     dcd_semc_writes @ dcd_sdram_start"

text \<open>The table of a build without \<^verbatim>\<open>XIP_BOOT_HEADER_DCD_ENABLE\<close>.\<close>

definition dcd_data_disabled :: "u8 list" where
  "dcd_data_disabled = [0x00]"

lemmas dcd_table_defs = dcd_header_def dcd_clock_writes_def dcd_mux_writes_def dcd_mux_writes2_def
  dcd_pad_writes_def dcd_pad_writes2_def dcd_semc_writes_def dcd_sdram_start_def

section \<open>Decoding what was encoded\<close>

lemma of_be32_be32:
  "of_be32 (ucast (drop_bit 24 w)) (ucast (drop_bit 16 w)) (ucast (drop_bit 8 w)) (ucast w) = w"
proof (rule bit_word_eqI)
  fix n assume "n < LENGTH(32)"
  then consider "n < 8" | "8 \<le> n" "n < 16" | "16 \<le> n" "n < 24" | "24 \<le> n" "n < 32" by fastforce
  then show "bit (of_be32 (ucast (drop_bit 24 w)) (ucast (drop_bit 16 w)) (ucast (drop_bit 8 w)) (ucast w)) n = bit w n"
    by cases (auto simp: of_be32_def bit_simps)
qed

lemma unat_of_nat_u8: "n < 256 \<Longrightarrow> unat (of_nat n :: u8) = n"
  unfolding unsigned_of_nat by (simp add: take_bit_nat_def)

lemma of_be16_be16: "n < 65536 \<Longrightarrow> of_be16 (of_nat (n div 256)) (of_nat (n mod 256)) = n"
  by (simp add: of_be16_def unat_of_nat_u8)

lemma decode_encode_writes: "decode_writes (concat (map encode_write ws)) = Some ws"
  by (induction ws) (simp_all add: encode_write_def be32_def of_be32_be32)

lemma length_encode_writes [simp]: "length (concat (map encode_write ws)) = 8 * length ws"
  by (induction ws) (simp_all add: encode_write_def be32_def)

text \<open>A command fits when its length fits 16 bits.\<close>

fun command_fits :: "dcd_command \<Rightarrow> bool" where
  "command_fits (Write_value ws) = (length ws < 8192 - 1)"
| "command_fits (Check_any_bit_set a v) = True"

lemma decode_encode_command:
  assumes "command_fits c"
  shows "decode_commands (encode_command c @ bs) = map_option ((#) c) (decode_commands bs)"
proof (cases c)
  case (Write_value ws)
  let ?n = "4 + 8 * length ws"
  have n: "of_be16 (of_nat (?n div 256)) (of_nat (?n mod 256)) = ?n"
    by (rule of_be16_be16) (use assms Write_value in simp)
  show ?thesis
    unfolding Write_value encode_command.simps be16_def append.simps decode_commands.simps n
    by (simp add: decode_command_def decode_encode_writes Let_def)
next
  case (Check_any_bit_set a v)
  have "decode_writes (be32 a @ be32 v) = Some [(a, v)]"
    using decode_encode_writes [of "[(a, v)]"] by (simp add: encode_write_def)
  with Check_any_bit_set show ?thesis
    by (simp add: be16_def be32_def of_be16_def decode_command_def Let_def)
qed

lemma decode_encode_commands:
  "\<forall>c \<in> set cs. command_fits c \<Longrightarrow> decode_commands (concat (map encode_command cs)) = Some cs"
  by (induction cs) (simp_all add: decode_encode_command)

lemma decode_encode_dcd:
  assumes "\<forall>c \<in> set cs. command_fits c" and "length (encode_dcd cs) < 65536"
  shows "decode_dcd (encode_dcd cs) = Some cs"
proof -
  let ?body = "concat (map encode_command cs)"
  have "of_be16 (of_nat ((4 + length ?body) div 256)) (of_nat ((4 + length ?body) mod 256)) = 4 + length ?body"
    by (rule of_be16_be16) (use assms(2) in \<open>simp add: encode_dcd_def be16_def Let_def\<close>)
  then show ?thesis
    using decode_encode_commands [OF assms(1)] by (simp add: encode_dcd_def be16_def Let_def)
qed

text \<open>The configuration format can be read back: every program of write and check commands that
  fits the two length fields is recovered by the decoder from its encoding; in particular no
  two such programs have the same table.\<close>

theorem dcd_round_trip:
  assumes "\<forall>c \<in> set cs. command_fits c" and "length (encode_dcd cs) < 65536"
  shows "decode_dcd (encode_dcd cs) = Some cs"
  using assms by (rule decode_encode_dcd)

theorem dcd_round_trip_witness:
  "decode_dcd (encode_dcd [Write_value [(0x400FC068, 5)], Check_any_bit_set 0x402F003C 1]) =
     Some [Write_value [(0x400FC068, 5)], Check_any_bit_set 0x402F003C 1]"
  by (rule dcd_round_trip) (simp_all add: encode_dcd_def be16_def be32_def encode_write_def Let_def)

section \<open>The program of the table\<close>

definition CCM_CCGR :: "nat \<Rightarrow> u32" where "CCM_CCGR n = 0x400FC068 + 4 * of_nat n"
abbreviation CCM_CBCDR :: u32 where "CCM_CBCDR \<equiv> 0x400FC014"
abbreviation CCM_ANALOG_PLL_SYS :: u32 where "CCM_ANALOG_PLL_SYS \<equiv> 0x400D8030"
abbreviation CCM_ANALOG_PFD_528 :: u32 where "CCM_ANALOG_PFD_528 \<equiv> 0x400D8100"
definition SW_MUX_CTL_PAD_GPIO_EMC :: "nat \<Rightarrow> u32" where "SW_MUX_CTL_PAD_GPIO_EMC n = 0x401F8014 + 4 * of_nat n"
definition SW_PAD_CTL_PAD_GPIO_EMC :: "nat \<Rightarrow> u32" where "SW_PAD_CTL_PAD_GPIO_EMC n = 0x401F8204 + 4 * of_nat n"
definition SEMC :: "u32 \<Rightarrow> u32" where "SEMC offset = 0x402F0000 + offset"
definition SEMC_BR :: "nat \<Rightarrow> u32" where "SEMC_BR n = SEMC 0x10 + 4 * of_nat n"
abbreviation SEMC_MCR :: u32 where "SEMC_MCR \<equiv> SEMC 0x00"
abbreviation SEMC_IOCR :: u32 where "SEMC_IOCR \<equiv> SEMC 0x04"
abbreviation SEMC_BMCR0 :: u32 where "SEMC_BMCR0 \<equiv> SEMC 0x08"
abbreviation SEMC_BMCR1 :: u32 where "SEMC_BMCR1 \<equiv> SEMC 0x0C"
abbreviation SEMC_INTR :: u32 where "SEMC_INTR \<equiv> SEMC 0x3C"
abbreviation SEMC_SDRAMCR0 :: u32 where "SEMC_SDRAMCR0 \<equiv> SEMC 0x40"
abbreviation SEMC_SDRAMCR1 :: u32 where "SEMC_SDRAMCR1 \<equiv> SEMC 0x44"
abbreviation SEMC_SDRAMCR2 :: u32 where "SEMC_SDRAMCR2 \<equiv> SEMC 0x48"
abbreviation SEMC_SDRAMCR3 :: u32 where "SEMC_SDRAMCR3 \<equiv> SEMC 0x4C"
abbreviation SEMC_DBICR0 :: u32 where "SEMC_DBICR0 \<equiv> SEMC 0x80"
abbreviation SEMC_DBICR1 :: u32 where "SEMC_DBICR1 \<equiv> SEMC 0x84"
abbreviation SEMC_IPCR0 :: u32 where "SEMC_IPCR0 \<equiv> SEMC 0x90"
abbreviation SEMC_IPCR1 :: u32 where "SEMC_IPCR1 \<equiv> SEMC 0x94"
abbreviation SEMC_IPCR2 :: u32 where "SEMC_IPCR2 \<equiv> SEMC 0x98"
abbreviation SEMC_IPCMD :: u32 where "SEMC_IPCMD \<equiv> SEMC 0x9C"
abbreviation SEMC_IPTXDAT :: u32 where "SEMC_IPTXDAT \<equiv> SEMC 0xA0"

definition clock_program :: "(u32 \<times> u32) list" where
  "clock_program = map (\<lambda>n. (CCM_CCGR n, 0xFFFFFFFF)) [0..<7] @
     [(CCM_ANALOG_PLL_SYS, 0x2001), (CCM_ANALOG_PFD_528, 0x101D101B), (CCM_CBCDR, 0x10D40)]"

definition mux_program :: "nat \<Rightarrow> nat \<Rightarrow> (u32 \<times> u32) list" where
  "mux_program i j = map (\<lambda>n. (SW_MUX_CTL_PAD_GPIO_EMC n, if n = 39 then 0x10 else 0)) [i..<j]"

definition pad_program :: "nat \<Rightarrow> nat \<Rightarrow> (u32 \<times> u32) list" where
  "pad_program i j = map (\<lambda>n. (SW_PAD_CTL_PAD_GPIO_EMC n, 0x110F9)) [i..<j]"

definition semc_program :: "(u32 \<times> u32) list" where
  "semc_program = [(SEMC_MCR, 0x10000004), (SEMC_BMCR0, 0x81), (SEMC_BMCR1, 0x81)] @
     map (\<lambda>n. (SEMC_BR n, [0x8000001B, 0x8200001B, 0x8400001B, 0x8600001B, 0x90000021, 0xA0000019,
                           0xA8000017, 0xA900001B, 0x21] ! n)) [0..<9] @
     [(SEMC_IOCR, 0x79A8), (SEMC_SDRAMCR0, 0xF07), (SEMC_SDRAMCR1, 0x652922), (SEMC_SDRAMCR2, 0x10920),
      (SEMC_SDRAMCR3, 0x50210A08), (SEMC_DBICR0, 0x21), (SEMC_DBICR1, 0x888888),
      (SEMC_IPCR1, 0x02), (SEMC_IPCR2, 0x00), (SEMC_IPCR0, 0x80000000), (SEMC_IPCMD, 0xA55A000F)]"

abbreviation wait_done :: dcd_command where
  "wait_done \<equiv> Check_any_bit_set SEMC_INTR 0x01"

definition sdram_program :: "dcd_command list" where
  "sdram_program =
     [wait_done,
      Write_value [(SEMC_IPCR0, 0x80000000), (SEMC_IPCMD, 0xA55A000C)], wait_done,
      Write_value [(SEMC_IPCR0, 0x80000000), (SEMC_IPCMD, 0xA55A000C)], wait_done,
      Write_value [(SEMC_IPTXDAT, 0x30), (SEMC_IPCR0, 0x80000000), (SEMC_IPCMD, 0xA55A000A)], wait_done,
      Write_value [(SEMC_SDRAMCR3, 0x50210A09)]]"

definition dcd_program :: "dcd_command list" where
  "dcd_program = Write_value (clock_program @ mux_program 0 40 @ pad_program 0 40 @ semc_program) # sdram_program"

lemmas program_defs = clock_program_def mux_program_def pad_program_def semc_program_def sdram_program_def
  CCM_CCGR_def SW_MUX_CTL_PAD_GPIO_EMC_def SW_PAD_CTL_PAD_GPIO_EMC_def SEMC_def SEMC_BR_def

text \<open>Each piece of the table is the encoding of the piece of the program its comments give.\<close>

lemma encode_clock: "concat (map encode_write clock_program) = dcd_clock_writes"
  by (simp add: program_defs encode_write_def be32_def dcd_clock_writes_def upt_rec)

lemma encode_mux: "concat (map encode_write (mux_program 0 20)) = dcd_mux_writes"
  by code_simp

lemma encode_mux2: "concat (map encode_write (mux_program 20 40)) = dcd_mux_writes2"
  by code_simp

lemma encode_pad: "concat (map encode_write (pad_program 0 20)) = dcd_pad_writes"
  by code_simp

lemma encode_pad2: "concat (map encode_write (pad_program 20 40)) = dcd_pad_writes2"
  by code_simp

lemma encode_semc: "concat (map encode_write semc_program) = dcd_semc_writes"
  by code_simp

lemma encode_sdram: "concat (map encode_command sdram_program) = dcd_sdram_start"
  by code_simp

lemma upt_halves: "[0..<40] = [0..<20] @ [20..<40]"
  by (simp add: upt_add_eq_append [of 0 20 20, simplified])

lemma program_halves:
  "mux_program 0 40 = mux_program 0 20 @ mux_program 20 40" "pad_program 0 40 = pad_program 0 20 @ pad_program 20 40"
  by (simp_all add: mux_program_def pad_program_def upt_halves)

lemma program_length:
  "length (clock_program @ mux_program 0 40 @ pad_program 0 40 @ semc_program) = 113"
  by (simp add: clock_program_def mux_program_def pad_program_def semc_program_def)

lemma dcd_data_eq: "dcd_data = encode_dcd dcd_program"
proof -
  let ?ws = "clock_program @ mux_program 0 40 @ pad_program 0 40 @ semc_program"
  have ws: "concat (map encode_write ?ws) = dcd_clock_writes @ dcd_mux_writes @ dcd_mux_writes2 @
      dcd_pad_writes @ dcd_pad_writes2 @ dcd_semc_writes"
    by (simp only: program_halves map_append concat_append append.assoc
        encode_clock encode_mux encode_mux2 encode_pad encode_pad2 encode_semc)
  have body: "concat (map encode_command dcd_program) =
      0xCC # be16 908 @ 0x04 # concat (map encode_write ?ws) @ dcd_sdram_start"
    using program_length by (simp add: dcd_program_def encode_sdram del: map_append concat_append)
  have "length dcd_sdram_start = 128" by (simp add: dcd_sdram_start_def)
  with program_length have "length (concat (map encode_command dcd_program)) = 1036"
    unfolding body by (simp add: be16_def del: map_append concat_append)
  then have "encode_dcd dcd_program = DCD_TAG_HEADER # be16 1040 @ DCD_VERSION #
      0xCC # be16 908 @ 0x04 # concat (map encode_write ?ws) @ dcd_sdram_start"
    by (simp add: encode_dcd_def body Let_def del: map_append concat_append)
  then show ?thesis
    unfolding ws dcd_data_def by (simp add: be16_def dcd_header_def)
qed

lemma program_fits: "\<forall>c \<in> set dcd_program. command_fits c"
  using program_length by (simp add: dcd_program_def sdram_program_def)

lemma length_dcd_data: "length dcd_data = 1040"
  by (simp add: dcd_data_def dcd_table_defs)

lemma decode_dcd_data: "decode_dcd dcd_data = Some dcd_program"
proof -
  have "length (encode_dcd dcd_program) < 65536" using length_dcd_data by (simp add: dcd_data_eq)
  with program_fits show ?thesis unfolding dcd_data_eq by (rule decode_encode_dcd)
qed

text \<open>C13: the table of bytes is the program its comments describe: the 1040 bytes of \<^verbatim>\<open>dcd_data\<close> are the
  encoding of the program written with register names and loops (clock gates 0 to 6, the pads
  EMC 0 to 39, the registers of the memory controller, the start of the SDRAM), the lengths
  in the headers are right, and the decoder accepts the table and gives this program.\<close>

theorem dcd_table_is_program:
  "dcd_data = encode_dcd dcd_program \<and> length dcd_data = 1040 \<and> decode_dcd dcd_data = Some dcd_program"
  by (simp add: dcd_data_eq [symmetric] length_dcd_data decode_dcd_data)

section \<open>The order of the accesses\<close>

datatype boot_access = Store u32 u32 | Wait u32 u32

fun accesses :: "dcd_command list \<Rightarrow> boot_access list" where
  "accesses [] = []"
| "accesses (Write_value ws # cs) = map (\<lambda>(a, v). Store a v) ws @ accesses cs"
| "accesses (Check_any_bit_set a v # cs) = Wait a v # accesses cs"

text \<open>Every command to the memory is waited for before the next access.\<close>

fun commands_awaited :: "boot_access list \<Rightarrow> bool" where
  "commands_awaited [] = True"
| "commands_awaited (Store a v # xs) = ((a = SEMC_IPCMD \<longrightarrow> take 1 xs = [Wait SEMC_INTR 1]) \<and> commands_awaited xs)"
| "commands_awaited (Wait a v # xs) = commands_awaited xs"

definition stored_to :: "u32 \<Rightarrow> boot_access list \<Rightarrow> u32 list" where
  "stored_to r xs = [v. Store a v \<leftarrow> xs, a = r]"

lemma stored_to_append: "stored_to r (xs @ ys) = stored_to r xs @ stored_to r ys"
  by (simp add: stored_to_def)

definition setup_part :: "boot_access list" where
  "setup_part = map (\<lambda>(a, v). Store a v) (clock_program @ mux_program 0 40 @ pad_program 0 40)"

definition semc_part :: "boot_access list" where
  "semc_part = map (\<lambda>(a, v). Store a v) semc_program @ accesses sdram_program"

lemma accesses_program: "accesses dcd_program = setup_part @ semc_part"
  by (simp add: dcd_program_def setup_part_def semc_part_def)

text \<open>Stores outside of the memory controller's registers.\<close>

definition outside_semc :: "boot_access \<Rightarrow> bool" where
  "outside_semc x = (case x of Store a v \<Rightarrow> a < SEMC 0 | Wait a v \<Rightarrow> a < SEMC 0)"

lemma setup_outside: "list_all outside_semc setup_part"
  by code_simp

lemma setup_frame: "list_all outside_semc xs \<Longrightarrow> SEMC 0 \<le> r \<Longrightarrow> stored_to r xs = []"
  by (induction xs) (auto simp: stored_to_def outside_semc_def split: boot_access.splits)

lemma awaited_append:
  "list_all outside_semc xs \<Longrightarrow> commands_awaited ys \<Longrightarrow> commands_awaited (xs @ ys)"
proof (induction xs rule: commands_awaited.induct)
  case (2 a v xs)
  have "\<not> SEMC_IPCMD < SEMC 0" by (simp add: SEMC_def)
  with 2 show ?case by (auto simp: outside_semc_def)
qed simp_all

lemma semc_checks:
  "commands_awaited semc_part" "list_all (\<lambda>x. \<not> outside_semc x) semc_part"
  "stored_to SEMC_IPCMD semc_part = [0xA55A000F, 0xA55A000C, 0xA55A000C, 0xA55A000A]"
  "stored_to SEMC_SDRAMCR3 semc_part = [0x50210A08, 0x50210A09]"
  "last semc_part = Store SEMC_SDRAMCR3 0x50210A09" "semc_part \<noteq> []"
  by code_simp+

text \<open>C30: the SDRAM is started in order: in the accesses the table makes, all clocks and pins are set
  before the first access to the memory controller; the commands precharge, refresh, refresh and
  mode set are issued in this order and each is waited for before the next access; and the
  automatic refresh is off while they run and switched on by the last store.\<close>

theorem sdram_started_in_order:
  "\<exists>setup memory. map_option accesses (decode_dcd dcd_data) = Some (setup @ memory) \<and>
     list_all outside_semc setup \<and> list_all (\<lambda>x. \<not> outside_semc x) memory \<and>
     commands_awaited (setup @ memory) \<and>
     stored_to SEMC_IPCMD (setup @ memory) = [0xA55A000F, 0xA55A000C, 0xA55A000C, 0xA55A000A] \<and>
     stored_to SEMC_SDRAMCR3 (setup @ memory) = [0x50210A08, 0x50210A09] \<and>
     last (setup @ memory) = Store SEMC_SDRAMCR3 0x50210A09"
proof -
  have "SEMC 0 \<le> SEMC_IPCMD" "SEMC 0 \<le> SEMC_SDRAMCR3" by (simp_all add: SEMC_def)
  note none = this [THEN setup_frame [OF setup_outside]]
  have "commands_awaited (setup_part @ semc_part)"
    by (rule awaited_append [OF setup_outside semc_checks(1)])
  with none setup_outside semc_checks show ?thesis
    by (intro exI [of _ setup_part] exI [of _ semc_part])
      (simp add: decode_dcd_data accesses_program stored_to_append)
qed

end
