(* ===== verification/FlexspiProps.thy ===== *)
theory FlexspiProps
  imports FlexspiConfig
begin

text \<open>
  Properties of the flash configuration block: the layout of the structures in memory, the
  lookup table entries, the command set in the lookup table and the customised sequences.
\<close>

section \<open>Layout of a structure\<close>

text \<open>A member is an array of elements of one type; a single element is an array of one.\<close>

datatype member = M8 "u8 list" | M16 "u16 list" | M32 "u32 list" | Mseq "flexspi_lut_seq list"

definition le_u16 :: "u16 \<Rightarrow> u8 list" where
  "le_u16 w = [ucast w, ucast (drop_bit 8 w)]"

definition le_u32 :: "u32 \<Rightarrow> u8 list" where
  "le_u32 w = [ucast w, ucast (drop_bit 8 w), ucast (drop_bit 16 w), ucast (drop_bit 24 w)]"

fun member_bytes :: "member \<Rightarrow> u8 list" where
  "member_bytes (M8 xs) = xs"
| "member_bytes (M16 xs) = concat (map le_u16 xs)"
| "member_bytes (M32 xs) = concat (map le_u32 xs)"
| "member_bytes (Mseq xs) = concat (map (\<lambda>s. [seq_num s, seq_id s] @ le_u16 (seq_reserved s)) xs)"

fun member_align :: "member \<Rightarrow> nat" where
  "member_align (M8 xs) = 1" | "member_align (M16 xs) = 2" | "member_align (M32 xs) = 4" | "member_align (Mseq xs) = 2"

fun member_size :: "member \<Rightarrow> nat" where
  "member_size (M8 xs) = length xs" | "member_size (M16 xs) = 2 * length xs"
| "member_size (M32 xs) = 4 * length xs" | "member_size (Mseq xs) = 4 * length xs"

definition align_up :: "nat \<Rightarrow> nat \<Rightarrow> nat" where
  "align_up a n = (n + a - 1) div a * a"

text \<open>First and last byte of each member, when the structure's part starts at \<open>off\<close>; the offset
  after the last member; the bytes with padding.\<close>

fun layout :: "nat \<Rightarrow> (string \<times> member) list \<Rightarrow> (string \<times> nat \<times> nat) list" where
  "layout off [] = []"
| "layout off ((n, m) # ms) = (let s = align_up (member_align m) off
     in (n, s, s + member_size m - 1) # layout (s + member_size m) ms)"

fun layout_len :: "nat \<Rightarrow> (string \<times> member) list \<Rightarrow> nat" where
  "layout_len off [] = off"
| "layout_len off ((n, m) # ms) = layout_len (align_up (member_align m) off + member_size m) ms"

fun image :: "nat \<Rightarrow> (string \<times> member) list \<Rightarrow> u8 list" where
  "image off [] = []"
| "image off ((n, m) # ms) = (let s = align_up (member_align m) off
     in replicate (s - off) 0 @ member_bytes m @ image (s + member_size m) ms)"

definition struct_size :: "(string \<times> member) list \<Rightarrow> nat" where
  "struct_size ms = align_up 4 (layout_len 0 ms)"     \<comment> \<open>both structures have 32-bit members\<close>

lemma member_bytes_length [simp]: "length (member_bytes m) = member_size m"
proof (cases m)
  case (M16 xs)
  have "length (concat (map le_u16 xs)) = 2 * length xs" by (induction xs) (simp_all add: le_u16_def)
  with M16 show ?thesis by simp
next
  case (M32 xs)
  have "length (concat (map le_u32 xs)) = 4 * length xs" by (induction xs) (simp_all add: le_u32_def)
  with M32 show ?thesis by simp
next
  case (Mseq xs)
  have "length (concat (map (\<lambda>s. [seq_num s, seq_id s] @ le_u16 (seq_reserved s)) xs)) = 4 * length xs"
    by (induction xs) (simp_all add: le_u16_def)
  with Mseq show ?thesis by simp
qed simp

lemma align_up_ge: "0 < a \<Longrightarrow> n \<le> align_up a n"
proof -
  assume a: "0 < a"
  have "n + a - 1 = (n + a - 1) div a * a + (n + a - 1) mod a" by simp
  moreover have "(n + a - 1) mod a \<le> a - 1" using a mod_less_divisor [OF a, of "n + a - 1"] by linarith
  ultimately show "n \<le> align_up a n" using a unfolding align_up_def by linarith
qed

lemma member_align_pos [simp]: "0 < member_align m"
  by (cases m) simp_all

lemma image_length: "off + length (image off ms) = layout_len off ms"
proof (induction off ms rule: image.induct)
  case (2 off n m ms)
  have "off \<le> align_up (member_align m) off" by (rule align_up_ge) simp
  with 2 show ?case by (simp add: Let_def)
qed simp

text \<open>The layout only depends on alignments and sizes; on those it can be evaluated.\<close>

definition shape :: "string \<times> member \<Rightarrow> string \<times> nat \<times> nat" where
  "shape x = (case x of (n, m) \<Rightarrow> (n, member_align m, member_size m))"

fun shape_layout :: "nat \<Rightarrow> (string \<times> nat \<times> nat) list \<Rightarrow> (string \<times> nat \<times> nat) list" where
  "shape_layout off [] = []"
| "shape_layout off ((n, a, k) # ms) = (let s = align_up a off in (n, s, s + k - 1) # shape_layout (s + k) ms)"

fun shape_len :: "nat \<Rightarrow> (string \<times> nat \<times> nat) list \<Rightarrow> nat" where
  "shape_len off [] = off"
| "shape_len off ((n, a, k) # ms) = shape_len (align_up a off + k) ms"

lemma layout_shape: "layout off ms = shape_layout off (map shape ms)"
  by (induction off ms rule: layout.induct) (simp_all add: shape_def Let_def)

lemma layout_len_shape: "layout_len off ms = shape_len off (map shape ms)"
  by (induction off ms rule: layout_len.induct) (simp_all add: shape_def)

text \<open>A member's bytes are where the layout says.\<close>

lemma image_at:
  assumes "i < length ms"
  shows "\<exists>s. layout off ms ! i = (fst (ms ! i), s, s + member_size (snd (ms ! i)) - 1) \<and> off \<le> s \<and>
    take (member_size (snd (ms ! i))) (drop (s - off) (image off ms)) = member_bytes (snd (ms ! i))"
  using assms
proof (induction off ms arbitrary: i rule: image.induct)
  case (2 off n m ms)
  define s where "s = align_up (member_align m) off"
  have s: "off \<le> s" unfolding s_def by (rule align_up_ge) simp
  have img: "image off ((n, m) # ms) = replicate (s - off) 0 @ member_bytes m @ image (s + member_size m) ms"
    by (simp add: s_def Let_def)
  show ?case
  proof (cases i)
    case 0
    with s show ?thesis unfolding img by (intro exI [of _ s]) (simp add: s_def Let_def)
  next
    case (Suc j)
    with 2 obtain t where t: "layout (s + member_size m) ms ! j = (fst (ms ! j), t, t + member_size (snd (ms ! j)) - 1)"
      "s + member_size m \<le> t"
      "take (member_size (snd (ms ! j))) (drop (t - (s + member_size m)) (image (s + member_size m) ms)) = member_bytes (snd (ms ! j))"
      unfolding s_def by fastforce
    have "drop (t - off) (image off ((n, m) # ms)) = drop (t - (s + member_size m)) (image (s + member_size m) ms)"
      using s t(2) unfolding img by simp
    with t s Suc show ?thesis by (intro exI [of _ t]) (simp add: s_def Let_def)
  qed
qed simp

section \<open>The two structures\<close>

definition mem_members :: "flexspi_mem_config \<Rightarrow> (string \<times> member) list" where
  "mem_members c = [
     (''tag'', M32 [tag c]), (''version'', M32 [version c]),
     (''reserved0'', M32 [reserved0 c]), (''read_sample_clk_src'', M8 [read_sample_clk_src c]),
     (''cs_hold_time'', M8 [cs_hold_time c]), (''cs_setup_time'', M8 [cs_setup_time c]),
     (''column_address_width'', M8 [column_address_width c]), (''device_mode_cfg_enable'', M8 [device_mode_cfg_enable c]),
     (''device_mode_type'', M8 [device_mode_type c]), (''wait_time_cfg_commands'', M16 [wait_time_cfg_commands c]),
     (''device_mode_seq'', Mseq [device_mode_seq c]), (''device_mode_arg'', M32 [device_mode_arg c]),
     (''config_cmd_enable'', M8 [config_cmd_enable c]), (''config_mode_type'', M8 (config_mode_type c)),
     (''config_cmd_seqs'', Mseq (config_cmd_seqs c)), (''reserved1'', M32 [reserved1 c]),
     (''configCmdArgs'', M32 (configCmdArgs c)), (''reserved2'', M32 [reserved2 c]),
     (''controller_misc_option'', M32 [controller_misc_option c]), (''device_type'', M8 [device_type c]),
     (''sflash_pad_type'', M8 [sflash_pad_type c]), (''serial_clk_freq'', M8 [serial_clk_freq c]),
     (''lut_custom_seq_enable'', M8 [lut_custom_seq_enable c]), (''reserved3'', M32 (reserved3 c)),
     (''sflash_a1_size'', M32 [sflash_a1_size c]), (''sflash_a2_size'', M32 [sflash_a2_size c]),
     (''sflash_b1_size'', M32 [sflash_b1_size c]), (''sflash_b2_size'', M32 [sflash_b2_size c]),
     (''cs_pad_setting_override'', M32 [cs_pad_setting_override c]), (''sclk_pad_setting_override'', M32 [sclk_pad_setting_override c]),
     (''data_pad_setting_override'', M32 [data_pad_setting_override c]), (''dqs_pad_setting_override'', M32 [dqs_pad_setting_override c]),
     (''timeout_in_ms'', M32 [timeout_in_ms c]), (''command_interval'', M32 [command_interval c]),
     (''data_valid_time'', M16 (data_valid_time c)), (''busy_offset'', M16 [busy_offset c]),
     (''busy_bit_polarity'', M16 [busy_bit_polarity c]), (''lookup_table'', M32 (lookup_table c)),
     (''lut_custom_seq'', Mseq (lut_custom_seq c)), (''reserved4'', M32 (reserved4 c))]"

definition nor_members :: "flexspi_nor_config \<Rightarrow> (string \<times> member) list" where
  "nor_members c = [
     (''page_size'', M32 [page_size c]), (''sector_size'', M32 [sector_size c]),
     (''ipcmd_serial_clk_freq'', M8 [ipcmd_serial_clk_freq c]), (''is_uniform_block_size'', M8 [is_uniform_block_size c]),
     (''reserved0'', M8 (nor_reserved0 c)), (''serial_nor_type'', M8 [serial_nor_type c]),
     (''need_exit_nocmd_mode'', M8 [need_exit_nocmd_mode c]), (''half_clk_for_non_read_cmd'', M8 [half_clk_for_non_read_cmd c]),
     (''need_restore_nocmd_mode'', M8 [need_restore_nocmd_mode c]), (''block_size'', M32 [block_size c]),
     (''reserve2'', M32 (reserve2 c))]"

text \<open>The types of the array members.\<close>

definition mem_config_wf :: "flexspi_mem_config \<Rightarrow> bool" where
  "mem_config_wf c \<longleftrightarrow> length (config_mode_type c) = 3 \<and> length (config_cmd_seqs c) = 3 \<and> length (configCmdArgs c) = 3 \<and>
     length (reserved3 c) = 2 \<and> length (data_valid_time c) = 2 \<and> length (lookup_table c) = 64 \<and>
     length (lut_custom_seq c) = 12 \<and> length (reserved4 c) = 4"

definition nor_config_wf :: "flexspi_nor_config \<Rightarrow> bool" where
  "nor_config_wf c \<longleftrightarrow> mem_config_wf (mem_config c) \<and> length (nor_reserved0 c) = 2 \<and> length (reserve2 c) = 11"

definition nor_image :: "flexspi_nor_config \<Rightarrow> u8 list" where
  "nor_image c = (let ms = mem_members (mem_config c); size1 = struct_size ms;
       size2 = align_up 4 (layout_len size1 (nor_members c));
       part1 = image 0 ms; part2 = image size1 (nor_members c)
     in part1 @ replicate (size1 - length part1) 0 @ part2 @ replicate (size2 - (size1 + length part2)) 0)"

text \<open>The offsets in the comments of the header.\<close>

definition documented_offsets :: "(string \<times> nat \<times> nat) list" where
  "documented_offsets = [
     (''tag'', 0x000, 0x003),
     (''version'', 0x004, 0x007),
     (''reserved0'', 0x008, 0x00B),
     (''read_sample_clk_src'', 0x00C, 0x00C),
     (''cs_hold_time'', 0x00D, 0x00D),
     (''cs_setup_time'', 0x00E, 0x00E),
     (''column_address_width'', 0x00F, 0x00F),
     (''device_mode_cfg_enable'', 0x010, 0x010),
     (''device_mode_type'', 0x011, 0x011),
     (''wait_time_cfg_commands'', 0x012, 0x013),
     (''device_mode_seq'', 0x014, 0x017),
     (''device_mode_arg'', 0x018, 0x01B),
     (''config_cmd_enable'', 0x01C, 0x01C),
     (''config_mode_type'', 0x01D, 0x01F),
     (''config_cmd_seqs'', 0x020, 0x02B),
     (''reserved1'', 0x02C, 0x02F),
     (''configCmdArgs'', 0x030, 0x03B),
     (''reserved2'', 0x03C, 0x03F),
     (''controller_misc_option'', 0x040, 0x043),
     (''device_type'', 0x044, 0x044),
     (''sflash_pad_type'', 0x045, 0x045),
     (''serial_clk_freq'', 0x046, 0x046),
     (''lut_custom_seq_enable'', 0x047, 0x047),
     (''reserved3'', 0x048, 0x04F),
     (''sflash_a1_size'', 0x050, 0x053),
     (''sflash_a2_size'', 0x054, 0x057),
     (''sflash_b1_size'', 0x058, 0x05B),
     (''sflash_b2_size'', 0x05C, 0x05F),
     (''cs_pad_setting_override'', 0x060, 0x063),
     (''sclk_pad_setting_override'', 0x064, 0x067),
     (''data_pad_setting_override'', 0x068, 0x06B),
     (''dqs_pad_setting_override'', 0x06C, 0x06F),
     (''timeout_in_ms'', 0x070, 0x073),
     (''command_interval'', 0x074, 0x077),
     (''data_valid_time'', 0x078, 0x07B),
     (''busy_offset'', 0x07C, 0x07D),
     (''busy_bit_polarity'', 0x07E, 0x07F),
     (''lookup_table'', 0x080, 0x17F),
     (''lut_custom_seq'', 0x180, 0x1AF),
     (''reserved4'', 0x1B0, 0x1BF)]"

definition mem_shapes :: "(string \<times> nat \<times> nat) list" where
  "mem_shapes = [
     (''tag'', 4, 4), (''version'', 4, 4), (''reserved0'', 4, 4), (''read_sample_clk_src'', 1, 1),
     (''cs_hold_time'', 1, 1), (''cs_setup_time'', 1, 1), (''column_address_width'', 1, 1), (''device_mode_cfg_enable'', 1, 1),
     (''device_mode_type'', 1, 1), (''wait_time_cfg_commands'', 2, 2), (''device_mode_seq'', 2, 4), (''device_mode_arg'', 4, 4),
     (''config_cmd_enable'', 1, 1), (''config_mode_type'', 1, 3), (''config_cmd_seqs'', 2, 12), (''reserved1'', 4, 4),
     (''configCmdArgs'', 4, 12), (''reserved2'', 4, 4), (''controller_misc_option'', 4, 4), (''device_type'', 1, 1),
     (''sflash_pad_type'', 1, 1), (''serial_clk_freq'', 1, 1), (''lut_custom_seq_enable'', 1, 1), (''reserved3'', 4, 8),
     (''sflash_a1_size'', 4, 4), (''sflash_a2_size'', 4, 4), (''sflash_b1_size'', 4, 4), (''sflash_b2_size'', 4, 4),
     (''cs_pad_setting_override'', 4, 4), (''sclk_pad_setting_override'', 4, 4), (''data_pad_setting_override'', 4, 4), (''dqs_pad_setting_override'', 4, 4),
     (''timeout_in_ms'', 4, 4), (''command_interval'', 4, 4), (''data_valid_time'', 2, 4), (''busy_offset'', 2, 2),
     (''busy_bit_polarity'', 2, 2), (''lookup_table'', 4, 256), (''lut_custom_seq'', 2, 48), (''reserved4'', 4, 16)]"

definition nor_shapes :: "(string \<times> nat \<times> nat) list" where
  "nor_shapes = [
     (''page_size'', 4, 4), (''sector_size'', 4, 4), (''ipcmd_serial_clk_freq'', 1, 1), (''is_uniform_block_size'', 1, 1),
     (''reserved0'', 1, 2), (''serial_nor_type'', 1, 1), (''need_exit_nocmd_mode'', 1, 1), (''half_clk_for_non_read_cmd'', 1, 1),
     (''need_restore_nocmd_mode'', 1, 1), (''block_size'', 4, 4), (''reserve2'', 4, 44)]"

lemma mem_shapes: "mem_config_wf c \<Longrightarrow> map shape (mem_members c) = mem_shapes"
  by (simp add: mem_config_wf_def mem_members_def mem_shapes_def shape_def)

lemma nor_shapes: "nor_config_wf c \<Longrightarrow> map shape (nor_members c) = nor_shapes"
  by (simp add: nor_config_wf_def nor_members_def nor_shapes_def shape_def)

lemma shape_values:
  "shape_layout 0 mem_shapes = documented_offsets" "shape_len 0 mem_shapes = 0x1C0" "shape_len 0x1C0 nor_shapes = 512"
  by code_simp+

lemma mem_layout:
  assumes "mem_config_wf c"
  shows "layout 0 (mem_members c) = documented_offsets" and "layout_len 0 (mem_members c) = 0x1C0"
    and "struct_size (mem_members c) = 0x1C0"
  using assms by (simp_all add: layout_shape layout_len_shape mem_shapes shape_values struct_size_def align_up_def)

lemma nor_layout: "nor_config_wf c \<Longrightarrow> layout_len 0x1C0 (nor_members c) = 512"
  by (simp add: layout_len_shape nor_shapes shape_values)

text \<open>C25: the configuration block has the layout its header documents: for every value of the
  structure, the compiler's alignment rules put each member on the bytes given in the
  comments, with no padding in between; and the whole block is 512 bytes long, the size the boot ROM expects.\<close>

theorem config_block_layout:
  assumes "nor_config_wf c"
  shows "layout 0 (mem_members (mem_config c)) = documented_offsets \<and>
         length (image 0 (mem_members (mem_config c))) = (\<Sum>(n, m) \<leftarrow> mem_members (mem_config c). member_size m) \<and>
         length (nor_image c) = FLEXSPI_CFG_BLK_SIZE"
proof -
  have wf: "mem_config_wf (mem_config c)" using assms by (simp add: nor_config_wf_def)
  have len1: "length (image 0 (mem_members (mem_config c))) = 0x1C0"
    using image_length [of 0] mem_layout(2) [OF wf] by simp
  have len2: "length (image 0x1C0 (nor_members c)) = 64"
    using image_length [of "0x1C0" "nor_members c"] nor_layout [OF assms] by simp
  have "(\<Sum>(n, m) \<leftarrow> mem_members (mem_config c). member_size m) = 0x1C0"
    using wf by (simp add: mem_members_def mem_config_wf_def)
  with len1 len2 mem_layout [OF wf] nor_layout [OF assms] show ?thesis
    by (simp add: nor_image_def FLEXSPI_CFG_BLK_SIZE_def align_up_def Let_def)
qed

section \<open>Entries of the lookup table\<close>

text \<open>What the vendor's headers document of the macros: a shift and a mask.\<close>

definition lut_contract :: "lut_macros \<Rightarrow> bool" where
  "lut_contract m \<longleftrightarrow>
     (\<forall>x. LUT_OPERAND0 m x = and (push_bit 0 x) 0xFF) \<and> (\<forall>x. LUT_NUM_PADS0 m x = and (push_bit 8 x) 0x300) \<and>
     (\<forall>x. LUT_OPCODE0 m x = and (push_bit 10 x) 0xFC00) \<and> (\<forall>x. LUT_OPERAND1 m x = and (push_bit 16 x) 0xFF0000) \<and>
     (\<forall>x. LUT_NUM_PADS1 m x = and (push_bit 24 x) 0x3000000) \<and> (\<forall>x. LUT_OPCODE1 m x = and (push_bit 26 x) 0xFC000000)"

definition lut_field :: "nat \<Rightarrow> nat \<Rightarrow> u32 \<Rightarrow> u32" where
  "lut_field shift width w = take_bit width (drop_bit shift w)"

type_synonym lut_instr = "u32 \<times> u32 \<times> u32"      \<comment> \<open>opcode, pads, operand\<close>

definition decode_word :: "u32 \<Rightarrow> lut_instr list" where
  "decode_word w = [(lut_field 10 6 w, lut_field 8 2 w, lut_field 0 8 w), (lut_field 26 6 w, lut_field 24 2 w, lut_field 16 8 w)]"

lemma and_shifted_mask: "and (push_bit s x) (push_bit s (mask n)) = push_bit s (take_bit n (x :: u32))"
  by (simp add: take_bit_eq_mask push_bit_and)

lemma lut_masks:
  "(0xFF :: u32) = push_bit 0 (mask 8)" "(0x300 :: u32) = push_bit 8 (mask 2)" "(0xFC00 :: u32) = push_bit 10 (mask 6)"
  "(0xFF0000 :: u32) = push_bit 16 (mask 8)" "(0x3000000 :: u32) = push_bit 24 (mask 2)"
  "(0xFC000000 :: u32) = push_bit 26 (mask 6)"
  by (simp_all add: mask_eq_exp_minus_1 push_bit_eq_mult)

lemma lut_contractD:
  assumes "lut_contract m"
  shows "LUT_OPERAND0 m x = take_bit 8 x" "LUT_NUM_PADS0 m x = push_bit 8 (take_bit 2 x)"
    "LUT_OPCODE0 m x = push_bit 10 (take_bit 6 x)" "LUT_OPERAND1 m x = push_bit 16 (take_bit 8 x)"
    "LUT_NUM_PADS1 m x = push_bit 24 (take_bit 2 x)" "LUT_OPCODE1 m x = push_bit 26 (take_bit 6 x)"
  using assms unfolding lut_contract_def lut_masks and_shifted_mask by simp_all

lemma opcode_value_bits: "take_bit 6 (opcode_value c) = opcode_value c"
  by (cases c) (simp_all add: take_bit_eq_mod)

lemma pads_value_bits: "take_bit 2 (pads_value p) = pads_value p"
  by (cases p) (simp_all add: take_bit_eq_mod)

lemma decode_word_bits:
  fixes a b c d e f :: u32
  shows "decode_word (or (or (or (or (or (take_bit 8 a) (push_bit 8 (take_bit 2 b))) (push_bit 10 (take_bit 6 c)))
      (push_bit 16 (take_bit 8 d))) (push_bit 24 (take_bit 2 e))) (push_bit 26 (take_bit 6 f))) =
    [(take_bit 6 c, take_bit 2 b, take_bit 8 a), (take_bit 6 f, take_bit 2 e, take_bit 8 d)]"
  unfolding decode_word_def lut_field_def
  by (auto intro!: bit_word_eqI simp: bit_simps)

lemma decode_LUT_SEQ:
  assumes "lut_contract m"
  shows "decode_word (FLEXSPI_LUT_SEQ m c p x d q y) =
    [(opcode_value c, pads_value p, take_bit 8 x), (opcode_value d, pads_value q, take_bit 8 y)]"
  unfolding FLEXSPI_LUT_SEQ_def lut_contractD [OF assms] decode_word_bits
  by (simp add: opcode_value_bits pads_value_bits)

text \<open>Lookup table entries decode to what the macro was given: for all opcodes and pad counts
  of the header and all operands of a byte, the two instructions of \<^verbatim>\<open>FLEXSPI_LUT_SEQ\<close> are read back from
  the fields of the word; no field spills into another.\<close>

theorem lut_entry_reads_back:
  assumes "lut_contract m" "x < 256" "y < 256"
  shows "decode_word (FLEXSPI_LUT_SEQ m c p x d q y) =
    [(opcode_value c, pads_value p, x), (opcode_value d, pads_value q, y)]"
proof -
  have "take_bit 8 x = x" "take_bit 8 y = y"
    using assms(2,3) by (simp_all add: take_bit_eq_mod mod_word_less)
  then show ?thesis by (simp add: decode_LUT_SEQ [OF assms(1)])
qed

definition demo_macros :: lut_macros where
  "demo_macros = \<lparr>LUT_OPERAND0 = (\<lambda>x. and (push_bit 0 x) 0xFF), LUT_NUM_PADS0 = (\<lambda>x. and (push_bit 8 x) 0x300),
     LUT_OPCODE0 = (\<lambda>x. and (push_bit 10 x) 0xFC00), LUT_OPERAND1 = (\<lambda>x. and (push_bit 16 x) 0xFF0000),
     LUT_NUM_PADS1 = (\<lambda>x. and (push_bit 24 x) 0x3000000), LUT_OPCODE1 = (\<lambda>x. and (push_bit 26 x) 0xFC000000)\<rparr>"

lemma demo_macros_contract: "lut_contract demo_macros"
  by (simp add: lut_contract_def demo_macros_def)

theorem lut_entry_reads_back_witness:
  "decode_word (FLEXSPI_LUT_SEQ demo_macros CMD_DDR FLEXSPI_8PAD 0xA0 RADDR_DDR FLEXSPI_8PAD 0x18) =
     [(0x21, 3, 0xA0), (0x22, 3, 0x18)]"
  using lut_entry_reads_back [OF demo_macros_contract, of "0xA0" "0x18" CMD_DDR FLEXSPI_8PAD RADDR_DDR FLEXSPI_8PAD] by simp

lemma hyperflash_wf: "nor_config_wf (hyperflash_config m)"
proof -
  have "length (fold (\<lambda>(i, v) t. t[i := v]) inits t) = length t" for inits :: "(nat \<times> u32) list" and t
    by (induction inits arbitrary: t) auto
  then show ?thesis
    by (simp add: nor_config_wf_def mem_config_wf_def hyperflash_config_def hyperflash_mem_config_def
        hyperflash_lut_def designated_def hyperflash_custom_seq_def)
qed

theorem config_block_layout_witness: "length (nor_image (hyperflash_config demo_macros)) = 512"
  using config_block_layout [OF hyperflash_wf, of demo_macros] by (simp add: FLEXSPI_CFG_BLK_SIZE_def)

section \<open>The command set\<close>

text \<open>A sequence of the lookup table is four words, eight instructions.\<close>

definition lut_sequence :: "u32 list \<Rightarrow> nat \<Rightarrow> lut_instr list" where
  "lut_sequence t k = concat (map decode_word (take 4 (drop (4 * k) t)))"

definition instr :: "lut_opcode \<Rightarrow> u32 \<Rightarrow> lut_instr" where
  "instr c x = (opcode_value c, pads_value FLEXSPI_8PAD, x)"

abbreviation stop_instr :: lut_instr where "stop_instr \<equiv> (opcode_value STOP, pads_value FLEXSPI_1PAD, 0)"

text \<open>A bus cycle of the HyperFlash that writes the command \<open>d\<close> to an unlock address, and the two
  unlock cycles.\<close>

definition hyper_write :: "u32 \<Rightarrow> u32 \<Rightarrow> u32 \<Rightarrow> lut_instr list" where
  "hyper_write a b d = map (instr CMD_DDR) [0, 0, 0, a, 0, b, 0, d]"

abbreviation command_cycle :: "u32 \<Rightarrow> lut_instr list" where "command_cycle d \<equiv> hyper_write 0xAA 0x05 d"
abbreviation unlock1 :: "lut_instr list" where "unlock1 \<equiv> command_cycle 0xAA"
abbreviation unlock2 :: "lut_instr list" where "unlock2 \<equiv> hyper_write 0x55 0x02 0x55"

definition address_phase :: "u32 \<Rightarrow> lut_instr list" where
  "address_phase c = [instr CMD_DDR c, instr RADDR_DDR 0x18, instr CADDR_DDR 0x10]"

fun nor_sequences :: "nor_command \<Rightarrow> lut_instr list list" where
  "nor_sequences Nor_read = [address_phase 0xA0 @ [instr DUMMY_DDR 0x0C, instr READ_DDR 4] @ replicate 3 stop_instr]"
| "nor_sequences Nor_read_status = [command_cycle 0x70,
     address_phase 0xA0 @ [instr DUMMY_RWDS_DDR 0x0B, instr READ_DDR 4] @ replicate 3 stop_instr]"
| "nor_sequences Nor_write_enable = [unlock1, unlock2]"
| "nor_sequences Nor_erase_sector = [command_cycle 0x80, unlock1, unlock2,
     address_phase 0 @ [instr CMD_DDR 0, instr CMD_DDR 0x30] @ replicate 3 stop_instr]"
| "nor_sequences Nor_page_program = [command_cycle 0xA0,
     address_phase 0 @ [instr WRITE_DDR 0x80] @ replicate 4 stop_instr]"
| "nor_sequences Nor_chip_erase = [command_cycle 0x80, unlock1, unlock2, command_cycle 0x10]"

lemma decode_zero: "decode_word 0 = replicate 2 stop_instr"
  by (simp add: decode_word_def lut_field_def numeral_2_eq_2)

lemmas lut_defs = lut_read_def lut_read_status_def lut_write_enable_def lut_erase_sector_def lut_page_program_def
  lut_erase_chip_def

lemma lut_words: "hyperflash_lut m =
    map snd (lut_read m) @ [0] @ map snd (lut_read_status m) @ [0] @ map snd (lut_write_enable m) @
    map snd (lut_erase_sector m) @ [0] @ map snd (lut_page_program m) @ [0, 0] @ map snd (lut_erase_chip m) @ replicate 4 0"
  by (simp add: hyperflash_lut_def designated_def lut_defs numeral_eq_Suc)

lemmas sequence_simps = address_phase_def hyper_write_def instr_def

text \<open>All sequences in the order of the table; the last one is not used.\<close>

definition all_sequences :: "lut_instr list list" where
  "all_sequences = concat (map nor_sequences [Nor_read, Nor_read_status, Nor_write_enable, Nor_erase_sector,
     Nor_page_program, Nor_chip_erase]) @ [replicate 8 stop_instr]"

lemma take_bit_operands:
  "take_bit 8 (0 :: u32) = 0" "take_bit 8 (0x02 :: u32) = 0x02" "take_bit 8 (0x04 :: u32) = 0x04"
  "take_bit 8 (0x05 :: u32) = 0x05" "take_bit 8 (0x0B :: u32) = 0x0B" "take_bit 8 (0x0C :: u32) = 0x0C"
  "take_bit 8 (0x10 :: u32) = 0x10" "take_bit 8 (0x18 :: u32) = 0x18" "take_bit 8 (0x30 :: u32) = 0x30"
  "take_bit 8 (0x55 :: u32) = 0x55" "take_bit 8 (0x70 :: u32) = 0x70" "take_bit 8 (0x80 :: u32) = 0x80"
  "take_bit 8 (0xA0 :: u32) = 0xA0" "take_bit 8 (0xAA :: u32) = 0xAA"
  by (simp_all add: take_bit_eq_mod)

lemma replicate_stops:
  "replicate 2 x = [x, x]" "replicate 3 x = [x, x, x]" "replicate 4 x = [x, x, x, x]"
  by (simp_all add: numeral_eq_Suc)

lemma decoded_pieces:
  assumes "lut_contract m"
  shows "concat (map decode_word (map snd (lut_read m) @ [0])) = concat (nor_sequences Nor_read)"
    "concat (map decode_word (map snd (lut_read_status m) @ [0])) = concat (nor_sequences Nor_read_status)"
    "concat (map decode_word (map snd (lut_write_enable m))) = concat (nor_sequences Nor_write_enable)"
    "concat (map decode_word (map snd (lut_erase_sector m) @ [0])) = concat (nor_sequences Nor_erase_sector)"
    "concat (map decode_word (map snd (lut_page_program m) @ [0, 0])) = concat (nor_sequences Nor_page_program)"
    "concat (map decode_word (map snd (lut_erase_chip m))) = concat (nor_sequences Nor_chip_erase)"
  by (simp_all only: lut_defs nor_sequences.simps address_phase_def hyper_write_def instr_def list.map snd_conv
      append.simps concat.simps decode_zero decode_LUT_SEQ [OF assms] take_bit_operands replicate_stops append_Nil2)

lemma decoded_table:
  assumes "lut_contract m"
  shows "concat (map decode_word (hyperflash_lut m)) = concat all_sequences"
proof -
  have "concat (map decode_word (replicate 4 0)) = replicate 8 stop_instr"
    by (simp add: decode_zero numeral_eq_Suc)
  then show ?thesis
    unfolding lut_words all_sequences_def
    by (simp only: list.map concat.simps concat_append map_append append_Nil append_Nil2 append.assoc
        decoded_pieces [OF assms, symmetric])
qed

lemma decode_word_length: "length (decode_word w) = 2"
  by (simp add: decode_word_def)

lemma take_drop_concat:
  assumes "\<forall>x \<in> set xss. length x = n"
  shows "take (n * k) (concat xss) = concat (take k xss)" "drop (n * k) (concat xss) = concat (drop k xss)"
proof -
  have "take (n * k) (concat xss) = concat (take k xss) \<and> drop (n * k) (concat xss) = concat (drop k xss)"
    using assms
  proof (induction xss arbitrary: k)
    case (Cons x xss)
    then show ?case by (cases k) simp_all
  qed simp
  then show "take (n * k) (concat xss) = concat (take k xss)" "drop (n * k) (concat xss) = concat (drop k xss)"
    by simp_all
qed

lemma all_sequences_length: "length all_sequences = 16" "\<forall>x \<in> set all_sequences. length x = 8"
  by (simp_all add: all_sequences_def sequence_simps)

lemma lut_sequence_nth:
  assumes "lut_contract m" "k < 16"
  shows "lut_sequence (hyperflash_lut m) k = all_sequences ! k"
proof -
  let ?t = "hyperflash_lut m"
  have two: "\<forall>x \<in> set (map decode_word xs). length x = 2" for xs by (simp add: decode_word_length)
  have "lut_sequence ?t k = take 8 (drop (8 * k) (concat (map decode_word ?t)))"
    using take_drop_concat(1) [OF two, of 4] take_drop_concat(2) [OF two, of "4 * k" ?t]
    by (simp add: lut_sequence_def take_map drop_map)
  also have "\<dots> = take 8 (concat (drop k all_sequences))"
    using take_drop_concat(2) [OF all_sequences_length(2), of k] by (simp add: decoded_table [OF assms(1)])
  also have "drop k all_sequences = all_sequences ! k # drop (Suc k) all_sequences"
    using assms(2) all_sequences_length(1) by (simp add: Cons_nth_drop_Suc)
  finally show ?thesis
    using all_sequences_length assms(2) by simp
qed

lemma table_sequences:
  assumes "lut_contract m"
  shows "map (lut_sequence (hyperflash_lut m)) [NOR_CMD_LUT_SEQ_IDX c..<NOR_CMD_LUT_SEQ_IDX c + length (nor_sequences c)] =
    nor_sequences c"
proof -
  let ?n = "NOR_CMD_LUT_SEQ_IDX c" and ?k = "length (nor_sequences c)"
  have "?n + ?k \<le> 15" by (cases c) simp_all
  then have "map (lut_sequence (hyperflash_lut m)) [?n..<?n + ?k] = map ((!) all_sequences) [?n..<?n + ?k]"
    by (simp add: lut_sequence_nth [OF assms])
  also have "\<dots> = take ?k (drop ?n all_sequences)"
    using \<open>?n + ?k \<le> 15\<close> all_sequences_length(1) by (intro nth_equalityI) simp_all
  also have "\<dots> = nor_sequences c"
    by (cases c) (simp_all add: all_sequences_def)
  finally show ?thesis .
qed

text \<open>C24: the lookup table of the configuration block is the command set of the HyperFlash: for each
  command, the sequences that start at the number the header gives for it decode to the
  instructions of the command (command cycles, the two unlock cycles, address, data and stop),
  and the table of customised sequences has that number and count for each command, the plain read
  excepted, which has no count. No sequence of the table is left over but the last one, which is empty.\<close>

theorem lookup_table_is_command_set:
  assumes "lut_contract m"
  shows "map (lut_sequence (lookup_table (mem_config (hyperflash_config m))))
       [NOR_CMD_LUT_SEQ_IDX c..<NOR_CMD_LUT_SEQ_IDX c + length (nor_sequences c)] = nor_sequences c \<and>
     (let s = lut_custom_seq (mem_config (hyperflash_config m)) ! NOR_CMD_INDEX c in
        unat (seq_id s) = NOR_CMD_LUT_SEQ_IDX c \<and>
        unat (seq_num s) = (if c = Nor_read then 0 else length (nor_sequences c))) \<and>
     lut_sequence (lookup_table (mem_config (hyperflash_config m))) 15 = replicate 8 stop_instr"
proof -
  have "lut_sequence (hyperflash_lut m) 15 = replicate 8 stop_instr"
    using lut_sequence_nth [OF assms, of 15] by (simp add: all_sequences_def)
  moreover have "let s = hyperflash_custom_seq ! NOR_CMD_INDEX c in unat (seq_id s) = NOR_CMD_LUT_SEQ_IDX c \<and>
      unat (seq_num s) = (if c = Nor_read then 0 else length (nor_sequences c))"
    by (cases c) (simp_all add: hyperflash_custom_seq_def)
  ultimately show ?thesis
    using table_sequences [OF assms] by (simp add: hyperflash_config_def hyperflash_mem_config_def)
qed

theorem lookup_table_is_command_set_witness:
  "map (lut_sequence (lookup_table (mem_config (hyperflash_config demo_macros)))) [3, 4] = [unlock1, unlock2]"
  using lookup_table_is_command_set [OF demo_macros_contract, of Nor_write_enable] by (simp add: upt_rec)

text \<open>The header also reserves the sequences 8, 13 and 14 for other commands; in this table the first is the last
  sequence of the sector erase, and the other two belong to the chip erase.\<close>

lemma reserved_numbers_taken:
  assumes "lut_contract m"
  shows "lut_sequence (hyperflash_lut m) NOR_CMD_LUT_SEQ_IDX_ERASEBLOCK = last (nor_sequences Nor_erase_sector)"
    and "lut_sequence (hyperflash_lut m) NOR_CMD_LUT_SEQ_IDX_READ_SFDP = unlock2"
    and "lut_sequence (hyperflash_lut m) NOR_CMD_LUT_SEQ_IDX_RESTORE_NOCMD = command_cycle 0x10"
  using lut_sequence_nth [OF assms, of 8] lut_sequence_nth [OF assms, of 13] lut_sequence_nth [OF assms, of 14]
  by (simp_all add: all_sequences_def NOR_CMD_LUT_SEQ_IDX_ERASEBLOCK_def NOR_CMD_LUT_SEQ_IDX_READ_SFDP_def
      NOR_CMD_LUT_SEQ_IDX_RESTORE_NOCMD_def)

text \<open>The entries of the dummy and the block erase command are not filled in, and the configuration
  commands of the block are switched off: their type is the generic one.\<close>

lemma unused_entries:
  "lut_custom_seq (mem_config (hyperflash_config m)) ! NOR_CMD_INDEX_ERASEBLOCK = seq_entry 0 0"
  "lut_custom_seq (mem_config (hyperflash_config m)) ! NOR_CMD_INDEX_DUMMY = seq_entry 0 0"
  "device_mode_type (mem_config (hyperflash_config m)) = config_cmd_value DEVICE_CONFIG_CMD_TYPE_GENERIC"
  by (simp_all add: hyperflash_config_def hyperflash_mem_config_def hyperflash_custom_seq_def NOR_CMD_INDEX_ERASEBLOCK_def
      NOR_CMD_INDEX_DUMMY_def)

text \<open>The first word of the block reads \<^verbatim>\<open>FCFB\<close> in memory, and a customised sequence has its count in the low byte.\<close>

lemma block_starts_with_tag:
  "take 4 (image 0 (mem_members (hyperflash_mem_config m))) = map of_char ''FCFB''"
proof -
  obtain rest where "mem_members (hyperflash_mem_config m) = (''tag'', M32 [tag (hyperflash_mem_config m)]) # rest"
    by (simp add: mem_members_def)
  moreover have "tag (hyperflash_mem_config m) = 0x42464346"
    by (simp add: hyperflash_mem_config_def FLEXSPI_CFG_BLK_TAG_def)
  ultimately show ?thesis by (simp add: le_u32_def align_up_def)
qed

end
