(* ===== verification/SmallDemos.thy ===== *)
theory SmallDemos
  imports CLib
begin

text \<open>
  The small demos: the LED thread of \<^verbatim>\<open>hello_zephyr/src/t2.c\<close>, \<^verbatim>\<open>direct_irq/src/t2.c\<close> and
  \<^verbatim>\<open>z_for_each/src/t2.c\<close>, the register-level blinker \<^verbatim>\<open>bare_metal_direct/src/main.c\<close>, the counting
  loop of \<^verbatim>\<open>hello_rtt/src/main.c\<close>, and the start of the coprocessor and its interrupt handler in
  \<^verbatim>\<open>direct_irq/src/ezh_app.c\<close> (the coprocessor's own program is in the theory Coprocessor).

  The GPIO driver and the GPIO port are parameters with their contracts. Endless loops are given by
  their rounds, messages are kept without their line ends. The interface \<open>blinker\<close> is what the LED loops have in common; it is interpreted for
  the thread on a pin and for the loop on the port registers.
\<close>

section \<open>Blinking\<close>

locale blinker =
  fixes step :: "'s \<Rightarrow> 's"
    and level :: "'s \<Rightarrow> bool"
  assumes toggles: "level (step s) \<longleftrightarrow> \<not> level s"
begin

lemma level_after: "level ((step ^^ n) s) \<longleftrightarrow> (level s \<longleftrightarrow> even n)"
  by (induction n) (auto simp: toggles)

end

section \<open>The LED thread\<close>

record 'w led_api =
  pin_configure_active :: "'w \<Rightarrow> 'w"
  pin_toggle :: "'w \<Rightarrow> 'w"

definition led_contract :: "'w led_api \<Rightarrow> ('w \<Rightarrow> bool) \<Rightarrow> bool" where
  "led_contract api lit \<longleftrightarrow> (\<forall>w. lit (pin_configure_active api w)) \<and> (\<forall>w. lit (pin_toggle api w) \<longleftrightarrow> \<not> lit w)"

datatype vt100_color = SHELL_VT100_COLOR_YELLOW | SHELL_VT100_COLOR_CYAN

datatype demo_call = Demo_log string | Demo_sleep nat | Demo_print string | Demo_shell vt100_color string

record 'w led_thread =
  led_pin :: 'w
  led_calls :: "demo_call list"

definition t2_start :: "'w led_api \<Rightarrow> 'w led_thread \<Rightarrow> 'w led_thread" where
  "t2_start api s = s\<lparr>led_pin := pin_configure_active api (led_pin s)\<rparr>"

definition t2_round :: "'w led_api \<Rightarrow> 'w led_thread \<Rightarrow> 'w led_thread" where
  "t2_round api s = s\<lparr>led_pin := pin_toggle api (led_pin s),
     led_calls := Demo_sleep 500 # Demo_log ''Hello from T2!'' # led_calls s\<rparr>"

text \<open>The thread of the macro demo has no message, and its sleep time is a variable.\<close>

definition t2_config_round :: "'w led_api \<Rightarrow> u32 \<Rightarrow> 'w led_thread \<Rightarrow> 'w led_thread" where
  "t2_config_round api t2_sleep_time s = s\<lparr>led_pin := pin_toggle api (led_pin s),
     led_calls := Demo_sleep (unat t2_sleep_time) # led_calls s\<rparr>"

text \<open>The pins of the witness: a pin is its level.\<close>

definition demo_led :: "bool led_api" where
  "demo_led = \<lparr>pin_configure_active = (\<lambda>w. True), pin_toggle = Not\<rparr>"

locale working_led =
  fixes api :: "'w led_api" and lit :: "'w \<Rightarrow> bool"
  assumes led: "led_contract api lit"
begin

sublocale thread: blinker "t2_round api" "\<lambda>s. lit (led_pin s)"
  by unfold_locales (use led in \<open>simp add: t2_round_def led_contract_def\<close>)

sublocale config_thread: blinker "t2_config_round api ms" "\<lambda>s. lit (led_pin s)" for ms
  by unfold_locales (use led in \<open>simp add: t2_config_round_def led_contract_def\<close>)

lemma start_lit: "lit (led_pin (t2_start api s))"
  using led by (simp add: t2_start_def led_contract_def)

lemma blinks:
  "lit (led_pin ((t2_round api ^^ n) (t2_start api s))) \<longleftrightarrow> even n"
  "lit (led_pin ((t2_config_round api ms ^^ n) (t2_start api s))) \<longleftrightarrow> even n"
  by (simp_all add: thread.level_after config_thread.level_after start_lit)

end

interpretation demo_led: working_led demo_led "\<lambda>w. w"
  by unfold_locales (simp add: led_contract_def demo_led_def)

lemma t2_calls: "led_calls ((t2_round api ^^ n) s) =
    concat (replicate n [Demo_sleep 500, Demo_log ''Hello from T2!'']) @ led_calls s"
  by (induction n) (simp_all add: t2_round_def)

text \<open>The LED thread of the demos blinks: it is lit after the start, dark after every odd number
  of rounds and lit after every even number, and each round sleeps 500 ms; the same holds for the thread
  with a configurable time, whatever that time is.\<close>

theorem led_thread_blinks:
  assumes "led_contract api lit"
  shows "(lit (led_pin ((t2_round api ^^ n) (t2_start api s))) \<longleftrightarrow> even n) \<and>
         (lit (led_pin ((t2_config_round api ms ^^ n) (t2_start api s))) \<longleftrightarrow> even n) \<and>
         led_calls ((t2_round api ^^ n) (t2_start api s)) =
           concat (replicate n [Demo_sleep 500, Demo_log ''Hello from T2!'']) @ led_calls s"
proof -
  from assms have wl: "working_led api lit" by unfold_locales
  show ?thesis
    using working_led.blinks [OF wl] by (simp add: t2_calls) (simp add: t2_start_def)
qed

theorem led_thread_blinks_witness:
  "led_pin ((t2_round demo_led ^^ 3) (t2_start demo_led \<lparr>led_pin = False, led_calls = []\<rparr>)) = False"
  using led_thread_blinks [OF demo_led.led, of 3] by simp

section \<open>The register-level blinker\<close>

text \<open>The output port: writing \<^verbatim>\<open>PCOR\<close> clears and writing \<^verbatim>\<open>PTOR\<close> toggles the pins whose bits
  are set; what the port does is a parameter with this contract. The value read from \<^verbatim>\<open>PTOR\<close> in
  \<^verbatim>\<open>|=\<close> and from \<^verbatim>\<open>PDDR\<close> is part of the port.\<close>

record 'w port_api =
  read_pddr :: "'w \<Rightarrow> u32"
  write_pddr :: "u32 \<Rightarrow> 'w \<Rightarrow> 'w"
  write_pcor :: "u32 \<Rightarrow> 'w \<Rightarrow> 'w"
  read_ptor :: "'w \<Rightarrow> u32"
  write_ptor :: "u32 \<Rightarrow> 'w \<Rightarrow> 'w"
  enable_port_clock :: "'w \<Rightarrow> 'w"

definition port_contract :: "'w port_api \<Rightarrow> ('w \<Rightarrow> u32) \<Rightarrow> bool" where
  "port_contract api pdor \<longleftrightarrow>
     (\<forall>v w. pdor (write_pddr api v w) = pdor w) \<and> (\<forall>w. pdor (enable_port_clock api w) = pdor w) \<and>
     (\<forall>v w. pdor (write_pcor api v w) = and (pdor w) (not v)) \<and>
     (\<forall>v w. pdor (write_ptor api v w) = xor (pdor w) v) \<and> (\<forall>w. read_ptor api w = 0)"

abbreviation RED_LED_PIN :: nat where "RED_LED_PIN \<equiv> 10"

definition bare_metal_start :: "'w port_api \<Rightarrow> 'w \<Rightarrow> 'w" where
  "bare_metal_start api w =
     (let w1 = enable_port_clock api w;
          w2 = write_pddr api (or (read_pddr api w1) (push_bit RED_LED_PIN 1)) w1
      in write_pcor api (of_nat RED_LED_PIN) w2)"

definition bare_metal_round :: "'w port_api \<Rightarrow> 'w \<Rightarrow> 'w" where
  "bare_metal_round api w = write_ptor api (or (read_ptor api w) (push_bit RED_LED_PIN 1)) w"

lemma bit_pin: "bit (push_bit k 1 :: u32) n \<longleftrightarrow> n = k \<and> k < 32"
  by (auto simp: bit_simps)

lemma bit_1024: "bit (1024 :: u32) n \<longleftrightarrow> n = 10"
  using bit_pin [of 10 n] by simp

lemma bit_10: "bit (10 :: u32) n \<longleftrightarrow> n = 1 \<or> n = 3"
  using bit_pin [of 1 n] bit_pin [of 3 n] bit_or_iff [of "2 :: u32" 8 n] by simp

locale working_port =
  fixes api :: "'w port_api" and pdor :: "'w \<Rightarrow> u32"
  assumes port: "port_contract api pdor"
begin

sublocale pin: blinker "bare_metal_round api" "\<lambda>w. bit (pdor w) RED_LED_PIN"
  by unfold_locales (use port in \<open>simp add: bare_metal_round_def port_contract_def bit_simps\<close>)

lemma start_pins: "bit (pdor (bare_metal_start api w)) n \<longleftrightarrow> bit (pdor w) n \<and> n \<noteq> 1 \<and> n \<noteq> 3"
proof -
  have "n < 32" if "bit (pdor w) n" using that bit_imp_le_length by fastforce
  then show ?thesis
    using port by (auto simp: bare_metal_start_def port_contract_def bit_simps bit_10 Let_def
        simp del: bit_numeral_word_iff)
qed

lemma rounds_led: "bit (pdor ((bare_metal_round api ^^ k) w)) RED_LED_PIN \<longleftrightarrow> (bit (pdor w) RED_LED_PIN \<longleftrightarrow> even k)"
  by (rule pin.level_after)

lemma rounds_other_pins: "n \<noteq> RED_LED_PIN \<Longrightarrow> bit (pdor ((bare_metal_round api ^^ k) w)) n = bit (pdor w) n"
  using port by (induction k) (auto simp: bare_metal_round_def port_contract_def bit_simps bit_1024
      simp del: bit_numeral_word_iff)

end

text \<open>A port that is its output register.\<close>

definition demo_port :: "u32 port_api" where
  "demo_port = \<lparr>read_pddr = (\<lambda>w. 0), write_pddr = (\<lambda>v w. w), write_pcor = (\<lambda>v w. and w (not v)),
     read_ptor = (\<lambda>w. 0), write_ptor = (\<lambda>v w. xor w v), enable_port_clock = (\<lambda>w. w)\<rparr>"

interpretation demo_port: working_port demo_port "\<lambda>w. w"
  by unfold_locales (simp add: port_contract_def demo_port_def)

text \<open>The register-level demo toggles the LED pin, and no other pin, in every round, but its start does
  not clear it: \<^verbatim>\<open>PCOR\<close> gets the pin number 10 where a mask belongs, so pins 1 and 3 are cleared and
  the LED pin keeps its level.\<close>

theorem bare_metal_pins:
  assumes "port_contract api pdor"
  shows "bit (pdor ((bare_metal_round api ^^ k) (bare_metal_start api w))) n \<longleftrightarrow>
    (if n = RED_LED_PIN then bit (pdor w) n \<longleftrightarrow> even k else bit (pdor w) n \<and> n \<noteq> 1 \<and> n \<noteq> 3)"
proof -
  from assms have wp: "working_port api pdor" by unfold_locales
  show ?thesis
    using working_port.start_pins [OF wp] working_port.rounds_other_pins [OF wp] working_port.rounds_led [OF wp]
    by simp
qed

theorem bare_metal_pins_witness:
  "bit ((bare_metal_round demo_port ^^ 2) (bare_metal_start demo_port 0x40A)) 10 \<and>
   \<not> bit ((bare_metal_round demo_port ^^ 2) (bare_metal_start demo_port 0x40A)) 3"
proof -
  have "bit (0x40A :: u32) 10" by (simp add: bit_iff_odd)
  then show ?thesis
    using bare_metal_pins [OF demo_port.port, of 2 "0x40A" 10] bare_metal_pins [OF demo_port.port, of 2 "0x40A" 3]
    by simp
qed

section \<open>The counting loop\<close>

text \<open>\<^verbatim>\<open>%d\<close> prints the 32-bit counter as a signed number.\<close>

definition hello_rtt_round :: "u32 \<times> demo_call list \<Rightarrow> u32 \<times> demo_call list" where
  "hello_rtt_round s = (case s of (ticks, calls) \<Rightarrow>
     (ticks + 1, Demo_sleep 1000 # Demo_log (''Hello RTT! '' @ show_int (sint ticks)) # calls))"

lemma hello_rtt_rounds:
  "(hello_rtt_round ^^ n) (0, []) =
     (of_nat n, concat (map (\<lambda>k. [Demo_sleep 1000, Demo_log (''Hello RTT! '' @ show_int (sint (of_nat k :: u32)))]) (rev [0..<n])))"
  by (induction n) (simp_all add: hello_rtt_round_def add.commute)

section \<open>The coprocessor\<close>

datatype ezh_call =
    Set_external_flag nat
  | Irq_disable
  | Irq_direct_connect
  | Enable_clock_port2
  | Set_pin_mux
  | Peripheral_reset
  | Enable_clock_smartdma
  | Bunny_build nat          \<comment> \<open>with the size of the program buffer in bytes\<close>
  | Ezh_init
  | Ezh_boot
  | Irq_enable
  | Isr_direct_pm

record ezh =
  test_val :: u32
  has_stack :: bool          \<comment> \<open>\<^verbatim>\<open>ezh_parameters.coprocessor_stack\<close> and \<^verbatim>\<open>p_buffer\<close> are set\<close>
  ezh_calls :: "ezh_call list"

definition ezh_note :: "ezh_call \<Rightarrow> ezh \<Rightarrow> ezh" where
  "ezh_note c s = s\<lparr>ezh_calls := c # ezh_calls s\<rparr>"

definition smartdma_irq_handler :: "u32 \<Rightarrow> ezh \<Rightarrow> int \<times> ezh" where
  "smartdma_irq_handler ezh2arm s =
     (let s1 = (ezh_note (Set_external_flag 1) s)\<lparr>test_val := ezh2arm\<rparr>
      in (1, ezh_note Isr_direct_pm (ezh_note (Set_external_flag 0) s1)))"

definition ezh__start_app :: "ezh \<Rightarrow> ezh" where
  "ezh__start_app s =
     (let s1 = ezh_note Irq_direct_connect (ezh_note Irq_disable (ezh_note (Set_external_flag 0) s));
          s2 = ezh_note Enable_clock_smartdma (ezh_note Peripheral_reset (ezh_note Set_pin_mux (ezh_note Enable_clock_port2 s1)));
          s3 = s2\<lparr>has_stack := True\<rparr>
      in ezh_note Irq_enable (ezh_note Ezh_boot (ezh_note Ezh_init (ezh_note (Bunny_build 512) s3))))"

text \<open>What the calls so far have done, from the list with the newest call first.\<close>

fun irq_on :: "ezh_call list \<Rightarrow> bool" where
  "irq_on [] = False"
| "irq_on (Irq_enable # cs) = True"
| "irq_on (Irq_disable # cs) = False"
| "irq_on (c # cs) = irq_on cs"

fun flag_set :: "ezh_call list \<Rightarrow> bool" where
  "flag_set [] = False"
| "flag_set (Set_external_flag n # cs) = (n \<noteq> 0)"
| "flag_set (c # cs) = flag_set cs"

definition ready_calls :: "ezh_call set" where
  "ready_calls = {Irq_direct_connect, Enable_clock_smartdma, Peripheral_reset, Bunny_build 512, Ezh_init, Ezh_boot}"

lemma start_calls:
  "ezh_calls (ezh__start_app s) = [Irq_enable, Ezh_boot, Ezh_init, Bunny_build 512, Enable_clock_smartdma,
     Peripheral_reset, Set_pin_mux, Enable_clock_port2, Irq_direct_connect, Irq_disable, Set_external_flag 0] @ ezh_calls s"
  by (simp add: ezh__start_app_def ezh_note_def Let_def)

definition irq_safe :: "ezh_call list \<Rightarrow> bool" where
  "irq_safe cs \<longleftrightarrow> (\<forall>n \<le> length cs. irq_on (drop n cs) \<longrightarrow> ready_calls \<subseteq> set (drop n cs))"

lemma irq_safe_Cons: "irq_safe (c # cs) \<longleftrightarrow> irq_safe cs \<and> (irq_on (c # cs) \<longrightarrow> ready_calls \<subseteq> set (c # cs))"
  unfolding irq_safe_def by (auto simp: All_less_Suc2 less_Suc_eq_le [symmetric])

text \<open>The coprocessor's interrupt is only on when everything it needs is in place: at every
  moment of the start and of any interrupts after it, if the interrupt is enabled then the
  handler is connected, the coprocessor has its clock and is out of reset, and its program is built and
  booted; each interrupt leaves the value of the coprocessor's register in \<^verbatim>\<open>test_val\<close> and the flag
  cleared again.\<close>

theorem interrupt_on_when_ready:
  "let s = fold (\<lambda>v s. snd (smartdma_irq_handler v s)) vs (ezh__start_app \<lparr>test_val = 0, has_stack = False, ezh_calls = []\<rparr>)
   in irq_safe (ezh_calls s) \<and> irq_on (ezh_calls s) \<and> \<not> flag_set (ezh_calls s) \<and>
      test_val s = (if vs = [] then 0 else last vs) \<and> has_stack s"
proof -
  let ?inv = "\<lambda>s. irq_safe (ezh_calls s) \<and> irq_on (ezh_calls s) \<and> \<not> flag_set (ezh_calls s) \<and> has_stack s \<and>
    ready_calls \<subseteq> set (ezh_calls s)"
  let ?s = "ezh__start_app \<lparr>test_val = 0, has_stack = False, ezh_calls = []\<rparr>"
  let ?h = "\<lambda>v s. snd (smartdma_irq_handler v s)"
  have step: "?inv (?h v s)" if "?inv s" for v s
    using that by (auto simp: smartdma_irq_handler_def ezh_note_def irq_safe_Cons Let_def)
  have "irq_safe []" by (simp add: irq_safe_def)
  then have "?inv ?s"
    unfolding start_calls by (simp add: irq_safe_Cons ready_calls_def) (simp add: ezh__start_app_def ezh_note_def)
  then have "?inv (fold ?h vs ?s)" by (rule fold_invariant_list) (rule step)
  moreover have "test_val (fold ?h vs s) = (if vs = [] then test_val s else last vs)" for s
    by (induction vs arbitrary: s) (simp_all add: smartdma_irq_handler_def ezh_note_def Let_def)
  moreover have "test_val ?s = 0" by (simp add: ezh__start_app_def ezh_note_def)
  ultimately show ?thesis by (simp add: Let_def)
qed

end
