(* ===== verification/GreetingDemos.thy ===== *)
theory GreetingDemos
  imports SmallDemos
begin

text \<open>
  The programs that print a message and then run an endless loop: \<^verbatim>\<open>hello_world/src/main.c\<close>,
  \<^verbatim>\<open>hello_zephyr/src/main.c\<close>, \<^verbatim>\<open>direct_irq/src/main.c\<close>, \<^verbatim>\<open>z_for_each/src/main.c\<close>, the three FRDM shell
  programs and \<^verbatim>\<open>lvgl/src/main.c\<close>, with the shell commands they register.

  A program is its start and one round of its loop; what it prints and how long it sleeps is
  recorded, newest first, without the line ends at the start and the end of a message. The interface \<open>greeter\<close>
  is a loop whose rounds all do the same. The picture of the shell command is kept with one
  character for each of the three block characters; \<open>glyph\<close> gives their bytes in the source file.
\<close>

section \<open>The shell commands\<close>

definition glyph :: "char \<Rightarrow> string" where
  "glyph c = (if c = CHR ''#'' then [CHR 0xE2, CHR 0x96, CHR 0x88]
     else if c = CHR ''%'' then [CHR 0xE2, CHR 0x96, CHR 0x92]
     else if c = CHR ''.'' then [CHR 0xE2, CHR 0x96, CHR 0x91] else [c])"

definition monkey_picture :: "string list" where
  "monkey_picture = [
     ''                 ##########################            '',
     ''               ##%%%%%%%%%%%%%%%%%%%%%%%%%%##          '',
     ''               ##%%%%%%%%%%%%%%%%%%%%%%%%%%%%##        '',
     ''             ##%%%%......%%%%%%%%%%%%%%%%....##        '',
     ''         ######%%..........%%%%%%%%%%%%........##      '',
     ''       ##......%%..............................######  '',
     ''       ##......%%..............................##....##'',
     ''       ##......%%..........##........##........##....##'',
     ''         ####..%%..........##........##........######  '',
     ''             ##%%..............................##      '',
     ''     ####      ##%%..........................##        '',
     ''   ##    ##      ##%%......................##          '',
     ''   ##  ##      ##%%%%%%%%%%%%%%%%%%%%%%%%%%%%##        '',
     ''   ##          ##%%%%%%%%............%%%%%%%%##        '',
     ''     ####    ##%%%%%%%%................%%%%%%%%##      '',
     ''         ######%%%%%%%%................%%%%%%%%##      '',
     ''             ##%%%%##%%................%%##%%%%##      '',
     ''               ######%%%%............%%%%######        '',
     ''                   ##%%%%%%########%%%%%%##            '',
     ''                   ##....##        ##....##            '',
     ''                   ######            ######            '']"

text \<open>A shell command: its name, its help text and its handler on the argument vector and the list of calls.\<close>

type_synonym shell_cmd = "string \<times> string \<times> (string list \<Rightarrow> demo_call list \<Rightarrow> int \<times> demo_call list)"

definition shell_fprintf :: "vt100_color \<Rightarrow> string \<Rightarrow> demo_call list \<Rightarrow> demo_call list" where
  "shell_fprintf color text cs = Demo_shell color (text @ [CHR 0x0D, CHR 0x0A]) # cs"

definition monkey_handler :: "string list \<Rightarrow> demo_call list \<Rightarrow> int \<times> demo_call list" where
  "monkey_handler argv cs =
     (let cs = shell_fprintf SHELL_VT100_COLOR_YELLOW [] cs;
          cs = fold (\<lambda>row. shell_fprintf SHELL_VT100_COLOR_YELLOW (concat (map glyph row))) monkey_picture cs;
          cs = shell_fprintf SHELL_VT100_COLOR_YELLOW [] cs
      in (0, shell_fprintf SHELL_VT100_COLOR_CYAN (replicate 26 CHR '' '' @ ''I'' @ [CHR 0x27] @ ''m Super'') cs))"

definition test_command_handler :: "string list \<Rightarrow> demo_call list \<Rightarrow> int \<times> demo_call list" where
  "test_command_handler argv cs =
     (0, shell_fprintf SHELL_VT100_COLOR_CYAN (replicate 26 CHR '' '' @ ''I'' @ [CHR 0x27] @ ''m Super'') cs)"

definition super_help :: string where
  "super_help = ''I'' @ [CHR 0x27] @ ''m super.''"

definition hello_world_commands :: "shell_cmd list" where
  "hello_world_commands = [(''monkey'', super_help, monkey_handler),
     (''test_cmd'', ''This is a test command'', test_command_handler)]"

text \<open>The other two programs have the same handler, character by character.\<close>

definition hello_zephyr_commands :: "shell_cmd list" where
  "hello_zephyr_commands = [(''monkey'', super_help, monkey_handler)]"

definition direct_irq_commands :: "shell_cmd list" where
  "direct_irq_commands = [(''monkey'', super_help, monkey_handler)]"

section \<open>The loops\<close>

text \<open>\<^verbatim>\<open>hello_world\<close>: the counter is a signed 32-bit variable, so its increment is undefined at the
  largest value.\<close>

definition hello_world_start :: "string \<Rightarrow> demo_call list \<Rightarrow> demo_call list" where
  "hello_world_start board cs = Demo_print (''Hello from '' @ board) # Demo_sleep 1000 # cs"

definition hello_world_round :: "int \<times> demo_call list \<Rightarrow> (int \<times> demo_call list) option" where
  "hello_world_round s = (case s of (i, cs) \<Rightarrow>
     if i = 2 ^ 31 - 1 then None
     else Some (i + 1, Demo_log (''We are up and running '' @ show_int i) # Demo_sleep 2000 # cs))"

definition hello_zephyr_start :: "string \<Rightarrow> demo_call list \<Rightarrow> demo_call list" where
  "hello_zephyr_start greeting cs = Demo_log greeting # cs"

definition hello_zephyr_round :: "demo_call list \<Rightarrow> demo_call list" where
  "hello_zephyr_round cs = Demo_sleep 1 # cs"

definition direct_irq_start :: "ezh \<times> demo_call list \<Rightarrow> ezh \<times> demo_call list" where
  "direct_irq_start s = (ezh__start_app (fst s), Demo_log ''Hello Zephyr!'' # snd s)"

definition direct_irq_round :: "demo_call list \<Rightarrow> demo_call list" where
  "direct_irq_round cs = Demo_sleep 500 # Demo_log ''Hello from main!'' # cs"

text \<open>\<^verbatim>\<open>z_for_each\<close>: the entries of the run-time configuration; its library is not in the repository.\<close>

record rt_config_item =
  item_name :: string
  item_help :: string
  item_bytes :: nat
  item_min :: string
  item_max :: string
  item_default :: string

definition main_sleep_item :: rt_config_item where
  "main_sleep_item = \<lparr>item_name = ''main_sleep'', item_help = ''milliseconds the main thread should sleep for'',
     item_bytes = 4, item_min = ''10'', item_max = ''5000'', item_default = ''500''\<rparr>"

definition t2_sleep_item :: rt_config_item where
  "t2_sleep_item = \<lparr>item_name = ''t2_sleep'', item_help = ''milliseconds thread t2 should sleep for'',
     item_bytes = 4, item_min = ''10'', item_max = ''5000'', item_default = ''500''\<rparr>"

definition z_for_each_round :: "u32 \<Rightarrow> demo_call list \<Rightarrow> demo_call list" where
  "z_for_each_round main_sleep_time cs = Demo_sleep (unat main_sleep_time) # cs"

definition can_shell_start :: "demo_call list \<Rightarrow> demo_call list" where
  "can_shell_start cs = Demo_print ''FRDM CAN shell monitor ready. Use `help`, `device list`, and `can`.'' # cs"

definition can_shell_round :: "demo_call list \<Rightarrow> demo_call list" where
  "can_shell_round cs = Demo_sleep 1000 # cs"

definition cdc_bench_start :: "demo_call list \<Rightarrow> demo_call list" where
  "cdc_bench_start cs = Demo_print ''FRDM CDC shell bench tool ready. Use `help`, `device list`, `i2c`, and `gpio`.'' # cs"

definition cdc_bench_round :: "demo_call list \<Rightarrow> demo_call list" where
  "cdc_bench_round cs = Demo_sleep 1000 # cs"

definition i2c_bench_start :: "demo_call list \<Rightarrow> demo_call list" where
  "i2c_bench_start cs = Demo_print ''FRDM shell bench tool ready. Use `help`, `device list`, `i2c`, and `gpio`.'' # cs"

definition i2c_bench_round :: "demo_call list \<Rightarrow> demo_call list" where
  "i2c_bench_round cs = Demo_sleep 1000 # cs"

section \<open>LVGL\<close>

datatype lv_demo = LV_DEMO_MUSIC | LV_DEMO_BENCHMARK | LV_DEMO_STRESS | LV_DEMO_WIDGETS

datatype lv_call = Lv_not_ready string | Lv_demo lv_demo | Lv_task_handler | Lv_blanking_off | Lv_msleep int

text \<open>The build options in the order the code asks for them; without any the program does not compile.\<close>

record lv_env =
  chosen_display :: "string option"      \<comment> \<open>the name of the display of the device tree\<close>
  binding_found :: bool
  lv_device_ready :: bool
  use_music :: bool
  use_benchmark :: bool
  use_stress :: bool
  use_widgets :: bool

definition lv_selected :: "lv_env \<Rightarrow> lv_demo option" where
  "lv_selected env = (if use_music env then Some LV_DEMO_MUSIC
     else if use_benchmark env then Some LV_DEMO_BENCHMARK
     else if use_stress env then Some LV_DEMO_STRESS
     else if use_widgets env then Some LV_DEMO_WIDGETS else None)"

text \<open>\<^verbatim>\<open>main\<close> up to its loop; \<open>handler\<close> is \<^verbatim>\<open>lv_task_handler\<close> on the world of the graphics library. The
  first component says whether the loop is reached.\<close>

definition lvgl_start ::
  "('w \<Rightarrow> u32 \<times> 'w) \<Rightarrow> lv_env \<Rightarrow> lv_demo \<Rightarrow> 'w \<times> lv_call list \<Rightarrow> bool \<times> 'w \<times> lv_call list" where
  "lvgl_start handler env demo s =
     (let (w, cs) = s;
          name = (case chosen_display env of None \<Rightarrow> ''zephyr,display'' | Some n \<Rightarrow> n);
          found = (chosen_display env \<noteq> None \<and> binding_found env)
      in if \<not> found \<or> \<not> lv_device_ready env then (False, w, Lv_not_ready name # cs)
         else (True, snd (handler w), Lv_blanking_off # Lv_task_handler # Lv_demo demo # cs))"

text \<open>The result of the handler is unsigned, the argument of \<^verbatim>\<open>k_msleep\<close> is signed.\<close>

definition lvgl_round :: "('w \<Rightarrow> u32 \<times> 'w) \<Rightarrow> 'w \<times> lv_call list \<Rightarrow> 'w \<times> lv_call list" where
  "lvgl_round handler s =
     (let (w, cs) = s; (ms, w) = handler w in (w, Lv_msleep (sint ms) # Lv_task_handler # cs))"

section \<open>Loops whose rounds are all alike\<close>

locale greeter =
  fixes round :: "demo_call list \<Rightarrow> demo_call list" and said :: "demo_call list"
  assumes round_said: "round cs = said @ cs"
begin

lemma after_rounds: "(round ^^ n) cs = concat (replicate n said) @ cs"
  by (induction n) (simp_all add: round_said)

lemma rounds_only_add: "length ((round ^^ n) cs) = n * length said + length cs"
  by (simp add: after_rounds length_concat sum_list_replicate)

end

interpretation hello_zephyr: greeter hello_zephyr_round "[Demo_sleep 1]"
  by unfold_locales (simp add: hello_zephyr_round_def)

interpretation direct_irq: greeter direct_irq_round "[Demo_sleep 500, Demo_log ''Hello from main!'']"
  by unfold_locales (simp add: direct_irq_round_def)

interpretation z_for_each: greeter "z_for_each_round ms" "[Demo_sleep (unat ms)]" for ms
  by unfold_locales (simp add: z_for_each_round_def)

interpretation can_shell: greeter can_shell_round "[Demo_sleep 1000]"
  by unfold_locales (simp add: can_shell_round_def)

interpretation cdc_bench: greeter cdc_bench_round "[Demo_sleep 1000]"
  by unfold_locales (simp add: cdc_bench_round_def)

interpretation i2c_bench: greeter i2c_bench_round "[Demo_sleep 1000]"
  by unfold_locales (simp add: i2c_bench_round_def)

text \<open>The messages printed, oldest first.\<close>

definition messages :: "demo_call list \<Rightarrow> string list" where
  "messages cs = concat (map (\<lambda>c. case c of Demo_log m \<Rightarrow> [m] | Demo_print m \<Rightarrow> [m] | _ \<Rightarrow> []) (rev cs))"

lemma messages_append [simp]: "messages (xs @ ys) = messages ys @ messages xs"
  by (simp add: messages_def)

lemma messages_sleeps: "messages (concat (replicate n [Demo_sleep ms])) = []"
  by (induction n) (simp_all add: messages_def)

text \<open>The three shell programs and the greeting print their message once, however long they run, and the loop of the
  coprocessor demo greets in every round.\<close>

theorem greetings_once:
  "messages ((can_shell_round ^^ n) (can_shell_start [])) = [''FRDM CAN shell monitor ready. Use `help`, `device list`, and `can`.'']"
  "messages ((cdc_bench_round ^^ n) (cdc_bench_start [])) = [''FRDM CDC shell bench tool ready. Use `help`, `device list`, `i2c`, and `gpio`.'']"
  "messages ((i2c_bench_round ^^ n) (i2c_bench_start [])) = [''FRDM shell bench tool ready. Use `help`, `device list`, `i2c`, and `gpio`.'']"
  "messages ((hello_zephyr_round ^^ n) (hello_zephyr_start g [])) = [g]"
  "messages ((direct_irq_round ^^ n) (snd (direct_irq_start (e, [])))) = ''Hello Zephyr!'' # replicate n ''Hello from main!''"
proof -
  have "messages (concat (replicate n [Demo_sleep 500, Demo_log m])) = replicate n m" for m
    by (induction n) (simp_all add: messages_def replicate_append_same)
  moreover have "messages [Demo_print m] = [m]" "messages [Demo_log m] = [m]" for m by (simp_all add: messages_def)
  ultimately show
    "messages ((can_shell_round ^^ n) (can_shell_start [])) = [''FRDM CAN shell monitor ready. Use `help`, `device list`, and `can`.'']"
    "messages ((cdc_bench_round ^^ n) (cdc_bench_start [])) = [''FRDM CDC shell bench tool ready. Use `help`, `device list`, `i2c`, and `gpio`.'']"
    "messages ((i2c_bench_round ^^ n) (i2c_bench_start [])) = [''FRDM shell bench tool ready. Use `help`, `device list`, `i2c`, and `gpio`.'']"
    "messages ((hello_zephyr_round ^^ n) (hello_zephyr_start g [])) = [g]"
    "messages ((direct_irq_round ^^ n) (snd (direct_irq_start (e, [])))) = ''Hello Zephyr!'' # replicate n ''Hello from main!''"
    by (simp_all only: can_shell.after_rounds cdc_bench.after_rounds i2c_bench.after_rounds hello_zephyr.after_rounds
        direct_irq.after_rounds can_shell_start_def cdc_bench_start_def i2c_bench_start_def hello_zephyr_start_def
        direct_irq_start_def messages_append messages_sleeps snd_conv append_Nil append_Nil2 append_Cons)
qed

section \<open>The counter of hello\_world\<close>

primrec hello_world_rounds :: "nat \<Rightarrow> int \<times> demo_call list \<Rightarrow> (int \<times> demo_call list) option" where
  "hello_world_rounds 0 s = Some s"
| "hello_world_rounds (Suc n) s = (case hello_world_rounds n s of None \<Rightarrow> None | Some t \<Rightarrow> hello_world_round t)"

lemma hello_world_runs:
  assumes "n \<le> 2 ^ 31 - 1"
  shows "\<exists>cs'. hello_world_rounds n (0, cs) = Some (int n, cs') \<and>
    messages cs' = messages cs @ map (\<lambda>k. ''We are up and running '' @ show_nat k) [0..<n]"
  using assms
proof (induction n)
  case (Suc n)
  then obtain cs' where cs': "hello_world_rounds n (0, cs) = Some (int n, cs')"
    "messages cs' = messages cs @ map (\<lambda>k. ''We are up and running '' @ show_nat k) [0..<n]" by auto
  have "int n \<noteq> 2 ^ 31 - 1" using Suc.prems by simp
  moreover have "show_int (int n) = show_nat n" by (simp add: show_int_def)
  ultimately show ?case using cs' by (simp add: hello_world_round_def) (simp add: messages_def)
qed simp

text \<open>The counting greeting is defined for the first \<open>2 ^ 31 - 1\<close> rounds, in which it prints 0, 1, 2 and
  so on after the board's name; the increment of the round after these is undefined.\<close>

theorem hello_world_counts:
  assumes "n \<le> 2 ^ 31 - 1"
  shows "\<exists>cs. hello_world_rounds n (0, hello_world_start board []) = Some (int n, cs) \<and>
      messages cs = (''Hello from '' @ board) # map (\<lambda>k. ''We are up and running '' @ show_nat k) [0..<n] \<and>
      (n = 2 ^ 31 - 1 \<longrightarrow> hello_world_rounds (Suc n) (0, hello_world_start board []) = None)"
proof -
  obtain cs where cs: "hello_world_rounds n (0, hello_world_start board []) = Some (int n, cs)"
    "messages cs = messages (hello_world_start board []) @ map (\<lambda>k. ''We are up and running '' @ show_nat k) [0..<n]"
    using hello_world_runs [OF assms] by blast
  moreover have "messages (hello_world_start board []) = [''Hello from '' @ board]"
    by (simp add: hello_world_start_def messages_def)
  moreover have "hello_world_rounds (Suc n) (0, hello_world_start board []) = None" if "n = 2 ^ 31 - 1"
  proof -
    have "int n = 2 ^ 31 - 1" using that by simp
    then show ?thesis unfolding hello_world_rounds.simps cs(1) by (simp add: hello_world_round_def)
  qed
  ultimately show ?thesis by simp
qed

section \<open>The picture\<close>

text \<open>The picture is a rectangle of 21 rows and 55 columns.\<close>

lemma picture_rectangular: "length monkey_picture = 21 \<and> (\<forall>row \<in> set monkey_picture. length row = 55)"
  by (simp add: monkey_picture_def)

text \<open>The command prints 24 lines and succeeds, whatever its arguments.\<close>

lemma fold_shell_fprintf: "fold (\<lambda>x. shell_fprintf c (f x)) xs cs = rev (map (\<lambda>x. Demo_shell c (f x @ [CHR 0x0D, CHR 0x0A])) xs) @ cs"
  by (induction xs arbitrary: cs) (simp_all add: shell_fprintf_def)

theorem monkey_prints:
  "fst (monkey_handler argv cs) = 0 \<and> length (snd (monkey_handler argv cs)) = length cs + 24 \<and>
   drop 24 (snd (monkey_handler argv cs)) = cs"
  using picture_rectangular by (simp add: monkey_handler_def fold_shell_fprintf Let_def shell_fprintf_def)

section \<open>The configuration entries\<close>

definition item_ok :: "rt_config_item \<Rightarrow> nat \<Rightarrow> nat \<Rightarrow> nat \<Rightarrow> bool" where
  "item_ok i low start high \<longleftrightarrow> item_min i = show_nat low \<and> item_default i = show_nat start \<and> item_max i = show_nat high \<and>
     low \<le> start \<and> start \<le> high \<and> high < 2 ^ (8 * item_bytes i)"

text \<open>The limits and the default of both entries are decimal numbers that fit their variables, with the default
  between the limits.\<close>

lemma items_ok: "item_ok main_sleep_item 10 500 5000" "item_ok t2_sleep_item 10 500 5000"
  by (simp_all add: item_ok_def main_sleep_item_def t2_sleep_item_def show_nat.simps digit_char_def char_of_def bit_0)

section \<open>The graphics demo\<close>

text \<open>The loop is reached exactly if the device tree names a display, it is found and it is ready; only
  then the selected demo is started, once, and the display switched on after the first run of the handler.\<close>

theorem lvgl_starts:
  "fst (lvgl_start handler env demo (w, [])) \<longleftrightarrow> chosen_display env \<noteq> None \<and> binding_found env \<and> lv_device_ready env"
  "rev (snd (snd (lvgl_start handler env demo (w, [])))) =
     (if fst (lvgl_start handler env demo (w, [])) then [Lv_demo demo, Lv_task_handler, Lv_blanking_off]
      else [Lv_not_ready (case chosen_display env of None \<Rightarrow> ''zephyr,display'' | Some n \<Rightarrow> n)])"
  by (auto simp: lvgl_start_def)

text \<open>A pause of the loop is as long as the handler asks for, unless it asks for \<open>2 ^ 31\<close> ms or more: then the
  argument of \<^verbatim>\<open>k_msleep\<close> is negative.\<close>

lemma lvgl_sleep:
  assumes "handler w = (ms, w')"
  shows "lvgl_round handler (w, cs) = (w', Lv_msleep (sint ms) # Lv_task_handler # cs)"
    and "sint ms = (if unat ms < 2 ^ 31 then int (unat ms) else int (unat ms) - 2 ^ 32)"
proof -
  show "lvgl_round handler (w, cs) = (w', Lv_msleep (sint ms) # Lv_task_handler # cs)"
    using assms by (simp add: lvgl_round_def)
  define n where "n = unat ms"
  have n: "uint ms = int n" "n < 2 ^ 32" using unat_u32_less [of ms] by (simp_all add: n_def)
  have "sint ms = (int n + 2 ^ 31) mod 2 ^ 32 - 2 ^ 31"
    using n(1) by (simp add: sint_uint signed_take_bit_eq_take_bit_shift take_bit_eq_mod)
  moreover have "(int n + 2 ^ 31) mod 2 ^ 32 = (if n < 2 ^ 31 then int n + 2 ^ 31 else int n - 2 ^ 31)"
  proof (cases "n < 2 ^ 31")
    case False
    then show ?thesis using n(2) mod_add_self2 [of "int n - 2 ^ 31" "2 ^ 32"] by (simp add: add.commute)
  qed simp
  ultimately show "sint ms = (if unat ms < 2 ^ 31 then int (unat ms) else int (unat ms) - 2 ^ 32)"
    unfolding n_def by simp
qed

end
