(* ===== verification/Coprocessor.thy ===== *)
theory Coprocessor
  imports SmallDemos
begin

text \<open>
  The program of the coprocessor, \<^verbatim>\<open>ezh_app__toggle_test_io\<close> in \<^verbatim>\<open>direct_irq/src/ezh_app.c\<close>, and its
  interplay with the interrupt handler of the same file.

  The function is a sequence of assembler macros; it is the list \<open>ezh_app__toggle_test_io\<close> with one
  constructor for each macro it uses. The coprocessor is a parameter: \<open>exec p c\<close> executes one
  instruction of the program \<open>p\<close>, and \<open>view\<close> shows the program counter, the registers, the memory
  (by byte address) and the two mailbox registers. What its instructions do is the named hypothesis \<open>ezh_contract\<close>:
  \<open>instr_effect\<close> says it for each macro. Waiting for a beat takes time and nothing else.
\<close>

section \<open>The program\<close>

datatype ezh_reg = R0 | R6 | R7 | SP | GPO | GPD

datatype ezh_instr =
    E_NOP
  | E_PER_READ_ARM2EZH ezh_reg
  | E_PER_WRITE_EZH2ARM ezh_reg
  | E_LSR ezh_reg ezh_reg nat
  | E_LSL ezh_reg ezh_reg nat
  | E_LDR ezh_reg ezh_reg nat       \<comment> \<open>destination, base, offset in words\<close>
  | E_STR ezh_reg ezh_reg nat       \<comment> \<open>base, source, offset in words\<close>
  | E_BSET_IMM ezh_reg ezh_reg nat
  | E_BCLR_IMM ezh_reg ezh_reg nat
  | E_ADD_IMM ezh_reg ezh_reg nat
  | E_HEART_RYTHM_IMM nat
  | E_WAIT_FOR_BEAT
  | E_LABEL string
  | E_GOSUB string

abbreviation EZH_OP_1 :: nat where "EZH_OP_1 \<equiv> 24"

definition ezh_app__toggle_test_io :: "ezh_instr list" where
  "ezh_app__toggle_test_io = [
     E_NOP,
     E_NOP,
     E_PER_READ_ARM2EZH R6,
     E_LSR R6 R6 2,
     E_LSL R6 R6 2,
     E_LDR SP R6 0,
     E_LDR R7 R6 1,
     E_BSET_IMM GPO GPO EZH_OP_1,
     E_BSET_IMM GPD GPD EZH_OP_1,
     E_HEART_RYTHM_IMM 37493,
     E_LABEL ''toggle'',
     E_BSET_IMM GPO GPO EZH_OP_1,
     E_WAIT_FOR_BEAT,
     E_WAIT_FOR_BEAT,
     E_BCLR_IMM GPO GPO EZH_OP_1,
     E_ADD_IMM R0 R0 1,
     E_PER_WRITE_EZH2ARM R0,
     E_STR R7 R0 0,
     E_WAIT_FOR_BEAT,
     E_WAIT_FOR_BEAT,
     E_GOSUB ''toggle'']"

section \<open>The coprocessor\<close>

record ezh_view =
  ezh_pc :: nat
  ezh_reg :: "ezh_reg \<Rightarrow> u32"
  ezh_mem :: "u32 \<Rightarrow> u32"
  arm2ezh :: u32
  ezh2arm :: u32

definition set_reg :: "ezh_reg \<Rightarrow> u32 \<Rightarrow> ezh_view \<Rightarrow> ezh_view" where
  "set_reg r v c = c\<lparr>ezh_reg := (ezh_reg c)(r := v)\<rparr>"

fun label_index :: "string \<Rightarrow> ezh_instr list \<Rightarrow> nat" where
  "label_index l [] = 0"
| "label_index l (i # p) = (if i = E_LABEL l then 0 else Suc (label_index l p))"

definition next_instr :: "ezh_view \<Rightarrow> ezh_view" where
  "next_instr c = c\<lparr>ezh_pc := Suc (ezh_pc c)\<rparr>"

fun instr_effect :: "ezh_instr list \<Rightarrow> ezh_instr \<Rightarrow> ezh_view \<Rightarrow> ezh_view" where
  "instr_effect p E_NOP c = next_instr c"
| "instr_effect p (E_PER_READ_ARM2EZH r) c = next_instr (set_reg r (arm2ezh c) c)"
| "instr_effect p (E_PER_WRITE_EZH2ARM r) c = next_instr (c\<lparr>ezh2arm := ezh_reg c r\<rparr>)"
| "instr_effect p (E_LSR d s n) c = next_instr (set_reg d (drop_bit n (ezh_reg c s)) c)"
| "instr_effect p (E_LSL d s n) c = next_instr (set_reg d (push_bit n (ezh_reg c s)) c)"
| "instr_effect p (E_LDR d s n) c = next_instr (set_reg d (ezh_mem c (ezh_reg c s + of_nat (4 * n))) c)"
| "instr_effect p (E_STR b s n) c = next_instr (c\<lparr>ezh_mem := (ezh_mem c)(ezh_reg c b + of_nat (4 * n) := ezh_reg c s)\<rparr>)"
| "instr_effect p (E_BSET_IMM d s n) c = next_instr (set_reg d (or (ezh_reg c s) (push_bit n 1)) c)"
| "instr_effect p (E_BCLR_IMM d s n) c = next_instr (set_reg d (and (ezh_reg c s) (not (push_bit n 1))) c)"
| "instr_effect p (E_ADD_IMM d s n) c = next_instr (set_reg d (ezh_reg c s + of_nat n) c)"
| "instr_effect p (E_HEART_RYTHM_IMM n) c = next_instr c"
| "instr_effect p E_WAIT_FOR_BEAT c = next_instr c"
| "instr_effect p (E_LABEL l) c = next_instr c"
| "instr_effect p (E_GOSUB l) c = c\<lparr>ezh_pc := label_index l p\<rparr>"

definition ezh_contract :: "(ezh_instr list \<Rightarrow> 'c \<Rightarrow> 'c) \<Rightarrow> ('c \<Rightarrow> ezh_view) \<Rightarrow> bool" where
  "ezh_contract exec view \<longleftrightarrow> (\<forall>p c. ezh_pc (view c) < length p \<longrightarrow>
     view (exec p c) = instr_effect p (p ! ezh_pc (view c)) (view c))"

section \<open>What the program does\<close>

text \<open>One instruction of the program, on the view.\<close>

definition view_step :: "ezh_view \<Rightarrow> ezh_view" where
  "view_step v = instr_effect ezh_app__toggle_test_io (ezh_app__toggle_test_io ! ezh_pc v) v"

lemma ezh_program_length: "length ezh_app__toggle_test_io = 21"
  by (simp add: ezh_app__toggle_test_io_def)

lemma label_toggle: "label_index ''toggle'' ezh_app__toggle_test_io = 10"
  by (simp add: ezh_app__toggle_test_io_def)

lemma pc_step [simp]: "ezh_pc (next_instr v) = Suc (ezh_pc v)" "ezh_pc (set_reg r x v) = ezh_pc v"
  by (simp_all add: next_instr_def set_reg_def)

text \<open>The start of the program, and one pass of its loop, on the view.\<close>

lemma funpow_10: "(f ^^ 10) x = f (f (f (f (f (f (f (f (f (f x)))))))))"
  by (simp add: eval_nat_numeral)

lemma fetch:
  "ezh_app__toggle_test_io ! 0 = E_NOP" "ezh_app__toggle_test_io ! 1 = E_NOP"
  "ezh_app__toggle_test_io ! 2 = E_PER_READ_ARM2EZH R6" "ezh_app__toggle_test_io ! 3 = E_LSR R6 R6 2"
  "ezh_app__toggle_test_io ! 4 = E_LSL R6 R6 2" "ezh_app__toggle_test_io ! 5 = E_LDR SP R6 0"
  "ezh_app__toggle_test_io ! 6 = E_LDR R7 R6 1" "ezh_app__toggle_test_io ! 7 = E_BSET_IMM GPO GPO EZH_OP_1"
  "ezh_app__toggle_test_io ! 8 = E_BSET_IMM GPD GPD EZH_OP_1" "ezh_app__toggle_test_io ! 9 = E_HEART_RYTHM_IMM 37493"
  "ezh_app__toggle_test_io ! 10 = E_LABEL ''toggle''" "ezh_app__toggle_test_io ! 11 = E_BSET_IMM GPO GPO EZH_OP_1"
  "ezh_app__toggle_test_io ! 12 = E_WAIT_FOR_BEAT" "ezh_app__toggle_test_io ! 13 = E_WAIT_FOR_BEAT"
  "ezh_app__toggle_test_io ! 14 = E_BCLR_IMM GPO GPO EZH_OP_1" "ezh_app__toggle_test_io ! 15 = E_ADD_IMM R0 R0 1"
  "ezh_app__toggle_test_io ! 16 = E_PER_WRITE_EZH2ARM R0" "ezh_app__toggle_test_io ! 17 = E_STR R7 R0 0"
  "ezh_app__toggle_test_io ! 18 = E_WAIT_FOR_BEAT" "ezh_app__toggle_test_io ! 19 = E_WAIT_FOR_BEAT"
  "ezh_app__toggle_test_io ! 20 = E_GOSUB ''toggle''"
  by (simp_all add: ezh_app__toggle_test_io_def)

text \<open>A view by its parts, and one step on it for each instruction.\<close>

abbreviation ezh_at :: "nat \<Rightarrow> (ezh_reg \<Rightarrow> u32) \<Rightarrow> (u32 \<Rightarrow> u32) \<Rightarrow> u32 \<Rightarrow> u32 \<Rightarrow> ezh_view" where
  "ezh_at n r m i x \<equiv> \<lparr>ezh_pc = n, ezh_reg = r, ezh_mem = m, arm2ezh = i, ezh2arm = x\<rparr>"

lemma view_step_at:
  "view_step (ezh_at 0 r m i x) = ezh_at 1 r m i x" "view_step (ezh_at 1 r m i x) = ezh_at 2 r m i x"
  "view_step (ezh_at 2 r m i x) = ezh_at 3 (r(R6 := i)) m i x" "view_step (ezh_at 3 r m i x) = ezh_at 4 (r(R6 := drop_bit 2 (r R6))) m i x"
  "view_step (ezh_at 4 r m i x) = ezh_at 5 (r(R6 := push_bit 2 (r R6))) m i x" "view_step (ezh_at 5 r m i x) = ezh_at 6 (r(SP := m (r R6))) m i x"
  "view_step (ezh_at 6 r m i x) = ezh_at 7 (r(R7 := m (r R6 + 4))) m i x"
  "view_step (ezh_at 7 r m i x) = ezh_at 8 (r(GPO := or (r GPO) (push_bit EZH_OP_1 1))) m i x"
  "view_step (ezh_at 8 r m i x) = ezh_at 9 (r(GPD := or (r GPD) (push_bit EZH_OP_1 1))) m i x" "view_step (ezh_at 9 r m i x) = ezh_at 10 r m i x"
  "view_step (ezh_at 10 r m i x) = ezh_at 11 r m i x"
  "view_step (ezh_at 11 r m i x) = ezh_at 12 (r(GPO := or (r GPO) (push_bit EZH_OP_1 1))) m i x"
  "view_step (ezh_at 12 r m i x) = ezh_at 13 r m i x" "view_step (ezh_at 13 r m i x) = ezh_at 14 r m i x"
  "view_step (ezh_at 14 r m i x) = ezh_at 15 (r(GPO := and (r GPO) (not (push_bit EZH_OP_1 1)))) m i x"
  "view_step (ezh_at 15 r m i x) = ezh_at 16 (r(R0 := r R0 + 1)) m i x" "view_step (ezh_at 16 r m i x) = ezh_at 17 r m i (r R0)"
  "view_step (ezh_at 17 r m i x) = ezh_at 18 r (m(r R7 := r R0)) i x" "view_step (ezh_at 18 r m i x) = ezh_at 19 r m i x"
  "view_step (ezh_at 19 r m i x) = ezh_at 20 r m i x" "view_step (ezh_at 20 r m i x) = ezh_at 10 r m i x"
  by (simp_all add: view_step_def fetch label_toggle next_instr_def set_reg_def del: One_nat_def)

lemma start_effect:
  "(view_step ^^ 10) (ezh_at 0 r m i x) = ezh_at 10 (r(R6 := push_bit 2 (drop_bit 2 i),
     SP := m (push_bit 2 (drop_bit 2 i)), R7 := m (push_bit 2 (drop_bit 2 i) + 4),
     GPO := or (r GPO) (push_bit EZH_OP_1 1), GPD := or (r GPD) (push_bit EZH_OP_1 1))) m i x"
  unfolding funpow_10 by (simp add: view_step_at fun_eq_iff del: One_nat_def)

text \<open>Only a branch leaves the straight line, and every branch of the program is to \<open>toggle\<close>.\<close>

lemma instr_effect_pc:
  "ezh_pc (instr_effect p e v) = (case e of E_GOSUB l \<Rightarrow> label_index l p | _ \<Rightarrow> Suc (ezh_pc v))"
  by (cases e) simp_all

lemma branch_target: "E_GOSUB l \<in> set ezh_app__toggle_test_io \<Longrightarrow> l = ''toggle''"
  by (simp add: ezh_app__toggle_test_io_def)

lemma view_step_pc:
  assumes "ezh_pc v < 21"
  shows "ezh_pc (view_step v) < 21"
proof (cases "ezh_pc v = 20")
  case True
  then show ?thesis by (simp add: view_step_def fetch label_toggle)
next
  case False
  have "ezh_app__toggle_test_io ! ezh_pc v \<in> set ezh_app__toggle_test_io"
    using assms by (simp add: ezh_program_length)
  then show ?thesis using assms False
    by (auto simp: view_step_def instr_effect_pc label_toggle dest!: branch_target split: ezh_instr.splits)
qed

locale coprocessor =
  fixes exec :: "ezh_instr list \<Rightarrow> 'c \<Rightarrow> 'c" and view :: "'c \<Rightarrow> ezh_view"
  assumes documented: "ezh_contract exec view"
begin

abbreviation step :: "'c \<Rightarrow> 'c" where "step \<equiv> exec ezh_app__toggle_test_io"

lemma view_run:
  assumes "ezh_pc (view c) < 21"
  shows "view ((step ^^ k) c) = (view_step ^^ k) (view c) \<and> ezh_pc ((view_step ^^ k) (view c)) < 21"
proof (induction k)
  case (Suc k)
  then show ?case
    using documented by (simp add: ezh_contract_def ezh_program_length view_step_def [symmetric] view_step_pc)
qed (use assms in simp)

end

text \<open>One pass of the loop: the pin is high after two instructions and low after five; the counter is
  incremented, put into the mailbox and stored at the address in \<open>R7\<close>.\<close>

abbreviation pin_high :: "ezh_view \<Rightarrow> bool" where
  "pin_high v \<equiv> bit (ezh_reg v GPO) EZH_OP_1"

lemma funpow_11: "(f ^^ 11) x = f (f (f (f (f (f (f (f (f (f (f x))))))))))"
  by (simp add: eval_nat_numeral)

lemma loop_effect:
  "(view_step ^^ 11) (ezh_at 10 r m i x) =
     ezh_at 10 (r(GPO := and (or (r GPO) (push_bit EZH_OP_1 1)) (not (push_bit EZH_OP_1 1)), R0 := r R0 + 1))
       (m(r R7 := r R0 + 1)) i (r R0 + 1)"
  unfolding funpow_11 by (simp add: view_step_at fun_eq_iff del: One_nat_def)

lemma pin_pulse:
  "pin_high ((view_step ^^ 2) (ezh_at 10 r m i x))" "\<not> pin_high ((view_step ^^ 5) (ezh_at 10 r m i x))"
proof -
  have "(view_step ^^ 2) (ezh_at 10 r m i x) = ezh_at 12 (r(GPO := or (r GPO) (push_bit EZH_OP_1 1))) m i x"
    by (simp add: numeral_2_eq_2 view_step_at)
  moreover have "(view_step ^^ 5) (ezh_at 10 r m i x) =
      ezh_at 15 (r(GPO := and (or (r GPO) (push_bit EZH_OP_1 1)) (not (push_bit EZH_OP_1 1)))) m i x"
  proof -
    have five: "(f ^^ 5) y = f (f (f (f (f y))))" for f :: "ezh_view \<Rightarrow> ezh_view" and y by (simp add: eval_nat_numeral)
    show ?thesis unfolding five by (simp add: view_step_at fun_eq_iff)
  qed
  ultimately show "pin_high ((view_step ^^ 2) (ezh_at 10 r m i x))" "\<not> pin_high ((view_step ^^ 5) (ezh_at 10 r m i x))"
    by (simp_all add: bit_pin bit_or_iff bit_and_iff bit_not_iff del: push_bit_of_1)
qed

text \<open>The state at the top of the loop after \<open>k\<close> passes.\<close>

lemma loops_effect:
  assumes "0 < k"
  shows "\<exists>g. (view_step ^^ (11 * k)) (ezh_at 10 r m i x) =
    ezh_at 10 (r(GPO := g, R0 := r R0 + of_nat k)) (m(r R7 := r R0 + of_nat k)) i (r R0 + of_nat k) \<and> \<not> bit g EZH_OP_1"
  using assms
proof (induction k rule: nat_induct_non_zero)
  case 1
  have "\<not> bit (and (or (r GPO) (push_bit EZH_OP_1 1)) (not (push_bit EZH_OP_1 1))) EZH_OP_1"
    by (simp add: bit_pin bit_or_iff bit_and_iff bit_not_iff del: push_bit_of_1)
  moreover have "(view_step ^^ (11 * 1)) (ezh_at 10 r m i x) =
      ezh_at 10 (r(GPO := and (or (r GPO) (push_bit EZH_OP_1 1)) (not (push_bit EZH_OP_1 1)), R0 := r R0 + of_nat 1))
        (m(r R7 := r R0 + of_nat 1)) i (r R0 + of_nat 1)"
    by (simp add: loop_effect)
  ultimately show ?case by blast
next
  case (Suc k)
  then obtain g where g: "(view_step ^^ (11 * k)) (ezh_at 10 r m i x) =
    ezh_at 10 (r(GPO := g, R0 := r R0 + of_nat k)) (m(r R7 := r R0 + of_nat k)) i (r R0 + of_nat k)" by blast
  have "(view_step ^^ (11 * Suc k)) (ezh_at 10 r m i x) = (view_step ^^ 11) ((view_step ^^ (11 * k)) (ezh_at 10 r m i x))"
    by (metis comp_apply funpow_add mult_Suc_right)
  also have "\<dots> = ezh_at 10 (r(GPO := and (or g (push_bit EZH_OP_1 1)) (not (push_bit EZH_OP_1 1)), R0 := r R0 + of_nat (Suc k)))
      (m(r R7 := r R0 + of_nat (Suc k))) i (r R0 + of_nat (Suc k))"
    unfolding g loop_effect by (simp add: fun_eq_iff add.commute)
  finally have *: "(view_step ^^ (11 * Suc k)) (ezh_at 10 r m i x) = \<dots>" .
  have "\<not> bit (and (or g (push_bit EZH_OP_1 1)) (not (push_bit EZH_OP_1 1))) EZH_OP_1"
    by (simp add: bit_pin bit_or_iff bit_and_iff bit_not_iff del: push_bit_of_1)
  with * show ?case by blast
qed

text \<open>A coprocessor that is its view.\<close>

definition demo_exec :: "ezh_instr list \<Rightarrow> ezh_view \<Rightarrow> ezh_view" where
  "demo_exec p c = (if ezh_pc c < length p then instr_effect p (p ! ezh_pc c) c else c)"

interpretation demo_coprocessor: coprocessor demo_exec "\<lambda>c. c"
  by unfold_locales (simp add: ezh_contract_def demo_exec_def)

section \<open>The coprocessor and its interrupt\<close>

text \<open>C31: the coprocessor counts and the processor sees the count. The program is loaded and its mailbox
  holds the address of the parameters, in whose two low bits the processor's flags are. After the start and any number \<open>k > 0\<close> of passes of its loop, the
  counter in \<open>R0\<close> has gone up by \<open>k\<close> (modulo \<open>2 ^ 32\<close>), the output pin is low, the first word of the debug
  buffer holds the counter and no other word of memory has changed, and an interrupt now makes
  \<^verbatim>\<open>test_val\<close> the counter. The program never sets \<open>R0\<close>, so the count starts at whatever it holds at boot.\<close>

theorem coprocessor_counts:
  assumes "ezh_contract exec view" and "view c = ezh_at 0 r m i x" and "0 < k"
    and "params = push_bit 2 (drop_bit 2 i)"
    and "c' = (exec ezh_app__toggle_test_io ^^ (10 + 11 * k)) c"
  shows "ezh_reg (view c') R0 = r R0 + of_nat k \<and> \<not> pin_high (view c') \<and>
    ezh_mem (view c') = m(m (params + 4) := r R0 + of_nat k) \<and>
    ezh_reg (view c') SP = m params \<and>
    test_val (snd (smartdma_irq_handler (ezh2arm (view c')) s)) = r R0 + of_nat k"
proof -
  from assms(1) have cp: "coprocessor exec view" by unfold_locales
  let ?r = "r(R6 := params, SP := m params, R7 := m (params + 4),
     GPO := or (r GPO) (push_bit EZH_OP_1 1), GPD := or (r GPD) (push_bit EZH_OP_1 1))"
  have "view c' = (view_step ^^ (11 * k + 10)) (ezh_at 0 r m i x)"
    using coprocessor.view_run [OF cp, of c "10 + 11 * k"] assms(2,5) by (simp add: add.commute)
  also have "\<dots> = (view_step ^^ (11 * k)) (ezh_at 10 ?r m i x)"
    unfolding funpow_add comp_apply start_effect assms(4) ..
  finally obtain g where "view c' = ezh_at 10 (?r(GPO := g, R0 := ?r R0 + of_nat k))
      (m(?r R7 := ?r R0 + of_nat k)) i (?r R0 + of_nat k)" "\<not> bit g EZH_OP_1"
    using loops_effect [OF assms(3), of ?r m i x] by metis
  then show ?thesis by (simp add: smartdma_irq_handler_def ezh_note_def Let_def)
qed

theorem coprocessor_counts_witness:
  "test_val (snd (smartdma_irq_handler (ezh2arm ((demo_exec ezh_app__toggle_test_io ^^ 32)
     (ezh_at 0 (\<lambda>_. 0) (\<lambda>a. a + 16) 0x2003 0))) \<lparr>test_val = 0, has_stack = True, ezh_calls = []\<rparr>)) = 2"
  using coprocessor_counts [OF demo_coprocessor.documented refl _ refl refl, where k = 2 and r = "\<lambda>_. 0" and
      m = "\<lambda>a. a + 16" and i = "0x2003" and x = 0] by simp

end
