(* ===== verification/Spec2Isabelle.thy ===== *)
theory Spec2Isabelle
  imports CanGenThreads CanCounterSystemProps T1sNode Bridge LittlefsBoot DisplayProps
    Synchronization Lan8651Props BleShell DhcpClient I2cShell Dcd FlexspiProps GreetingDemos Coprocessor
begin

text \<open>
  A verification of the application code of a collection of Zephyr programs in C. The
  repository's applications (\<^verbatim>\<open>src/app/demos\<close>) are small programs over the Zephyr kernel and its
  drivers; each is one component here, and so are the two boot tables of the RT1050 board
  (\<^verbatim>\<open>src/boards/nxp/rt1050_custom\<close>). The kernel, the drivers and the libraries are not part
  of the repository.

  \<^bold>\<open>Conventions.\<close> The file-scope variables of a program are a record, its functions are HOL
  functions from the state to the next state (with the return value first), and loops are
  recursive functions. What the code calls but does not define is a parameter: a record of
  functions (\<open>can_api\<close>, \<open>t1s_api\<close>, \<open>fw_api\<close>, \<open>fs_api\<close>, \<open>net_env\<close>, \<open>sem_api\<close>, \<open>lan_api\<close>, \<open>led_api\<close>, \<open>port_api\<close>,
  \<open>node_api\<close>, \<open>t1s_node_api\<close>, \<open>lut_macros\<close>) on a world of arbitrary
  type, or, where each answer is used once, an argument. What a theorem needs to know about
  such code is a named contract in its hypotheses (\<open>can_bus\<close>, \<open>clock_contract\<close>,
  \<open>byteorder_contract\<close>, \<open>snprintk_contract\<close>, \<open>flash_works\<close>, \<open>file_contract\<close>, \<open>dir_contract\<close>,
  \<open>mount_contract\<close>, \<open>fs_handles\<close>, \<open>k_sem_contract\<close>, \<open>msgq_contract\<close>, \<open>be16_contract\<close>,
  \<open>ntop_contract\<close>, \<open>led_contract\<close>, \<open>port_contract\<close>, \<open>lut_contract\<close>,
  \<open>node_contract\<close>, \<open>dispatch_contract\<close>, \<open>ezh_contract\<close>, \<open>driver_restarts\<close>, \<open>flash_writer\<close>,
  \<open>prints_nearest_tenth\<close>), and each such
  theorem has a witness with a concrete instance of the contract. Print statements and calls
  without a result that matters are recorded in lists, newest first. Machine integers are words
  of their width; in the display program \<^verbatim>\<open>size_t\<close> is a natural number with its wrap-around
  written out. Zephyr's macros (\<^verbatim>\<open>CLAMP\<close>, \<^verbatim>\<open>DIV_ROUND_UP\<close>, \<^verbatim>\<open>K_SEM_DEFINE\<close>, the device tree
  macros) are expanded where they are used; build options are arguments.

  \<^bold>\<open>Shared theories.\<close> \<open>Prelude\<close> has the machine types, error numbers, list and word lemmas and two
  interfaces: \<open>machine\<close>, a step function with an invariant (interpreted for the traffic
  generator, the CAN counter system, the firmware upload, the whole T1S node, the LAN8651 demo and the Bluetooth shell), and \<open>slot_table\<close>, an array with a search for the first
  free slot (interpreted for the WebSocket clients and for the interfaces of the bridge). \<open>CLib\<close>
  has the number formatting, the contract of \<^verbatim>\<open>snprintk\<close> and \<^verbatim>\<open>strtoul\<close> of the C library, \<open>CanTypes\<close> the data of the CAN driver
  and the semaphore contract.

  \<^bold>\<open>CAN traffic generator\<close> (\<^verbatim>\<open>frdm_can_traffic_generator/src/main.c\<close>), theories \<open>CanGen\<close>,
  \<open>CanGenProps\<close> and \<open>CanGenThreads\<close>. The record \<open>gen\<close> holds the file-scope variables; \<open>gen_step\<close> is one round of the
  main loop or one shell command. Transmit-complete interrupts are taken inside every driver
  call and every sleep. Shown: the semaphore credits and the frames in the driver add up to the
  queue depth in every run (locale \<open>can_bus\<close>), the period stays in range, what the parser accepts,
  the frame layout, bursts, restarts, the pause between automatic recoveries (locale \<open>can_clock\<close>)
  and that a silent bus leads to a recovery, where only the driver's calls are assumed to succeed
  (\<open>driver_restarts\<close>) and the success of the restart is proved. \<open>CanGenThreads\<close> splits sending and restarting into the
  pieces between which the main loop and the shell can preempt each other: a call that is not preempted
  is the whole call of \<open>CanGen\<close>; preempted senders keep the credits; a restart by either thread while the other one
  holds a credit adds one, and after that the sum stays between the depth and one above it; the numbers of
  the frame sets are consecutive as long as the threads never overlap in \<^verbatim>\<open>tx_sequence++\<close>, and equal for the two when they do. The increments of the statistics counters are not split, and
  interrupts between two C statements that make no call are not modelled.

  \<^bold>\<open>T1S node\<close> (\<^verbatim>\<open>ethernet_bridge/t1s_device/src/main.c\<close>), theories \<open>T1sDevice\<close>, \<open>T1sProps\<close> and
  \<open>T1sLocking\<close> for the LED and the WebSocket clients, \<open>T1sFirmware\<close> and \<open>T1sFirmwareProps\<close> for the firmware upload,
  \<open>T1sNode\<close> for the whole. \<open>T1sDevice\<close> has the functions of the code (\<open>rgb_apply\<close>, \<open>apply_cmd\<close>,
  \<open>ws_setup_cb\<close>, \<open>t1s_main\<close> and so on) and splits those that touch the LED or send the state into their single
  calls and stores (\<open>instr\<close>); lemmas show that the pieces, run one after the other, are the functions. The system
  \<open>t1s_sys\<close> adds what the kernel and the network stack keep: who holds the mutex, whether the server runs, and
  the open descriptors. \<open>t1s_next\<close> lets \<^verbatim>\<open>main\<close> and the client threads execute one instruction, in any order, and the
  server accept a connection with any descriptor that is not open. The test of a slot and the message to it are one instruction, and so are receiving
  and parsing a frame. Shown: exact LED pulses; the open descriptors are exactly those of the slots whose thread has not
  unregistered; the effect of a command; the guarantees of the mutex, with the unlocked writes of \<^verbatim>\<open>main\<close>
  before the server starts stated as such; when the state message fits its buffer. Three theorems show defects: a broadcast to a descriptor that is already
  unregistered, the reuse of a live thread object, and a message longer than its buffer.

  For the upload: the exact calls of a complete one, with one scheduled reboot, and that its bytes are in the flash if the
  last piece has data; if it has none, the flush is never asked for, and a theorem shows that data then stays in the
  writer's buffer. The byte counter and the flags are consistent over every sequence of handler
  calls; what failures do; a partial image that is installed after a failure. \<open>T1sNode\<close> has the table of HTTP resources and
  runs requests, \<^verbatim>\<open>main\<close>, client threads, the upload and the reboot timer as one system; shown: a reboot was scheduled
  by the last piece of a \<^verbatim>\<open>POST /firmware\<close> that the boot loader accepted, and what image was handed to the flash
  writer then, which is not always a complete one; other requests change neither the upload nor the timer. \<^verbatim>\<open>main\<close> is modelled for the build with the boot loader;
  the build without it, which confirms nothing, is the case that the image is confirmed already.

  \<^bold>\<open>Ethernet bridge\<close> (\<^verbatim>\<open>ethernet_bridge/bridge/src/main.c\<close>), theory \<open>Bridge\<close>. The callbacks, the
  static address and \<^verbatim>\<open>main\<close> up to its idle loop; shown: which interfaces are stored and bridged,
  and the exact sequence of calls.

  \<^bold>\<open>littlefs sample\<close> (\<^verbatim>\<open>littlefs/src/main.c\<close>), theories \<open>Littlefs\<close>, \<open>LittlefsProps\<close> and \<open>LittlefsBoot\<close>.
  All functions, both mount variants. The directory loop has no bound in the code and is a
  partial function; it is shown to return on a working file system. Shown: the contents of both
  files after any number of boots, the pattern in closed form, the printed bytes, that no path
  leaks a handle or a mount (interface \<open>file_operation\<close>, interpreted for the two file
  operations), and the result codes.

  \<^bold>\<open>Display sample\<close> (\<^verbatim>\<open>display/src/main.c\<close>), theories \<open>Display\<close> and \<open>DisplayProps\<close>. The fill
  functions meet the interface \<open>pixel_filler\<close>, interpreted for all six. The loop over the strips
  is a partial function, since it does not end when its step is zero; the endless grey loop is
  observed after a number of rounds that the theorems leave arbitrary. Shown: the exact calls of
  a run, that strips and rectangles fit the display and the buffer, and the two kinds of
  displays on which the program misbehaves.

  \<^bold>\<open>CAN counter\<close> (\<^verbatim>\<open>can_counter/src/main.c\<close>), theories \<open>CanCounter\<close> and \<open>CanCounterProps\<close> for the handlers,
  thread rounds and the main loop as functions, \<open>CanCounterSystem\<close> and \<open>CanCounterSystemProps\<close> for the
  running system: \<open>node_step\<close> runs one piece of a thread, work item or callback, in any order, over
  the two message queues of depth two, with frames that arrive at any moment and are dropped when a queue is full. Shown
  (interface \<open>can_node\<close>): the counters printed are some of those sent, in order, on one board in loopback mode
  and between two boards, and all of them when the receiving thread keeps up; no wake-up of the LED handler is
  lost; the last reported controller state is the current one; and for the functions alone, what the LED handler does with a queue and that the polling
  thread prints exactly the changes. A round of the polling thread and the state change handler are one step each.

  \<^bold>\<open>Synchronization demo\<close> (\<^verbatim>\<open>synchronization/src/main.c\<close>), theory \<open>Synchronization\<close>. Two threads and
  \<^verbatim>\<open>main\<close> interleaved one kernel call at a time; shown: strict alternation and progress.

  \<^bold>\<open>LAN8651 demo\<close> (\<^verbatim>\<open>ethernet_bridge/lan8651_t1s_demo/src/main.c\<close>), theories \<open>Lan8651\<close> and \<open>Lan8651Props\<close>.
  The two servers and the transmitter are program counters at the tops of their loops; \<open>lan_next\<close>
  runs one round of one thread or delivers a management event, so a round is not interrupted.
  Shown: the UDP server refines an abstract echo service (\<open>echo_step\<close>), sockets are neither leaked
  nor closed twice (interface \<open>socket_thread\<close>, interpreted for the three threads and the events),
  the page that a client gets has the address of the default interface and the uptime of that moment, the transmitter's messages are
  complete and numbered, when the wait for an address gives up, and how \<^verbatim>\<open>main\<close> starts.

  \<^bold>\<open>Bluetooth shell\<close> (\<^verbatim>\<open>rw612-ble-shell/src/main.c\<close>), theory \<open>BleShell\<close>: the sequence of heart rates, the
  advertising that is never restarted, and the wait for the terminal, a partial function that is
  shown to return exactly if the terminal shows up. \<^bold>\<open>DHCP client\<close> (\<^verbatim>\<open>dhcpv4_client/src/main.c\<close>), theory
  \<open>DhcpClient\<close>: what is reported. \<^bold>\<open>I2C shell\<close> (\<^verbatim>\<open>i2c_shell/src/main.c\<close>), theory \<open>I2cShell\<close>: the shell shows
  the tenth of a degree nearest to the temperature that the sensor encodes.

  \<^bold>\<open>Boot tables\<close>. Theory \<open>Dcd\<close> (\<^verbatim>\<open>dcd/dcd.c\<close>) has the table byte by byte and an encoder and
  decoder of its format; shown: the table is the encoding of the program its comments describe,
  and starts the SDRAM in order. Theories \<open>FlexspiConfig\<close> and \<open>FlexspiProps\<close>
  (\<^verbatim>\<open>xip/rt1050_custom_flexspi_nor_config.h\<close> and \<^verbatim>\<open>.c\<close>) have the structures and the initialised object;
  shown: the layout in memory is the documented one for every value, and the lookup table is the
  command set of the flash. What the boot ROM and the flash do with the tables is not modelled.

  \<^bold>\<open>Small demos\<close>, theory \<open>SmallDemos\<close>: the LED threads and the register-level blinker (interface
  \<open>blinker\<close>), the counting loop of \<^verbatim>\<open>hello_rtt\<close>, the start of the coprocessor and its interrupt handler. Theory
  \<open>Coprocessor\<close> has the coprocessor's program (\<^verbatim>\<open>direct_irq/src/ezh_app.c\<close>) as a list of instructions; what the hardware
  does with them is the hypothesis \<open>ezh_contract\<close>; shown: the count it keeps is the value the interrupt
  handler reads. Theory \<open>GreetingDemos\<close> has the programs that print a message and loop (\<^verbatim>\<open>hello_world\<close>, \<^verbatim>\<open>hello_zephyr\<close>,
  \<^verbatim>\<open>direct_irq\<close>, \<^verbatim>\<open>z_for_each\<close>, the FRDM shell programs and \<^verbatim>\<open>lvgl\<close>), interface \<open>greeter\<close>, with their shell
  commands and configuration entries.

  \<^bold>\<open>Not modelled\<close>: the libraries behind these programs (the kernel, drivers, shells, LVGL, the coprocessor's assembler and the
  run-time configuration); log messages without effect on
  the state, except where a component records them; stack sizes, priorities and real time; the advertising
  data of the Bluetooth shell; the generated web page. Preemption inside a round is modelled for the traffic
  generator, the synchronization demo, the CAN counter and \<^verbatim>\<open>main\<close> and the client threads of the T1S node; elsewhere a round or handler call is one step.
\<close>

end
